(* ===== verification/Prelude.thy ===== *)
theory Prelude
  imports Main "HOL-Library.AList" "HOL-Library.Char_ord" "HOL-Library.List_Lexorder"
    "HOL-Library.Sublist"
begin

text \<open>
  Shared types and helper facts of the development.

  Go strings are byte sequences, and a HOL \<open>string\<close> is a list of 8-bit characters, so one
  models the other exactly.  Go errors are values of \<open>go_error\<close>; a function that returns
  \<open>(T, error)\<close> returns \<open>go_error + 'a\<close> here, \<open>Inl\<close> being the error.  A function that can
  panic returns an \<open>outcome\<close>; one that can do both returns an \<open>attempt\<close>, a sum whose left
  side is a \<open>failure\<close>.  A Go map is an association list with distinct keys, read with
  \<open>map_of\<close> and written with \<open>AList.update\<close> and \<open>AList.delete\<close>; the order of the list is
  the order a \<open>range\<close> loop happens to take where a component is about that order.
\<close>

named_theorems go_simps \<open>rewrite rules that compute the modelled operations\<close>
named_theorems go_inv \<open>introduction rules for well-formedness invariants\<close>

section \<open>JSON documents, errors, outcomes\<close>

text \<open>A JSON document; a number keeps its literal.\<close>

datatype json =
    JNull
  | JBool bool
  | JNum string
  | JStr string
  | JArr "json list"
  | JObj "(string \<times> json) list"

text \<open>
  \<open>ErrNew m\<close> is an error made by \<open>errors.New\<close> or \<open>fmt.Errorf\<close>, \<open>ErrRuntime m\<close> a run-time
  error raised by the language (index out of range, nil dereference), and \<open>ErrExt m d\<close> an
  error that comes from outside the program (a driver, the operating system): its message and
  what \<open>encoding/json\<close> makes of its dynamic value (\<open>None\<close> when it refuses it).
\<close>

datatype go_error =
    ErrNew string
  | ErrRuntime string
  | ErrExt string "json option"

type_synonym 'a result = "go_error + 'a"

text \<open>
  A call either returns or panics: with a run-time error of the language, or with the string
  the code gives to \<open>panic\<close>.
\<close>

datatype go_panic = RuntimePanic string | StringPanic string

datatype 'a outcome = Panics go_panic | Returns 'a

fun bind_outcome :: "'a outcome \<Rightarrow> ('a \<Rightarrow> 'b outcome) \<Rightarrow> 'b outcome" where
  "bind_outcome (Panics e) f = Panics e"
| "bind_outcome (Returns x) f = f x"

fun_cases bind_outcome_ReturnsE: "bind_outcome m f = Returns y"

text \<open>The text of an error (\<open>err.Error()\<close>).\<close>

fun err_msg :: "go_error \<Rightarrow> string" where
  "err_msg (ErrNew m) = m"
| "err_msg (ErrRuntime m) = ''runtime error: '' @ m"
| "err_msg (ErrExt m d) = m"

lemma bind_outcome_Returns [simp]: "bind_outcome m Returns = m"
  by (cases m) simp_all

lemma bind_outcome_Returns_iff [go_simps]:
  "bind_outcome m f = Returns y \<longleftrightarrow> (\<exists>x. m = Returns x \<and> f x = Returns y)"
  by (cases m) simp_all

lemma bind_outcome_Panics_iff [go_simps]:
  "bind_outcome m f = Panics p \<longleftrightarrow> m = Panics p \<or> (\<exists>x. m = Returns x \<and> f x = Panics p)"
  by (cases m) simp_all

lemma bind_outcome_assoc:
  "bind_outcome (bind_outcome m f) g = bind_outcome m (\<lambda>x. bind_outcome (f x) g)"
  by (cases m) simp_all

abbreviation index_panic :: go_panic where
  "index_panic \<equiv> RuntimePanic ''index out of range''"

abbreviation nil_panic :: go_panic where
  "nil_panic \<equiv> RuntimePanic ''invalid memory address or nil pointer dereference''"

text \<open>Indexing a slice by a Go \<open>int\<close> panics outside \<open>0 .. len - 1\<close>.\<close>

definition go_index :: "'a list \<Rightarrow> int \<Rightarrow> 'a outcome" where
  "go_index xs i =
     (if 0 \<le> i \<and> i < int (length xs) then Returns (xs ! nat i) else Panics index_panic)"

lemma go_index_in [go_simps]:
  "0 \<le> i \<Longrightarrow> i < int (length xs) \<Longrightarrow> go_index xs i = Returns (xs ! nat i)"
  by (simp add: go_index_def)

lemma go_index_neg [go_simps]: "i < 0 \<Longrightarrow> go_index xs i = Panics index_panic"
  by (simp add: go_index_def)

lemma go_index_ge [go_simps]: "int (length xs) \<le> i \<Longrightarrow> go_index xs i = Panics index_panic"
  by (simp add: go_index_def)

lemma go_index_Returns_iff:
  "(\<exists>x. go_index xs i = Returns x) \<longleftrightarrow> 0 \<le> i \<and> i < int (length xs)"
  by (simp add: go_index_def)

section \<open>Maps as association lists\<close>

abbreviation wf_map :: "('k \<times> 'v) list \<Rightarrow> bool" where
  "wf_map m \<equiv> distinct (map fst m)"

lemma map_of_alist_update [simp]: "map_of (AList.update k v m) = (map_of m)(k \<mapsto> v)"
  by (simp add: update_conv')

lemma map_of_alist_delete [simp]: "map_of (AList.delete k m) = (map_of m)(k := None)"
  by (simp add: delete_conv')

lemma wf_map_update [go_inv]: "wf_map m \<Longrightarrow> wf_map (AList.update k v m)"
  by (rule distinct_update)

lemma wf_map_delete [go_inv]: "wf_map m \<Longrightarrow> wf_map (AList.delete k m)"
  by (rule distinct_delete)

section \<open>Failures\<close>

text \<open>
  What keeps a call that may panic and that also returns an error from a result: it returns an
  error, or it panics.
\<close>

datatype failure = Fails go_error | Crashes go_panic

type_synonym 'a attempt = "failure + 'a"

text \<open>A call that cannot panic, where a caller can.\<close>

definition attempt :: "'a result \<Rightarrow> 'a attempt" where
  "attempt m = (case m of Inl e \<Rightarrow> Inl (Fails e) | Inr x \<Rightarrow> Inr x)"

lemma attempt_simps [simp]: "attempt (Inl e) = Inl (Fails e)" "attempt (Inr x) = Inr x"
  by (simp_all add: attempt_def)

lemma attempt_Inr_iff [simp]: "attempt m = Inr x \<longleftrightarrow> m = Inr x"
  by (cases m) simp_all

lemma attempt_not_crash [simp]: "attempt m \<noteq> Inl (Crashes p)"
  by (cases m) simp_all

text \<open>
  A call through a pointer that reads the struct: a nil pointer panics, and what the call does
  to the struct is seen through the pointer.
\<close>

definition deref :: "('a \<Rightarrow> 'b result) \<Rightarrow> 'a option \<Rightarrow> 'b option attempt" where
  "deref f p =
     (case p of
        None \<Rightarrow> Inl (Crashes nil_panic)
      | Some x \<Rightarrow> (case f x of Inl e \<Rightarrow> Inl (Fails e) | Inr y \<Rightarrow> Inr (Some y)))"

lemma deref_Inr_iff: "deref f p = Inr q \<longleftrightarrow> (\<exists>x y. p = Some x \<and> q = Some y \<and> f x = Inr y)"
  by (auto simp: deref_def split: option.splits sum.splits)

lemma deref_simps [simp]:
  "deref f None = Inl (Crashes nil_panic)"
  "f x = Inr y \<Longrightarrow> deref f (Some x) = Inr (Some y)"
  "f x = Inl e \<Longrightarrow> deref f (Some x) = Inl (Fails e)"
  by (simp_all add: deref_def)

section \<open>Sequencing over a list\<close>

text \<open>A \<open>for\<close> loop whose body may return an error: the first error ends it.\<close>

fun mapM_result :: "('a \<Rightarrow> 'e + 'b) \<Rightarrow> 'a list \<Rightarrow> 'e + 'b list" where
  "mapM_result f [] = Inr []"
| "mapM_result f (x # xs) =
     (case f x of
        Inl e \<Rightarrow> Inl e
      | Inr y \<Rightarrow> (case mapM_result f xs of Inl e \<Rightarrow> Inl e | Inr ys \<Rightarrow> Inr (y # ys)))"

lemma mapM_result_Inr_iff:
  "mapM_result f xs = Inr ys \<longleftrightarrow> list_all2 (\<lambda>x y. f x = Inr y) xs ys"
proof (induction xs arbitrary: ys)
  case Nil
  then show ?case by auto
next
  case (Cons x xs)
  show ?case
    by (cases ys; cases "f x"; cases "mapM_result f xs") (auto simp flip: Cons.IH)
qed

lemma mapM_result_length: "mapM_result f xs = Inr ys \<Longrightarrow> length ys = length xs"
  by (auto simp: mapM_result_Inr_iff dest: list_all2_lengthD)

lemma mapM_result_Inl:
  "mapM_result f xs = Inl e \<Longrightarrow> \<exists>x \<in> set xs. f x = Inl e"
  by (induction xs) (auto split: sum.splits)

lemma mapM_result_set:
  assumes "mapM_result f xs = Inr ys" and "y \<in> set ys"
  shows "\<exists>x \<in> set xs. f x = Inr y"
  using assms by (induction xs arbitrary: ys) (auto split: sum.splits)

lemma mapM_result_ex:
  assumes "mapM_result f xs = Inr ys" and "x \<in> set xs"
  shows "\<exists>y \<in> set ys. f x = Inr y"
  using assms by (induction xs arbitrary: ys) (auto split: sum.splits)

text \<open>Induction over a list of pointers.\<close>

lemma ptrs_induct [case_names empty nil ptr]:
  assumes "P []" and "\<And>ps. P ps \<Longrightarrow> P (None # ps)" and "\<And>x ps. P ps \<Longrightarrow> P (Some x # ps)"
  shows "P ps"
proof (induction ps)
  case (Cons p ps)
  with assms(2,3) show ?case by (cases p) simp_all
qed (rule assms(1))

lemma no_nil: "None \<notin> set ps \<longleftrightarrow> (\<exists>xs. ps = map Some xs)"
proof (induction ps)
  case (Cons p ps)
  then show ?case by (cases p) (auto simp: Cons_eq_map_conv)
qed simp

text \<open>A loop over pointers succeeds when none is nil and it succeeds on what they point to.\<close>

lemma mapM_deref_Inr:
  "mapM_result (deref f) ps = Inr qs \<longleftrightarrow>
     (\<exists>xs ys. ps = map Some xs \<and> qs = map Some ys \<and> mapM_result f xs = Inr ys)"
proof (induction ps arbitrary: qs)
  case Nil
  then show ?case by auto
next
  case (Cons p ps)
  show ?case
  proof
    assume "mapM_result (deref f) (p # ps) = Inr qs"
    then obtain x y qs' where "p = Some x" "f x = Inr y" "mapM_result (deref f) ps = Inr qs'"
      and "qs = Some y # qs'"
      by (auto simp: deref_Inr_iff split: sum.splits)
    moreover from this Cons.IH obtain xs ys where "ps = map Some xs" "qs' = map Some ys"
      "mapM_result f xs = Inr ys" by blast
    ultimately show "\<exists>xs ys. p # ps = map Some xs \<and> qs = map Some ys \<and> mapM_result f xs = Inr ys"
      by (intro exI [of _ "x # xs"] exI [of _ "y # ys"]) simp
  next
    assume "\<exists>xs ys. p # ps = map Some xs \<and> qs = map Some ys \<and> mapM_result f xs = Inr ys"
    then obtain x xs ys where "p = Some x" "ps = map Some xs" "qs = map Some ys"
      "mapM_result f (x # xs) = Inr ys" by (auto simp: Cons_eq_map_conv)
    moreover from this obtain y ys' where "f x = Inr y" "mapM_result f xs = Inr ys'" "ys = y # ys'"
      by (auto split: sum.splits)
    ultimately show "mapM_result (deref f) (p # ps) = Inr qs" using Cons.IH [of "map Some ys'"] by auto
  qed
qed

text \<open>A loop over pointers of which one is nil never succeeds.\<close>

lemma mapM_deref_nil: "None \<in> set ps \<Longrightarrow> \<exists>e. mapM_result (deref f) ps = Inl e"
  by (cases "mapM_result (deref f) ps") (auto simp: mapM_deref_Inr)

end
