(* ===== verification/Go_Strings.thy ===== *)
theory Go_Strings
  imports Prelude
begin

text \<open>
  The parts of Go's package \<open>strings\<close> the program uses, on byte strings.  Every separator
  the program splits on is one byte (\<open>|\<close>, newline, space, colon, equals sign).
\<close>

section \<open>TrimSpace\<close>

text \<open>The UTF-8 encodings of the code points for which \<open>unicode.IsSpace\<close> holds.\<close>

definition ws_runes :: "string list" where
  "ws_runes =
     [[CHR 0x09], [CHR 0x0A], [CHR 0x0B], [CHR 0x0C], [CHR 0x0D], [CHR 0x20],
      [CHR 0xC2, CHR 0x85], [CHR 0xC2, CHR 0xA0], [CHR 0xE1, CHR 0x9A, CHR 0x80],
      [CHR 0xE2, CHR 0x80, CHR 0x80], [CHR 0xE2, CHR 0x80, CHR 0x81],
      [CHR 0xE2, CHR 0x80, CHR 0x82], [CHR 0xE2, CHR 0x80, CHR 0x83],
      [CHR 0xE2, CHR 0x80, CHR 0x84], [CHR 0xE2, CHR 0x80, CHR 0x85],
      [CHR 0xE2, CHR 0x80, CHR 0x86], [CHR 0xE2, CHR 0x80, CHR 0x87],
      [CHR 0xE2, CHR 0x80, CHR 0x88], [CHR 0xE2, CHR 0x80, CHR 0x89],
      [CHR 0xE2, CHR 0x80, CHR 0x8A], [CHR 0xE2, CHR 0x80, CHR 0xA8],
      [CHR 0xE2, CHR 0x80, CHR 0xA9], [CHR 0xE2, CHR 0x80, CHR 0xAF],
      [CHR 0xE2, CHR 0x81, CHR 0x9F], [CHR 0xE3, CHR 0x80, CHR 0x80]]"

text \<open>Drop leading members of \<open>ws\<close> as long as one is a (non-empty) prefix.\<close>

function strip :: "string list \<Rightarrow> string \<Rightarrow> string" where
  "strip ws s =
     (case find (\<lambda>w. w \<noteq> [] \<and> prefix w s) ws of
        None \<Rightarrow> s
      | Some w \<Rightarrow> strip ws (drop (length w) s))"
  by pat_completeness auto
termination
  by (relation "measure (\<lambda>(ws, s). length s)")
    (auto simp: find_Some_iff prefix_def)

declare strip.simps [simp del]

definition trim_left :: "string \<Rightarrow> string" where
  "trim_left s = strip ws_runes s"

definition trim_right :: "string \<Rightarrow> string" where
  "trim_right s = rev (strip (map rev ws_runes) (rev s))"

definition TrimSpace :: "string \<Rightarrow> string" where
  "TrimSpace s = trim_right (trim_left s)"

lemma strip_fixed_iff: "strip ws s = s \<longleftrightarrow> (\<forall>w \<in> set ws. w \<noteq> [] \<longrightarrow> \<not> prefix w s)"
proof -
  have len: "length (strip ws t) \<le> length t" for t
  proof (induction ws t rule: strip.induct)
    case (1 ws t)
    then show ?case
      by (subst strip.simps) (auto split: option.splits intro: order.trans)
  qed
  show ?thesis
  proof (cases "find (\<lambda>w. w \<noteq> [] \<and> prefix w s) ws")
    case None
    then have "strip ws s = s" by (subst strip.simps) simp
    with None show ?thesis by (auto simp: find_None_iff)
  next
    case (Some w)
    then have w: "w \<in> set ws" "w \<noteq> []" "prefix w s"
      by (auto simp: find_Some_iff)
    then have "length (drop (length w) s) < length s"
      by (cases s) (auto simp: prefix_def)
    then have "length (strip ws s) < length s"
      using Some len [of "drop (length w) s"] by (subst strip.simps) simp
    with w show ?thesis by auto
  qed
qed

lemma strip_no_prefix:
  "w \<in> set ws \<Longrightarrow> w \<noteq> [] \<Longrightarrow> \<not> prefix w (strip ws s)"
  by (induction ws s rule: strip.induct)
    (subst strip.simps, auto split: option.splits simp: find_None_iff)

lemma strip_idem [simp]: "strip ws (strip ws s) = strip ws s"
  using strip_no_prefix strip_fixed_iff by metis

lemma suffix_strip: "suffix (strip ws s) s"
proof (induction ws s rule: strip.induct)
  case (1 ws s)
  show ?case
  proof (cases "find (\<lambda>w. w \<noteq> [] \<and> prefix w s) ws")
    case None
    then show ?thesis by (subst strip.simps) simp
  next
    case (Some w)
    then have "suffix (strip ws (drop (length w) s)) (drop (length w) s)" by (rule "1")
    with Some show ?thesis
      by (subst strip.simps) (auto intro: suffix_order.trans [OF _ suffix_drop])
  qed
qed

lemma TrimSpace_Nil [simp]: "TrimSpace [] = []"
  by (simp add: TrimSpace_def trim_left_def trim_right_def strip.simps ws_runes_def)

lemma prefix_trim_right: "prefix (trim_right s) s"
  using suffix_strip [of "map rev ws_runes" "rev s"]
  by (simp add: trim_right_def suffix_to_prefix)

text \<open>Trimming twice is trimming once, and the result has no white space at either end.\<close>

lemma TrimSpace_left: "w \<in> set ws_runes \<Longrightarrow> \<not> prefix w (TrimSpace s)"
proof
  assume w: "w \<in> set ws_runes" and p: "prefix w (TrimSpace s)"
  from p have "prefix w (trim_left s)"
    unfolding TrimSpace_def by (rule prefix_order.trans) (rule prefix_trim_right)
  moreover from w have "w \<noteq> []" by (auto simp: ws_runes_def)
  ultimately show False using w strip_no_prefix [of w ws_runes s] by (simp add: trim_left_def)
qed

lemma TrimSpace_right: "w \<in> set ws_runes \<Longrightarrow> \<not> suffix w (TrimSpace s)"
proof
  assume w: "w \<in> set ws_runes" and p: "suffix w (TrimSpace s)"
  then have "prefix (rev w) (strip (map rev ws_runes) (rev (trim_left s)))"
    by (simp add: TrimSpace_def trim_right_def suffix_to_prefix)
  moreover from w have "rev w \<in> set (map rev ws_runes)" and "rev w \<noteq> []"
    by (auto simp: ws_runes_def)
  ultimately show False using strip_no_prefix by blast
qed

lemma TrimSpace_fixed:
  assumes "\<And>w. w \<in> set ws_runes \<Longrightarrow> \<not> prefix w s"
    and "\<And>w. w \<in> set ws_runes \<Longrightarrow> \<not> suffix w s"
  shows "TrimSpace s = s"
proof -
  have "strip ws_runes s = s" using assms(1) by (simp add: strip_fixed_iff)
  moreover have "strip (map rev ws_runes) (rev s) = rev s"
    using assms(2) by (auto simp: strip_fixed_iff suffix_to_prefix)
  ultimately show ?thesis by (simp add: TrimSpace_def trim_left_def trim_right_def)
qed

lemma TrimSpace_idem [simp]: "TrimSpace (TrimSpace s) = TrimSpace s"
  by (intro TrimSpace_fixed TrimSpace_left TrimSpace_right)

section \<open>Split, SplitN and Join\<close>

fun split_on :: "char \<Rightarrow> string \<Rightarrow> string list" where
  "split_on c [] = [[]]"
| "split_on c (x # xs) =
     (if x = c then [] # split_on c xs
      else (case split_on c xs of [] \<Rightarrow> [[x]] | y # ys \<Rightarrow> (x # y) # ys))"

fun join_with :: "char \<Rightarrow> string list \<Rightarrow> string" where
  "join_with c [] = []"
| "join_with c [x] = x"
| "join_with c (x # y # ys) = x @ c # join_with c (y # ys)"

text \<open>\<open>strings.SplitN(s, c, 2)\<close>.\<close>

definition split_n2 :: "char \<Rightarrow> string \<Rightarrow> string list" where
  "split_n2 c s =
     (if c \<in> set s then [takeWhile (\<lambda>x. x \<noteq> c) s, tl (dropWhile (\<lambda>x. x \<noteq> c) s)] else [s])"

lemma split_on_not_Nil [simp]: "split_on c s \<noteq> []"
  by (induction s) (auto split: list.splits)

lemma join_split_on [simp]: "join_with c (split_on c s) = s"
proof (induction s)
  case Nil
  then show ?case by simp
next
  case (Cons x xs)
  obtain y ys where s: "split_on c xs = y # ys" by (cases "split_on c xs") auto
  with Cons show ?case by (cases ys) auto
qed

lemma split_on_no_sep: "c \<notin> set s \<Longrightarrow> split_on c s = [s]"
  by (induction s) auto

lemma split_on_parts: "p \<in> set (split_on c s) \<Longrightarrow> c \<notin> set p"
  by (induction s arbitrary: p) (auto split: if_splits list.splits)

lemma split_on_append_sep: "c \<notin> set x \<Longrightarrow> split_on c (x @ c # s) = x # split_on c s"
  by (induction x) auto

lemma split_on_snoc_sep: "split_on c (s @ [c]) = split_on c s @ [[]]"
  by (induction s) (auto split: list.splits)

lemma split_join [simp]:
  "xs \<noteq> [] \<Longrightarrow> \<forall>x \<in> set xs. c \<notin> set x \<Longrightarrow> split_on c (join_with c xs) = xs"
  by (induction c xs rule: join_with.induct) (auto simp: split_on_no_sep split_on_append_sep)

lemma split_n2_sep [simp]: "c \<notin> set x \<Longrightarrow> split_n2 c (x @ c # s) = [x, s]"
proof -
  assume c: "c \<notin> set x"
  then have "takeWhile (\<lambda>z. z \<noteq> c) (x @ c # s) = x"
    by (subst takeWhile_append2) auto
  moreover from c have "dropWhile (\<lambda>z. z \<noteq> c) (x @ c # s) = c # s"
    by (subst dropWhile_append2) auto
  ultimately show ?thesis by (simp add: split_n2_def)
qed

lemma split_n2_two:
  assumes "split_n2 c s = [x, y]"
  shows "s = x @ c # y" and "c \<notin> set x"
proof -
  have c: "c \<in> set s" and x: "x = takeWhile (\<lambda>z. z \<noteq> c) s"
    and y: "y = tl (dropWhile (\<lambda>z. z \<noteq> c) s)"
    using assms by (auto simp: split_n2_def split: if_splits)
  from c obtain z where "dropWhile (\<lambda>z. z \<noteq> c) s = c # z"
    by (cases "dropWhile (\<lambda>z. z \<noteq> c) s") (auto simp: dropWhile_eq_Nil_conv dropWhile_eq_Cons_conv)
  with y have "dropWhile (\<lambda>z. z \<noteq> c) s = c # y" by simp
  with x show "s = x @ c # y" by (metis takeWhile_dropWhile_id)
  from x show "c \<notin> set x" by (auto dest: set_takeWhileD)
qed

lemma length_split_n2: "length (split_n2 c s) = (if c \<in> set s then 2 else 1)"
  by (simp add: split_n2_def)

section \<open>Letter case and Contains\<close>

text \<open>
  ASCII letters are mapped as Go maps them.  On a string with a byte outside ASCII the result
  follows Unicode's case tables, which are a parameter \<open>uni\<close> here.
\<close>

definition ascii :: "string \<Rightarrow> bool" where
  "ascii s = list_all (\<lambda>c. of_char c < (128::nat)) s"

definition lower_char :: "char \<Rightarrow> char" where
  "lower_char c = (let n = of_char c :: nat in
     if 65 \<le> n \<and> n \<le> 90 then char_of (n + 32) else c)"

definition upper_char :: "char \<Rightarrow> char" where
  "upper_char c = (let n = of_char c :: nat in
     if 97 \<le> n \<and> n \<le> 122 then char_of (n - 32) else c)"

definition ToLower :: "(string \<Rightarrow> string) \<Rightarrow> string \<Rightarrow> string" where
  "ToLower uni s = (if ascii s then map lower_char s else uni s)"

definition ToUpper :: "(string \<Rightarrow> string) \<Rightarrow> string \<Rightarrow> string" where
  "ToUpper uni s = (if ascii s then map upper_char s else uni s)"

fun Contains :: "string \<Rightarrow> string \<Rightarrow> bool" where
  "Contains [] t = (t = [])"
| "Contains (x # xs) t = (prefix t (x # xs) \<or> Contains xs t)"

lemma Contains_iff_sublist: "Contains s t \<longleftrightarrow> sublist t s"
  by (induction s) (auto simp: sublist_Cons_right)

lemma upper_char_idem [simp]: "upper_char (upper_char c) = upper_char c"
proof -
  have "(of_char c :: nat) < 256" by simp
  then show ?thesis
    by (auto simp: upper_char_def Let_def take_bit_nat_def)
qed

end
