(* ===== verification/Go_Json.thy ===== *)
theory Go_Json
  imports Go_Strings
begin

text \<open>
  Go's package \<open>encoding/json\<close> on documents: the scanner and decoder that turn bytes into a
  \<open>json\<close> document, the encoder, \<open>Indent\<close> and \<open>compact\<close>.  Numbers are kept as their literal
  text.  The parser takes fuel; \<open>parse_json\<close> gives it twice the length of the input and two, and
  \<open>Json_Facts\<close> shows that this is enough for every document the program writes.
\<close>

abbreviation (input) DQ :: char where "DQ \<equiv> CHR 0x22"
abbreviation (input) BS :: char where "BS \<equiv> CHR 0x5C"

definition byte :: "char \<Rightarrow> nat" where
  "byte c = of_char c"

lemma byte_less: "byte c < 256"
  by (simp add: byte_def)

lemma char_of_byte [simp]: "char_of (byte c) = c"
  by (simp add: byte_def)

lemma byte_char_of [simp]: "n < 256 \<Longrightarrow> byte (char_of n) = n"
  by (simp add: byte_def take_bit_nat_def)

section \<open>UTF-8\<close>

definition cont :: "char \<Rightarrow> bool" where
  "cont c \<longleftrightarrow> 128 \<le> byte c \<and> byte c < 192"

text \<open>The width of the valid UTF-8 sequence at the front; 0 when there is none.\<close>

definition utf8_width :: "string \<Rightarrow> nat" where
  "utf8_width s = (case s of [] \<Rightarrow> 0 | a # r \<Rightarrow>
     (let n = byte a in
      if n < 128 then 1
      else if n < 194 then 0
      else if n < 224 then (case r of b # _ \<Rightarrow> if cont b then 2 else 0 | [] \<Rightarrow> 0)
      else if n < 240 then
        (case r of b # c # _ \<Rightarrow>
           (if cont b \<and> cont c \<and> (n = 224 \<longrightarrow> 160 \<le> byte b) \<and> (n = 237 \<longrightarrow> byte b < 160)
            then 3 else 0)
         | _ \<Rightarrow> 0)
      else if n < 245 then
        (case r of b # c # d # _ \<Rightarrow>
           (if cont b \<and> cont c \<and> cont d \<and> (n = 240 \<longrightarrow> 144 \<le> byte b)
               \<and> (n = 244 \<longrightarrow> byte b < 144)
            then 4 else 0)
         | _ \<Rightarrow> 0)
      else 0))"

text \<open>The UTF-8 encoding of a code point, and of the replacement character.\<close>

definition utf8_encode :: "nat \<Rightarrow> string" where
  "utf8_encode r =
     (if r < 128 then [char_of r]
      else if r < 2048 then [char_of (192 + r div 64), char_of (128 + r mod 64)]
      else if r < 65536 then
        [char_of (224 + r div 4096), char_of (128 + r div 64 mod 64), char_of (128 + r mod 64)]
      else
        [char_of (240 + r div 262144), char_of (128 + r div 4096 mod 64),
         char_of (128 + r div 64 mod 64), char_of (128 + r mod 64)])"

abbreviation replacement :: string where
  "replacement \<equiv> [CHR 0xEF, CHR 0xBF, CHR 0xBD]"

section \<open>Encoding\<close>

definition is_ws :: "char \<Rightarrow> bool" where
  "is_ws c \<longleftrightarrow> c = CHR 0x20 \<or> c = CHR 0x09 \<or> c = CHR 0x0D \<or> c = CHR 0x0A"

definition hexd :: "nat \<Rightarrow> char" where
  "hexd n = (if n < 10 then char_of (48 + n) else char_of (87 + n))"

definition html_char :: "char \<Rightarrow> bool" where
  "html_char c \<longleftrightarrow> c = CHR ''<'' \<or> c = CHR ''>'' \<or> c = CHR ''&''"

definition u00 :: "char \<Rightarrow> string" where
  "u00 c = [BS, CHR ''u'', CHR ''0'', CHR ''0'', hexd (byte c div 16), hexd (byte c mod 16)]"

text \<open>How the encoder writes one ASCII byte of a string.\<close>

definition esc_ascii :: "char \<Rightarrow> string" where
  "esc_ascii c =
     (if c = BS \<or> c = DQ then [BS, c]
      else if c = CHR 0x0A then [BS, CHR ''n'']
      else if c = CHR 0x0D then [BS, CHR ''r'']
      else if c = CHR 0x09 then [BS, CHR ''t'']
      else if byte c < 32 \<or> html_char c then u00 c
      else [c])"

definition line_sep :: "string \<Rightarrow> bool" where
  "line_sep w \<longleftrightarrow> w = [CHR 0xE2, CHR 0x80, CHR 0xA8] \<or> w = [CHR 0xE2, CHR 0x80, CHR 0xA9]"

definition esc_wide :: "string \<Rightarrow> string" where
  "esc_wide w =
     (if line_sep w then [BS, CHR ''u'', CHR ''2'', CHR ''0'', CHR ''2'', hexd (byte (last w) mod 16)]
      else w)"

function enc_chars :: "string \<Rightarrow> string" where
  "enc_chars [] = []"
| "enc_chars (c # r) =
     (if byte c < 128 then esc_ascii c @ enc_chars r
      else (let w = utf8_width (c # r) in
        if w = 0 then [BS, CHR ''u'', CHR ''f'', CHR ''f'', CHR ''f'', CHR ''d''] @ enc_chars r
        else esc_wide (take w (c # r)) @ enc_chars (drop w (c # r))))"
  by pat_completeness auto
termination
  by (relation "measure length") auto

definition enc_string :: "string \<Rightarrow> string" where
  "enc_string s = DQ # enc_chars s @ [DQ]"

text \<open>
  The text of a document with white space \<open>nl d\<close> at depth \<open>d\<close> before elements, members and
  closing brackets, and \<open>sp\<close> after colons.  Without white space it is what \<open>json.Marshal\<close>
  prints.
\<close>

fun render :: "(nat \<Rightarrow> string) \<Rightarrow> string \<Rightarrow> nat \<Rightarrow> json \<Rightarrow> string"
  and render_elems :: "(nat \<Rightarrow> string) \<Rightarrow> string \<Rightarrow> nat \<Rightarrow> json list \<Rightarrow> string"
  and render_members :: "(nat \<Rightarrow> string) \<Rightarrow> string \<Rightarrow> nat \<Rightarrow> (string \<times> json) list \<Rightarrow> string" where
  "render nl sp d JNull = ''null''"
| "render nl sp d (JBool b) = (if b then ''true'' else ''false'')"
| "render nl sp d (JNum n) = n"
| "render nl sp d (JStr s) = enc_string s"
| "render nl sp d (JArr []) = ''[]''"
| "render nl sp d (JArr (x # xs)) =
     CHR ''['' # nl (Suc d) @ render nl sp (Suc d) x @ render_elems nl sp d xs"
| "render nl sp d (JObj []) = ''{}''"
| "render nl sp d (JObj ((k, v) # ms)) =
     CHR ''{'' # nl (Suc d) @ enc_string k @ CHR '':'' # sp @ render nl sp (Suc d) v
       @ render_members nl sp d ms"
| "render_elems nl sp d [] = nl d @ '']''"
| "render_elems nl sp d (x # xs) =
     CHR '','' # nl (Suc d) @ render nl sp (Suc d) x @ render_elems nl sp d xs"
| "render_members nl sp d [] = nl d @ ''}''"
| "render_members nl sp d ((k, v) # ms) =
     CHR '','' # nl (Suc d) @ enc_string k @ CHR '':'' # sp @ render nl sp (Suc d) v
       @ render_members nl sp d ms"

abbreviation print_json :: "json \<Rightarrow> string" where
  "print_json \<equiv> render (\<lambda>_. []) [] 0"

text \<open>A newline and \<open>d\<close> indents.\<close>

definition newline :: "string \<Rightarrow> nat \<Rightarrow> string" where
  "newline ind d = CHR 0x0A # concat (replicate d ind)"

text \<open>
  \<open>Indent\<close> with an empty prefix, on the text of a valid document without white space outside
  strings: the flags say whether the byte is inside a string and whether a bracket was just
  opened.
\<close>

fun Indent :: "string \<Rightarrow> bool \<Rightarrow> bool \<Rightarrow> nat \<Rightarrow> string \<Rightarrow> string" where
  "Indent ind inside need d [] = []"
| "Indent ind True need d (c # r) =
     (if c = BS then
        (case r of [] \<Rightarrow> [c] | e # r1 \<Rightarrow> c # e # Indent ind True need d r1)
      else c # Indent ind (c \<noteq> DQ) need d r)"
| "Indent ind False need d (c # r) =
     (if is_ws c then Indent ind False need d r
      else if c = CHR ''}'' \<or> c = CHR '']'' then
        (if need then c # Indent ind False False d r
         else newline ind (d - 1) @ c # Indent ind False False (d - 1) r)
      else
        (let d' = (if need then Suc d else d); pre = (if need then newline ind d' else []) in
         if c = CHR ''{'' \<or> c = CHR ''['' then pre @ c # Indent ind False True d' r
         else if c = CHR '','' then pre @ c # newline ind d' @ Indent ind False False d' r
         else if c = CHR '':'' then pre @ c # CHR '' '' # Indent ind False False d' r
         else pre @ c # Indent ind (c = DQ) False d' r))"

section \<open>Scanning and decoding\<close>

definition skip_ws :: "string \<Rightarrow> string" where
  "skip_ws s = dropWhile is_ws s"

definition is_digit :: "char \<Rightarrow> bool" where
  "is_digit c \<longleftrightarrow> 48 \<le> byte c \<and> byte c \<le> 57"

definition hex_val :: "char \<Rightarrow> nat option" where
  "hex_val c = (let n = byte c in
     if 48 \<le> n \<and> n \<le> 57 then Some (n - 48)
     else if 97 \<le> n \<and> n \<le> 102 then Some (n - 87)
     else if 65 \<le> n \<and> n \<le> 70 then Some (n - 55)
     else None)"

definition is_hex :: "char \<Rightarrow> bool" where
  "is_hex c \<longleftrightarrow> hex_val c \<noteq> None"

text \<open>The four hex digits at the front as a number.\<close>

fun getu4 :: "string \<Rightarrow> nat" where
  "getu4 (a # b # c # d # r) =
     4096 * the (hex_val a) + 256 * the (hex_val b) + 16 * the (hex_val c) + the (hex_val d)"
| "getu4 _ = 65533"

definition simple_escape :: "char \<Rightarrow> bool" where
  "simple_escape e \<longleftrightarrow> e \<in> {DQ, BS, CHR ''/'', CHR ''b'', CHR ''f'', CHR ''n'', CHR ''r'', CHR ''t''}"

definition unesc :: "char \<Rightarrow> char" where
  "unesc e = (if e = CHR ''b'' then CHR 0x08 else if e = CHR ''f'' then CHR 0x0C
     else if e = CHR ''n'' then CHR 0x0A else if e = CHR ''r'' then CHR 0x0D
     else if e = CHR ''t'' then CHR 0x09 else e)"

text \<open>
  The text of a string literal up to its closing quote (escapes checked, not decoded), and
  the input after the quote.
\<close>

fun scan_string :: "string \<Rightarrow> (string \<times> string) option" where
  "scan_string [] = None"
| "scan_string (c # r) =
     (if c = DQ then Some ([], r)
      else if c = BS then
        (case r of
           [] \<Rightarrow> None
         | e # r1 \<Rightarrow>
             (if simple_escape e then
                map_option (apfst (\<lambda>t. c # e # t)) (scan_string r1)
              else if e = CHR ''u'' then
                (case r1 of
                   h1 # h2 # h3 # h4 # r2 \<Rightarrow>
                     (if is_hex h1 \<and> is_hex h2 \<and> is_hex h3 \<and> is_hex h4
                      then map_option (apfst (\<lambda>t. c # e # h1 # h2 # h3 # h4 # t)) (scan_string r2)
                      else None)
                 | _ \<Rightarrow> None)
              else None))
      else if byte c < 32 then None
      else map_option (apfst ((#) c)) (scan_string r))"

definition high_surrogate :: "nat \<Rightarrow> bool" where
  "high_surrogate n \<longleftrightarrow> 55296 \<le> n \<and> n < 56320"

definition low_surrogate :: "nat \<Rightarrow> bool" where
  "low_surrogate n \<longleftrightarrow> 56320 \<le> n \<and> n < 57344"

text \<open>Decode the escapes of a scanned literal; invalid UTF-8 and lone surrogates become U+FFFD.\<close>

function unquote :: "string \<Rightarrow> string" where
  "unquote [] = []"
| "unquote (c # r) =
     (if c = BS then
        (case r of
           [] \<Rightarrow> []
         | e # r1 \<Rightarrow>
             (if e = CHR ''u'' then
                (let rr = getu4 r1; r2 = drop 4 r1 in
                 if high_surrogate rr \<and> take 2 r2 = [BS, CHR ''u'']
                    \<and> low_surrogate (getu4 (drop 2 r2))
                 then utf8_encode (65536 + (rr - 55296) * 1024 + (getu4 (drop 2 r2) - 56320))
                        @ unquote (drop 6 r2)
                 else if high_surrogate rr \<or> low_surrogate rr
                 then replacement @ unquote r2
                 else utf8_encode rr @ unquote r2)
              else unesc e # unquote r1))
      else if byte c < 128 then c # unquote r
      else (let w = utf8_width (c # r) in
        if w = 0 then replacement @ unquote r
        else take w (c # r) @ unquote (drop w (c # r))))"
  by pat_completeness auto
termination
  by (relation "measure length") auto

text \<open>Numbers: an integer part, a fraction and an exponent.\<close>

definition lex_int :: "string \<Rightarrow> (string \<times> string) option" where
  "lex_int s = (case s of
       [] \<Rightarrow> None
     | c # r \<Rightarrow>
         (if c = CHR ''0'' then Some ([c], r)
          else if is_digit c then Some (takeWhile is_digit s, dropWhile is_digit s)
          else None))"

definition lex_frac :: "string \<Rightarrow> (string \<times> string) option" where
  "lex_frac s = (case s of
       [] \<Rightarrow> Some ([], [])
     | c # r \<Rightarrow>
         (if c = CHR ''.'' then
            (if takeWhile is_digit r = [] then None
             else Some (c # takeWhile is_digit r, dropWhile is_digit r))
          else Some ([], s)))"

definition lex_sign :: "string \<Rightarrow> string \<times> string" where
  "lex_sign s = (case s of
       [] \<Rightarrow> ([], [])
     | c # r \<Rightarrow> (if c = CHR ''+'' \<or> c = CHR ''-'' then ([c], r) else ([], s)))"

definition lex_exp :: "string \<Rightarrow> (string \<times> string) option" where
  "lex_exp s = (case s of
       [] \<Rightarrow> Some ([], [])
     | c # r \<Rightarrow>
         (if c = CHR ''e'' \<or> c = CHR ''E'' then
            (let (g, r1) = lex_sign r in
             if takeWhile is_digit r1 = [] then None
             else Some (c # g @ takeWhile is_digit r1, dropWhile is_digit r1))
          else Some ([], s)))"

definition lex_minus :: "string \<Rightarrow> string \<times> string" where
  "lex_minus s = (case s of
       [] \<Rightarrow> ([], [])
     | c # r \<Rightarrow> (if c = CHR ''-'' then ([c], r) else ([], s)))"

definition lex_number :: "string \<Rightarrow> (string \<times> string) option" where
  "lex_number s =
     (let (m, s1) = lex_minus s in
      case lex_int s1 of None \<Rightarrow> None | Some (i, s2) \<Rightarrow>
      (case lex_frac s2 of None \<Rightarrow> None | Some (f, s3) \<Rightarrow>
      (case lex_exp s3 of None \<Rightarrow> None | Some (e, s4) \<Rightarrow> Some (m @ i @ f @ e, s4))))"

definition lex_word :: "string \<Rightarrow> json \<Rightarrow> string \<Rightarrow> (json \<times> string) option" where
  "lex_word w j s = (if prefix w s then Some (j, drop (length w) s) else None)"

text \<open>Values, the elements after a \<open>[\<close> or comma, the members after a \<open>{\<close> or comma.\<close>

fun parse_value :: "nat \<Rightarrow> string \<Rightarrow> (json \<times> string) option"
  and parse_elems :: "nat \<Rightarrow> string \<Rightarrow> (json list \<times> string) option"
  and parse_members :: "nat \<Rightarrow> string \<Rightarrow> ((string \<times> json) list \<times> string) option" where
  "parse_value 0 s = None"
| "parse_value (Suc n) s =
     (case skip_ws s of
        [] \<Rightarrow> None
      | c # r \<Rightarrow>
          (if c = CHR ''{'' then
             (case skip_ws r of
                [] \<Rightarrow> None
              | d # r' \<Rightarrow> (if d = CHR ''}'' then Some (JObj [], r')
                          else map_option (apfst JObj) (parse_members n r)))
           else if c = CHR ''['' then
             (case skip_ws r of
                [] \<Rightarrow> None
              | d # r' \<Rightarrow> (if d = CHR '']'' then Some (JArr [], r')
                          else map_option (apfst JArr) (parse_elems n r)))
           else if c = DQ then map_option (apfst (\<lambda>t. JStr (unquote t))) (scan_string r)
           else if c = CHR ''t'' then lex_word ''true'' (JBool True) (c # r)
           else if c = CHR ''f'' then lex_word ''false'' (JBool False) (c # r)
           else if c = CHR ''n'' then lex_word ''null'' JNull (c # r)
           else map_option (apfst JNum) (lex_number (c # r))))"
| "parse_elems 0 s = None"
| "parse_elems (Suc n) s =
     (case parse_value n s of
        None \<Rightarrow> None
      | Some (v, r) \<Rightarrow>
          (case skip_ws r of
             [] \<Rightarrow> None
           | d # r' \<Rightarrow>
               (if d = CHR '','' then map_option (apfst ((#) v)) (parse_elems n r')
                else if d = CHR '']'' then Some ([v], r')
                else None)))"
| "parse_members 0 s = None"
| "parse_members (Suc n) s =
     (case skip_ws s of
        [] \<Rightarrow> None
      | q # r \<Rightarrow>
          (if q \<noteq> DQ then None else
           (case scan_string r of
              None \<Rightarrow> None
            | Some (k, r1) \<Rightarrow>
                (case skip_ws r1 of
                   [] \<Rightarrow> None
                 | d # r2 \<Rightarrow>
                     (if d \<noteq> CHR '':'' then None else
                      (case parse_value n r2 of
                         None \<Rightarrow> None
                       | Some (v, r3) \<Rightarrow>
                           (case skip_ws r3 of
                              [] \<Rightarrow> None
                            | e # r4 \<Rightarrow>
                                (if e = CHR '','' then
                                   map_option (apfst ((#) (unquote k, v))) (parse_members n r4)
                                 else if e = CHR ''}'' then Some ([(unquote k, v)], r4)
                                 else None))))))))"

definition parse_json :: "string \<Rightarrow> json option" where
  "parse_json s =
     (case parse_value (2 * length s + 2) s of
        None \<Rightarrow> None
      | Some (v, r) \<Rightarrow> (if skip_ws r = [] then Some v else None))"

text \<open>
  \<open>compact\<close> with HTML escaping, run on a document that has been checked: white space outside
  string literals goes, and the bytes the encoder would escape inside them are escaped.
\<close>

fun compact :: "bool \<Rightarrow> string \<Rightarrow> string" where
  "compact inside [] = []"
| "compact False (c # r) =
     (if is_ws c then compact False r else c # compact (c = DQ) r)"
| "compact True (c # r) =
     (if c = DQ then c # compact False r
      else if c = BS then
        (case r of [] \<Rightarrow> [c] | e # r1 \<Rightarrow> c # e # compact True r1)
      else if html_char c then u00 c @ compact True r
      else (case r of
          d # e # r1 \<Rightarrow>
            (if line_sep [c, d, e] then esc_wide [c, d, e] @ compact True r1
             else c # compact True r)
        | _ \<Rightarrow> c # compact True r))"

text \<open>The bytes a \<open>MarshalJSON\<close> method returns, checked and compacted by \<open>json.Marshal\<close>.\<close>

definition marshaler_bytes :: "string \<Rightarrow> string option" where
  "marshaler_bytes b = (if parse_json b = None then None else Some (compact False b))"

section \<open>Decimal integers\<close>

fun nat_dec :: "nat \<Rightarrow> string" where
  "nat_dec n = (if n < 10 then [char_of (48 + n)] else nat_dec (n div 10) @ [char_of (48 + n mod 10)])"

declare nat_dec.simps [simp del]

definition int_dec :: "int \<Rightarrow> string" where
  "int_dec i = (if i < 0 then CHR ''-'' # nat_dec (nat (- i)) else nat_dec (nat i))"

end
