(* ===== verification/Go_Base64.thy ===== *)
theory Go_Base64
  imports Go_Json
begin

text \<open>
  \<open>base64.StdEncoding\<close>: padded encoding, and decoding that skips line breaks and refuses
  missing padding, foreign bytes and anything after the padding.  Base64 text is the program's
  carrier for credentials and for raw file contents, so the encoder and decoder are presented
  through the interface \<open>codec\<close> that the clients use.
\<close>

section \<open>The interface of an encoder and its decoder\<close>

locale codec =
  fixes encode :: "'a \<Rightarrow> string" and decode :: "string \<Rightarrow> 'a option"
  assumes decode_encode: "decode (encode x) = Some x"
begin

lemma encode_inj: "encode x = encode y \<longleftrightarrow> x = y"
  by (metis decode_encode option.inject)

lemma decode_complete: "\<exists>s. decode s = Some x"
  using decode_encode by blast

end

section \<open>The alphabet\<close>

definition b64_char :: "nat \<Rightarrow> char" where
  "b64_char n =
     (if n < 26 then char_of (65 + n)
      else if n < 52 then char_of (71 + n)
      else if n < 62 then char_of (n - 4)
      else if n = 62 then CHR ''+'' else CHR ''/'')"

definition b64_val :: "char \<Rightarrow> nat option" where
  "b64_val c = (let n = byte c in
     if 65 \<le> n \<and> n \<le> 90 then Some (n - 65)
     else if 97 \<le> n \<and> n \<le> 122 then Some (n - 71)
     else if 48 \<le> n \<and> n \<le> 57 then Some (n + 4)
     else if n = 43 then Some 62
     else if n = 47 then Some 63
     else None)"

abbreviation pad :: char where "pad \<equiv> CHR ''=''"

section \<open>Encoding and decoding\<close>

fun b64_encode :: "string \<Rightarrow> string" where
  "b64_encode [] = []"
| "b64_encode [a] = [b64_char (byte a div 4), b64_char (byte a mod 4 * 16), pad, pad]"
| "b64_encode [a, b] =
     [b64_char (byte a div 4), b64_char (byte a mod 4 * 16 + byte b div 16),
      b64_char (byte b mod 16 * 4), pad]"
| "b64_encode (a # b # c # r) =
     b64_char (byte a div 4) # b64_char (byte a mod 4 * 16 + byte b div 16)
     # b64_char (byte b mod 16 * 4 + byte c div 64) # b64_char (byte c mod 64)
     # b64_encode r"

text \<open>The bytes of a quantum of two, three or four digits (spare low bits are dropped).\<close>

definition quantum1 :: "nat \<Rightarrow> nat \<Rightarrow> char" where
  "quantum1 a b = char_of (a * 4 + b div 16)"

definition quantum2 :: "nat \<Rightarrow> nat \<Rightarrow> char" where
  "quantum2 b c = char_of (b mod 16 * 16 + c div 4)"

definition quantum3 :: "nat \<Rightarrow> nat \<Rightarrow> char" where
  "quantum3 c d = char_of (c mod 4 * 64 + d)"

fun b64_quanta :: "string \<Rightarrow> string option" where
  "b64_quanta [] = Some []"
| "b64_quanta (a # b # c # d # r) =
     (case (b64_val a, b64_val b) of
        (Some x, Some y) \<Rightarrow>
          (if c = pad then (if d = pad \<and> r = [] then Some [quantum1 x y] else None)
           else
             (case b64_val c of
                None \<Rightarrow> None
              | Some z \<Rightarrow>
                  (if d = pad then (if r = [] then Some [quantum1 x y, quantum2 y z] else None)
                   else
                     (case b64_val d of
                        None \<Rightarrow> None
                      | Some u \<Rightarrow>
                          map_option (\<lambda>t. quantum1 x y # quantum2 y z # quantum3 z u # t)
                            (b64_quanta r)))))
      | _ \<Rightarrow> None)"
| "b64_quanta _ = None"

definition b64_decode :: "string \<Rightarrow> string option" where
  "b64_decode s = b64_quanta (filter (\<lambda>c. c \<noteq> CHR 0x0A \<and> c \<noteq> CHR 0x0D) s)"

section \<open>Round trip\<close>

lemma byte_b64_char:
  "n < 64 \<Longrightarrow> byte (b64_char n) =
     (if n < 26 then 65 + n else if n < 52 then 71 + n else if n < 62 then n - 4
      else if n = 62 then 43 else 47)"
  by (simp add: b64_char_def) (simp add: byte_def)

lemma b64_val_char [simp]: "n < 64 \<Longrightarrow> b64_val (b64_char n) = Some n"
  by (auto simp: b64_val_def byte_b64_char Let_def)

lemma b64_char_plain:
  assumes "n < 64"
  shows "b64_char n \<noteq> pad" and "b64_char n \<noteq> CHR 0x0A" and "b64_char n \<noteq> CHR 0x0D"
proof -
  have "byte pad = 61" and "byte (CHR 0x0A) = 10" and "byte (CHR 0x0D) = 13"
    by (simp_all add: byte_def)
  with byte_b64_char [OF assms] assms
  show "b64_char n \<noteq> pad" and "b64_char n \<noteq> CHR 0x0A" and "b64_char n \<noteq> CHR 0x0D"
    by (auto split: if_splits)
qed

lemma digit_bounds:
  "byte a div 4 < 64" "byte a mod 4 * 16 < 64" "byte a mod 4 * 16 + byte b div 16 < 64"
  "byte b mod 16 * 4 < 64" "byte b mod 16 * 4 + byte c div 64 < 64" "byte c mod 64 < 64"
  using byte_less [of a] byte_less [of b] byte_less [of c] by (auto simp: less_mult_imp_div_less)

lemmas digit_simps =
  digit_bounds b64_val_char b64_char_plain

lemma quantum1_byte [simp]:
  "quantum1 (byte a div 4) (byte a mod 4 * 16) = a"
  "quantum1 (byte a div 4) (byte a mod 4 * 16 + byte b div 16) = a"
proof -
  have "byte b div 16 < 16" using byte_less [of b] by simp
  then have "(byte a mod 4 * 16 + byte b div 16) div 16 = byte a mod 4" by simp
  then show "quantum1 (byte a div 4) (byte a mod 4 * 16 + byte b div 16) = a"
    by (simp add: quantum1_def)
  show "quantum1 (byte a div 4) (byte a mod 4 * 16) = a" by (simp add: quantum1_def)
qed

lemma quantum2_byte [simp]:
  "quantum2 (byte a mod 4 * 16 + byte b div 16) (byte b mod 16 * 4) = b"
  "quantum2 (byte a mod 4 * 16 + byte b div 16) (byte b mod 16 * 4 + byte c div 64) = b"
proof -
  have b: "byte b div 16 < 16" using byte_less [of b] by simp
  have c: "byte c div 64 < 4" using byte_less [of c] by simp
  have 1: "(byte a mod 4 * 16 + byte b div 16) mod 16 = byte b div 16" using b by simp
  have 2: "(byte b mod 16 * 4 + byte c div 64) div 4 = byte b mod 16" using c by simp
  show "quantum2 (byte a mod 4 * 16 + byte b div 16) (byte b mod 16 * 4) = b"
    using 1 by (simp add: quantum2_def)
  show "quantum2 (byte a mod 4 * 16 + byte b div 16) (byte b mod 16 * 4 + byte c div 64) = b"
    using 1 2 by (simp add: quantum2_def)
qed

lemma quantum3_byte [simp]:
  "quantum3 (byte b mod 16 * 4 + byte c div 64) (byte c mod 64) = c"
proof -
  have c: "byte c div 64 < 4" using byte_less [of c] by simp
  then have "(byte b mod 16 * 4 + byte c div 64) mod 4 = byte c div 64" by simp
  then show ?thesis by (simp add: quantum3_def)
qed

lemma b64_quanta_encode: "b64_quanta (b64_encode s) = Some s"
  by (induction s rule: b64_encode.induct) (simp_all add: digit_simps)

lemma b64_encode_plain: "filter (\<lambda>c. c \<noteq> CHR 0x0A \<and> c \<noteq> CHR 0x0D) (b64_encode s) = b64_encode s"
  by (induction s rule: b64_encode.induct) (simp_all add: digit_simps)

lemma b64_decode_encode: "b64_decode (b64_encode s) = Some s"
  by (simp add: b64_decode_def b64_encode_plain b64_quanta_encode)

interpretation b64: codec b64_encode b64_decode
  by unfold_locales (rule b64_decode_encode)

lemma b64_encode_length: "length (b64_encode s) = 4 * ((length s + 2) div 3)"
  by (induction s rule: b64_encode.induct) (simp_all, presburger)

text \<open>The text stays in the alphabet, so it has no quotes, escapes or separators.\<close>

definition b64_alphabet :: "char \<Rightarrow> bool" where
  "b64_alphabet c \<longleftrightarrow> c = pad \<or> b64_val c \<noteq> None"

lemma b64_encode_alphabet: "c \<in> set (b64_encode s) \<Longrightarrow> b64_alphabet c"
  by (induction s rule: b64_encode.induct)
    (auto simp: b64_alphabet_def digit_bounds)

end
