(* ===== verification/Response.thy ===== *)
theory Response
  imports Go_Base64
begin

text \<open>
  \<open>response.go\<close>: the response builder, its JSON encoding and the handler's write to the
  client, over the dynamic values (\<open>interface{}\<close>) the builder collects.
\<close>

section \<open>Dynamic values\<close>

text \<open>
  The values stored under \<open>interface{}\<close>.  \<open>VResp\<close> is a \<open>*Response\<close>: status, pretty flag,
  data and raw bytes (the record \<open>response\<close> below, spelled out because the two types
  contain each other).  \<open>VBytes\<close> is a \<open>[]byte\<close>.  \<open>VExt\<close> is a value made outside the program
  (a database driver's row, an upstream header): what \<open>encoding/json\<close> makes of it, \<open>None\<close>
  when it refuses it.
\<close>

datatype gval =
    VNil
  | VBool bool
  | VInt int
  | VStr string
  | VBytes string
  | VErr go_error
  | VList "gval list"
  | VMap "(string \<times> gval) list"
  | VResp int bool "(string \<times> gval) list" "string option"
  | VExt "json option"

section \<open>Status texts\<close>

definition status_texts :: "(int \<times> string) list" where
  "status_texts =
    [(100, ''Continue''), (101, ''Switching Protocols''), (102, ''Processing''),
     (200, ''OK''), (201, ''Created''), (202, ''Accepted''),
     (203, ''Non-Authoritative Information''), (204, ''No Content''),
     (205, ''Reset Content''), (206, ''Partial Content''), (207, ''Multi-Status''),
     (208, ''Already Reported''), (226, ''IM Used''), (300, ''Multiple Choices''),
     (301, ''Moved Permanently''), (302, ''Found''), (303, ''See Other''),
     (304, ''Not Modified''), (305, ''Use Proxy''), (307, ''Temporary Redirect''),
     (308, ''Permanent Redirect''), (400, ''Bad Request''), (401, ''Unauthorized''),
     (402, ''Payment Required''), (403, ''Forbidden''), (404, ''Not Found''),
     (405, ''Method Not Allowed''), (406, ''Not Acceptable''),
     (407, ''Proxy Authentication Required''), (408, ''Request Timeout''),
     (409, ''Conflict''), (410, ''Gone''), (411, ''Length Required''),
     (412, ''Precondition Failed''), (413, ''Request Entity Too Large''),
     (414, ''Request URI Too Long''), (415, ''Unsupported Media Type''),
     (416, ''Requested Range Not Satisfiable''), (417, ''Expectation Failed''),
     (418, ''I'' @ [CHR 0x27] @ ''m a teapot''), (422, ''Unprocessable Entity''), (423, ''Locked''),
     (424, ''Failed Dependency''), (426, ''Upgrade Required''),
     (428, ''Precondition Required''), (429, ''Too Many Requests''),
     (431, ''Request Header Fields Too Large''), (451, ''Unavailable For Legal Reasons''),
     (500, ''Internal Server Error''), (501, ''Not Implemented''), (502, ''Bad Gateway''),
     (503, ''Service Unavailable''), (504, ''Gateway Timeout''),
     (505, ''HTTP Version Not Supported''), (506, ''Variant Also Negotiates''),
     (507, ''Insufficient Storage''), (508, ''Loop Detected''), (510, ''Not Extended''),
     (511, ''Network Authentication Required'')]"

definition StatusText :: "int \<Rightarrow> string" where
  "StatusText n = (case map_of status_texts n of Some t \<Rightarrow> t | None \<Rightarrow> [])"

abbreviation (input) StatusOK :: int where "StatusOK \<equiv> 200"
abbreviation (input) StatusUnauthorized :: int where "StatusUnauthorized \<equiv> 401"
abbreviation (input) StatusMovedPermanently :: int where "StatusMovedPermanently \<equiv> 301"
abbreviation (input) StatusNotFound :: int where "StatusNotFound \<equiv> 404"
abbreviation (input) StatusInternalServerError :: int where "StatusInternalServerError \<equiv> 500"

lemma StatusText_known [simp]:
  "StatusText 200 = ''OK''" "StatusText 401 = ''Unauthorized''"
  "StatusText 404 = ''Not Found''" "StatusText 500 = ''Internal Server Error''"
  by (simp_all add: StatusText_def status_texts_def)

section \<open>The builder\<close>

record response =
  rs_status :: int
  rs_pretty :: bool
  rs_data :: "(string \<times> gval) list"
  rs_raw :: "string option"

definition AddValue :: "string \<Rightarrow> gval \<Rightarrow> response \<Rightarrow> response" where
  "AddValue k v r = r\<lparr>rs_data := AList.update k v (rs_data r)\<rparr>"

definition DelValue :: "string \<Rightarrow> response \<Rightarrow> response" where
  "DelValue k r = r\<lparr>rs_data := AList.delete k (rs_data r)\<rparr>"

definition HasValue :: "string \<Rightarrow> response \<Rightarrow> bool" where
  "HasValue k r = (map_of (rs_data r) k \<noteq> None)"

definition GetStatus :: "response \<Rightarrow> int" where
  "GetStatus r = rs_status r"

definition Status :: "int \<Rightarrow> response \<Rightarrow> response" where
  "Status n r =
     (let r1 = r\<lparr>rs_status := n\<rparr>
      in AddValue ''message'' (VStr (StatusText (rs_status r1)))
           (AddValue ''status'' (VInt n) r1))"

definition NewResponse :: "int \<Rightarrow> response" where
  "NewResponse n =
     Status n \<lparr>rs_status = 0, rs_pretty = False, rs_data = [], rs_raw = None\<rparr>"

definition Pretty :: "bool \<Rightarrow> response \<Rightarrow> response" where
  "Pretty p r = r\<lparr>rs_pretty := p\<rparr>"

definition Result :: "gval \<Rightarrow> response \<Rightarrow> response" where
  "Result v r = AddValue ''result'' v r"

definition Error :: "gval \<Rightarrow> response \<Rightarrow> response" where
  "Error v r = AddValue ''error'' v r"

text \<open>The second \<open>delete\<close> removes "status" again, as the code does.\<close>

definition StripStatusData :: "response \<Rightarrow> response" where
  "StripStatusData r =
     (let r1 = r\<lparr>rs_data := AList.delete ''status'' (rs_data r)\<rparr> in
      case map_of (rs_data r1) ''message'' of
        None \<Rightarrow> r1
      | Some m \<Rightarrow>
          (if m = VStr (StatusText (rs_status r1))
           then r1\<lparr>rs_data := AList.delete ''status'' (rs_data r1)\<rparr>
           else r1))"

definition UpdateStatusData :: "response \<Rightarrow> response" where
  "UpdateStatusData r = Status (rs_status r) r"

definition embed :: "response \<Rightarrow> gval" where
  "embed r = VResp (rs_status r) (rs_pretty r) (rs_data r) (rs_raw r)"

section \<open>Encoding\<close>

text \<open>
  What the encoder makes of an error value: the errors of \<open>errors.New\<close> and \<open>fmt.Errorf\<close> are
  structs without exported fields, the run-time errors have a string kind.
\<close>

fun err_json :: "go_error \<Rightarrow> json option" where
  "err_json (ErrNew m) = Some (JObj [])"
| "err_json (ErrRuntime m) = Some (JStr m)"
| "err_json (ErrExt m d) = d"

definition arr_text :: "string list \<Rightarrow> string" where
  "arr_text ts = ''['' @ join_with CHR '','' ts @ '']''"

definition obj_text :: "(string \<times> string) list \<Rightarrow> string" where
  "obj_text ms =
     ''{'' @ join_with CHR '','' (map (\<lambda>(k, t). enc_string k @ '':'' @ t) ms) @ ''}''"

abbreviation four_spaces :: string where "four_spaces \<equiv> ''    ''"

text \<open>
  \<open>json.Marshal\<close>: members in the order of their keys; a \<open>*Response\<close> goes through its
  \<open>MarshalJSON\<close> method, whose bytes must be a JSON document and are compacted.
\<close>

fun marshal :: "gval \<Rightarrow> string option"
  and marshal_elems :: "gval list \<Rightarrow> string list option"
  and marshal_members :: "(string \<times> gval) list \<Rightarrow> (string \<times> string) list option" where
  "marshal VNil = Some ''null''"
| "marshal (VBool b) = Some (if b then ''true'' else ''false'')"
| "marshal (VInt i) = Some (int_dec i)"
| "marshal (VStr s) = Some (enc_string s)"
| "marshal (VBytes b) = Some (DQ # b64_encode b @ [DQ])"
| "marshal (VErr e) = map_option print_json (err_json e)"
| "marshal (VList vs) = map_option arr_text (marshal_elems vs)"
| "marshal (VMap ms) = map_option (\<lambda>ts. obj_text (sort_key fst ts)) (marshal_members ms)"
| "marshal (VResp st p ms raw) =
     (case raw of
        Some b \<Rightarrow> marshaler_bytes (b64_encode b)
      | None \<Rightarrow>
          (case marshal_members ms of
             None \<Rightarrow> None
           | Some ts \<Rightarrow>
               (let t = obj_text (sort_key fst ts)
                in marshaler_bytes (if p then Indent four_spaces False False 0 t else t))))"
| "marshal (VExt d) = map_option print_json d"
| "marshal_elems [] = Some []"
| "marshal_elems (v # vs) =
     (case marshal v of None \<Rightarrow> None | Some t \<Rightarrow> map_option ((#) t) (marshal_elems vs))"
| "marshal_members [] = Some []"
| "marshal_members ((k, v) # ms) =
     (case marshal v of None \<Rightarrow> None | Some t \<Rightarrow> map_option ((#) (k, t)) (marshal_members ms))"

definition MarshalJSON :: "response \<Rightarrow> string option" where
  "MarshalJSON r =
     (case rs_raw r of
        Some b \<Rightarrow> Some (b64_encode b)
      | None \<Rightarrow>
          (if rs_pretty r
           then map_option (Indent four_spaces False False 0) (marshal (VMap (rs_data r)))
           else marshal (VMap (rs_data r))))"

text \<open>\<open>json.Marshal(r)\<close> of a \<open>*Response\<close>.\<close>

definition marshal_response :: "response \<Rightarrow> string option" where
  "marshal_response r =
     (case MarshalJSON r of None \<Rightarrow> None | Some b \<Rightarrow> marshaler_bytes b)"

lemma marshal_embed: "marshal (embed r) = marshal_response r"
  by (auto simp: embed_def marshal_response_def MarshalJSON_def Let_def split: option.splits)

text \<open>The argument of \<open>Raw\<close>, by the cases of its type switch.\<close>

datatype raw_arg =
    RawNil
  | RawStringer string
  | RawString string
  | RawBytes string
  | RawOther gval

definition marshal_error :: go_error where
  "marshal_error = ErrExt ''json: error calling MarshalJSON'' None"

fun Raw :: "raw_arg \<Rightarrow> response \<Rightarrow> response" where
  "Raw RawNil r = r\<lparr>rs_raw := None\<rparr>"
| "Raw (RawStringer s) r = r\<lparr>rs_raw := Some s\<rparr>"
| "Raw (RawString s) r = r\<lparr>rs_raw := Some s\<rparr>"
| "Raw (RawBytes b) r = r\<lparr>rs_raw := Some b\<rparr>"
| "Raw (RawOther v) r =
     (case marshal v of
        Some b \<Rightarrow> r\<lparr>rs_raw := Some b\<rparr>
      | None \<Rightarrow> Error (VErr marshal_error) r)"

section \<open>Writing to the client\<close>

text \<open>
  The \<open>http.ResponseWriter\<close>: header lines added so far, the status once it is sent, the
  body bytes sent.  A second \<open>WriteHeader\<close> has no effect.
\<close>

record writer =
  wr_header :: "(string \<times> string) list"
  wr_status :: "int option"
  wr_body :: string

definition fresh_writer :: writer where
  "fresh_writer = \<lparr>wr_header = [], wr_status = None, wr_body = []\<rparr>"

definition WriteHeader :: "int \<Rightarrow> writer \<Rightarrow> writer" where
  "WriteHeader n w = (case wr_status w of None \<Rightarrow> w\<lparr>wr_status := Some n\<rparr> | Some _ \<Rightarrow> w)"

definition write_body :: "string \<Rightarrow> writer \<Rightarrow> writer" where
  "write_body b w = (WriteHeader 200 w)\<lparr>wr_body := wr_body w @ b\<rparr>"

definition add_header :: "string \<Rightarrow> string \<Rightarrow> writer \<Rightarrow> writer" where
  "add_header k v w = w\<lparr>wr_header := wr_header w @ [(k, v)]\<rparr>"

definition Write :: "response \<Rightarrow> writer \<Rightarrow> go_error option \<times> writer" where
  "Write r w =
     (let w1 = WriteHeader (rs_status r)
                 (add_header ''Content-Type'' ''application/json'' w)
      in case rs_raw r of
           Some b \<Rightarrow> (None, write_body b w1)
         | None \<Rightarrow>
             (case marshal_response r of
                None \<Rightarrow> (Some marshal_error, w1)
              | Some body \<Rightarrow> (None, write_body body w1)))"

section \<open>The contract of a keyed store of values\<close>

locale keyed_values =
  fixes get :: "'s \<Rightarrow> string \<Rightarrow> 'v option"
    and put :: "string \<Rightarrow> 'v \<Rightarrow> 's \<Rightarrow> 's"
    and del :: "string \<Rightarrow> 's \<Rightarrow> 's"
    and inv :: "'s \<Rightarrow> bool"
  assumes get_put: "get (put k v s) = (get s)(k \<mapsto> v)"
    and get_del: "get (del k s) = (get s)(k := None)"
    and inv_put: "inv s \<Longrightarrow> inv (put k v s)"
    and inv_del: "inv s \<Longrightarrow> inv (del k s)"
begin

lemma get_put_same [simp]: "get (put k v s) k = Some v"
  by (simp add: get_put)

lemma get_put_other: "k' \<noteq> k \<Longrightarrow> get (put k v s) k' = get s k'"
  by (simp add: get_put)

lemma put_put: "get (put k v (put k u s)) = get (put k v s)"
  by (simp add: get_put)

lemma put_commute: "k \<noteq> k' \<Longrightarrow> get (put k v (put k' u s)) = get (put k' u (put k v s))"
  by (simp add: get_put fun_upd_twist)

lemma del_put_same: "get (del k (put k v s)) = get (del k s)"
  by (simp add: get_put get_del)

lemma dom_put: "dom (get (put k v s)) = insert k (dom (get s))"
  by (simp add: get_put)

end

definition value_of :: "response \<Rightarrow> string \<Rightarrow> gval option" where
  "value_of r k = map_of (rs_data r) k"

definition wf_response :: "response \<Rightarrow> bool" where
  "wf_response r \<longleftrightarrow> wf_map (rs_data r)"

interpretation rv: keyed_values value_of AddValue DelValue wf_response
  by unfold_locales
    (auto simp: value_of_def AddValue_def DelValue_def wf_response_def fun_eq_iff
      intro: wf_map_update wf_map_delete)

end
