(* ===== verification/Registry.thy ===== *)
theory Registry
  imports Prelude
begin

text \<open>
  The three process-wide registries: \<open>registry.go\<close> (task factories by type), the authorizer
  factories of \<open>auth.go\<close> and the format functions of \<open>formats.go\<close>.  Each is a map guarded
  against registering an id twice.  The map itself is modelled here; the lock around it is the
  subject of \<open>Registry_Lock\<close>.
\<close>

section \<open>The contract\<close>

locale registry =
  fixes lookup :: "'r \<Rightarrow> string \<Rightarrow> 'f option"
    and register :: "string \<Rightarrow> 'f \<Rightarrow> 'r \<Rightarrow> 'r outcome"
    and initial :: 'r
  assumes lookup_initial: "lookup initial k = None"
    and register_new: "lookup r k = None \<Longrightarrow>
          \<exists>r'. register k f r = Returns r' \<and> lookup r' = (lookup r)(k \<mapsto> f)"
    and register_again: "lookup r k \<noteq> None \<Longrightarrow> \<exists>p. register k f r = Panics p"

text \<open>What an \<open>init\<close> function does: a sequence of registrations.\<close>

fun register_all :: "(string \<Rightarrow> 'f \<Rightarrow> 'r \<Rightarrow> 'r outcome) \<Rightarrow> (string \<times> 'f) list \<Rightarrow> 'r \<Rightarrow> 'r outcome"
where
  "register_all reg [] r = Returns r"
| "register_all reg ((k, f) # kfs) r = bind_outcome (reg k f r) (register_all reg kfs)"

context registry
begin

lemma registers_iff: "(\<exists>r'. register k f r = Returns r') \<longleftrightarrow> lookup r k = None"
proof
  assume "\<exists>r'. register k f r = Returns r'"
  then show "lookup r k = None" by (metis register_again outcome.distinct(1))
next
  assume "lookup r k = None"
  then show "\<exists>r'. register k f r = Returns r'" using register_new [of r k f] by auto
qed

lemma register_keeps:
  assumes "register k f r = Returns r'" and "lookup r k' = Some g"
  shows "lookup r' k' = Some g"
proof -
  from assms(1) have "lookup r k = None" using registers_iff by blast
  with register_new [of r k f] assms show ?thesis by auto
qed

lemma register_all_lookup:
  assumes "distinct (map fst kfs)" and "\<forall>k \<in> fst ` set kfs. lookup r k = None"
  shows "\<exists>r'. register_all register kfs r = Returns r' \<and>
           lookup r' = (\<lambda>k. case map_of kfs k of None \<Rightarrow> lookup r k | Some f \<Rightarrow> Some f)"
  using assms
proof (induction kfs arbitrary: r)
  case Nil
  then show ?case by simp
next
  case (Cons kf kfs)
  obtain k f where kf: "kf = (k, f)" by (cases kf)
  from Cons.prems(2) kf have "lookup r k = None" by simp
  from register_new [OF this] obtain r1
    where r1: "register k f r = Returns r1" "lookup r1 = (lookup r)(k \<mapsto> f)" by blast
  have "\<forall>k' \<in> fst ` set kfs. lookup r1 k' = None" using Cons.prems kf r1(2) by auto
  with Cons.IH [of r1] Cons.prems(1) kf obtain r2
    where r2: "register_all register kfs r1 = Returns r2"
      "lookup r2 = (\<lambda>k. case map_of kfs k of None \<Rightarrow> lookup r1 k | Some f \<Rightarrow> Some f)" by auto
  have "map_of kfs k = None" using Cons.prems(1) kf by (simp add: map_of_eq_None_iff)
  with r1 r2 kf show ?case by (auto simp: fun_eq_iff split: option.splits)
qed

lemma register_all_initial:
  assumes "distinct (map fst kfs)"
  shows "\<exists>r'. register_all register kfs initial = Returns r' \<and> lookup r' = map_of kfs"
proof -
  from register_all_lookup [OF assms, of initial] lookup_initial obtain r'
    where "register_all register kfs initial = Returns r'"
      "lookup r' = (\<lambda>k. case map_of kfs k of None \<Rightarrow> lookup initial k | Some f \<Rightarrow> Some f)" by auto
  then show ?thesis by (auto simp: lookup_initial fun_eq_iff split: option.splits)
qed

lemma register_twice_panics:
  assumes "register k f r = Returns r'"
  shows "\<exists>p. register k g r' = Panics p"
  using assms register_new [of r k f] register_again [of r' k g] registers_iff [of k f r] by auto

end

section \<open>Task factories\<close>

text \<open>The factory functions \<open>tasks.go\<close> registers.\<close>

datatype task_factory =
    CassandraTaskFactory | HttpTaskFactory | InfoTaskFactory | MySQLTaskFactory
  | PostgresTaskFactory | RedisTaskFactory | ShellTaskFactory | MultiTaskFactory
  | FilesystemFactory

type_synonym task_registry = "(string \<times> task_factory) list"

definition RegisterTaskFactory :: "string \<Rightarrow> task_factory \<Rightarrow> task_registry \<Rightarrow> task_registry outcome"
where
  "RegisterTaskFactory i factory reg =
     (if map_of reg i \<noteq> None
      then Panics (StringPanic (''task factory '' @ i @ '' already exists''))
      else Returns (AList.update i factory reg))"

definition getTaskFactory :: "task_registry \<Rightarrow> string \<Rightarrow> task_factory option" where
  "getTaskFactory reg i = map_of reg i"

interpretation tasks: registry getTaskFactory RegisterTaskFactory "[]"
  by unfold_locales (auto simp: getTaskFactory_def RegisterTaskFactory_def fun_eq_iff)

definition task_registrations :: task_registry where
  "task_registrations =
     [(''cassandra'', CassandraTaskFactory), (''http'', HttpTaskFactory),
      (''info'', InfoTaskFactory), (''mysql'', MySQLTaskFactory),
      (''postgres'', PostgresTaskFactory), (''redis'', RedisTaskFactory),
      (''shell'', ShellTaskFactory), (''multi'', MultiTaskFactory),
      (''filesystem'', FilesystemFactory)]"

text \<open>\<open>init\<close> of \<open>tasks.go\<close>, run on the empty registry.\<close>

definition init_tasks :: "task_registry outcome" where
  "init_tasks = register_all RegisterTaskFactory task_registrations []"

lemma init_tasks_lookup:
  "\<exists>reg. init_tasks = Returns reg \<and> getTaskFactory reg = map_of task_registrations"
  unfolding init_tasks_def
  by (rule tasks.register_all_initial) (simp add: task_registrations_def)

text \<open>The registry the server runs with.\<close>

definition taskregistry :: task_registry where
  "taskregistry = (case init_tasks of Returns reg \<Rightarrow> reg | Panics p \<Rightarrow> [])"

lemma taskregistry_lookup: "getTaskFactory taskregistry = map_of task_registrations"
proof -
  from init_tasks_lookup obtain reg
    where i: "init_tasks = Returns reg" and l: "getTaskFactory reg = map_of task_registrations"
    by blast
  have "taskregistry = reg" unfolding taskregistry_def i by simp
  with l show ?thesis by simp
qed

section \<open>Authorizer factories\<close>

datatype authorizer_factory =
  BasicAuthorizerFactory | LDAPAuthorizerFactory | HttpAuthorizerFactory

type_synonym authorizer_registry = "(string \<times> authorizer_factory) list"

definition RegisterAuthorizer ::
  "string \<Rightarrow> authorizer_factory \<Rightarrow> authorizer_registry \<Rightarrow> authorizer_registry outcome" where
  "RegisterAuthorizer i factory reg =
     (if map_of reg i \<noteq> None
      then Panics (StringPanic (''authorizer '' @ i @ '' already registered''))
      else Returns (AList.update i factory reg))"

definition lookup_authorizer :: "authorizer_registry \<Rightarrow> string \<Rightarrow> authorizer_factory option" where
  "lookup_authorizer reg i = map_of reg i"

definition AuthorizerExists :: "authorizer_registry \<Rightarrow> string \<Rightarrow> bool" where
  "AuthorizerExists reg i = (map_of reg i \<noteq> None)"

interpretation auths: registry lookup_authorizer RegisterAuthorizer "[]"
  by unfold_locales (auto simp: lookup_authorizer_def RegisterAuthorizer_def fun_eq_iff)

definition authorizer_registrations :: authorizer_registry where
  "authorizer_registrations =
     [(''basic'', BasicAuthorizerFactory), (''ldap'', LDAPAuthorizerFactory),
      (''http'', HttpAuthorizerFactory)]"

definition init_authorizers :: "authorizer_registry outcome" where
  "init_authorizers = register_all RegisterAuthorizer authorizer_registrations []"

definition authorizer_table :: authorizer_registry where
  "authorizer_table = (case init_authorizers of Returns reg \<Rightarrow> reg | Panics p \<Rightarrow> [])"

lemma authorizer_table_lookup: "lookup_authorizer authorizer_table = map_of authorizer_registrations"
proof -
  obtain reg where i: "init_authorizers = Returns reg"
    and l: "lookup_authorizer reg = map_of authorizer_registrations"
    using auths.register_all_initial [of authorizer_registrations]
    by (auto simp: init_authorizers_def authorizer_registrations_def)
  have "authorizer_table = reg" unfolding authorizer_table_def i by simp
  with l show ?thesis by simp
qed

lemma AuthorizerExists_lookup: "AuthorizerExists reg i \<longleftrightarrow> lookup_authorizer reg i \<noteq> None"
  by (simp add: AuthorizerExists_def lookup_authorizer_def)

end
