(* ===== verification/Formats.thy ===== *)
theory Formats
  imports Response Registry
begin

text \<open>
  \<open>formats.go\<close>: the format functions, their registry, and format expressions such as
  \<open>json|lines\<close> (names separated by a bar, tried from the left).
\<close>

section \<open>Format functions\<close>

text \<open>
  Decoding a document into \<open>interface{}\<close>: numbers become \<open>float64\<close> (\<open>ft\<close> gives the text
  \<open>encoding/json\<close> prints for the value of a literal, \<open>None\<close> when it is out of range), the
  last of several members with one name wins, and the resulting map prints its keys sorted.
\<close>

definition go_map :: "(string \<times> json) list \<Rightarrow> (string \<times> json) list" where
  "go_map ms = sort_key fst (foldl (\<lambda>m (k, v). AList.update k v m) [] ms)"

fun decode_iface :: "(string \<Rightarrow> string option) \<Rightarrow> json \<Rightarrow> json option"
  and decode_elems :: "(string \<Rightarrow> string option) \<Rightarrow> json list \<Rightarrow> json list option"
  and decode_members :: "(string \<Rightarrow> string option) \<Rightarrow> (string \<times> json) list \<Rightarrow> (string \<times> json) list option"
where
  "decode_iface ft JNull = Some JNull"
| "decode_iface ft (JBool b) = Some (JBool b)"
| "decode_iface ft (JNum n) = map_option JNum (ft n)"
| "decode_iface ft (JStr s) = Some (JStr s)"
| "decode_iface ft (JArr js) = map_option JArr (decode_elems ft js)"
| "decode_iface ft (JObj ms) = map_option (\<lambda>ms. JObj (go_map ms)) (decode_members ft ms)"
| "decode_elems ft [] = Some []"
| "decode_elems ft (j # js) =
     (case decode_iface ft j of None \<Rightarrow> None | Some v \<Rightarrow> map_option ((#) v) (decode_elems ft js))"
| "decode_members ft [] = Some []"
| "decode_members ft ((k, j) # ms) =
     (case decode_iface ft j of None \<Rightarrow> None | Some v \<Rightarrow> map_option ((#) (k, v)) (decode_members ft ms))"

text \<open>
  The two errors of the decoder.  They are structs with exported fields, which \<open>encoding/json\<close>
  shows; the position and the kind of value found are not modelled.
\<close>

abbreviation syntax_error :: go_error where
  "syntax_error \<equiv> ErrExt ''json: syntax error'' (Some (JObj [(''Offset'', JNum ''0'')]))"

abbreviation type_error :: go_error where
  "type_error \<equiv>
     ErrExt ''json: cannot unmarshal''
       (Some (JObj [(''Value'', JStr []), (''Type'', JObj []), (''Offset'', JNum ''0'')]))"

text \<open>\<open>json.Unmarshal\<close> into a \<open>map[string]interface{}\<close>: an object, or null for the nil map.\<close>

definition unmarshal_map :: "(string \<Rightarrow> string option) \<Rightarrow> string \<Rightarrow> gval result" where
  "unmarshal_map ft body =
     (case parse_json body of
        None \<Rightarrow> Inl syntax_error
      | Some j \<Rightarrow>
          (case j of
             JNull \<Rightarrow> Inr (VExt (Some JNull))
           | JObj ms \<Rightarrow>
               (case decode_iface ft j of
                  None \<Rightarrow> Inl type_error
                | Some v \<Rightarrow> Inr (VExt (Some v)))
           | _ \<Rightarrow> Inl type_error))"

definition FormatJSON :: "(string \<Rightarrow> string option) \<Rightarrow> string \<Rightarrow> gval result" where
  "FormatJSON ft body = unmarshal_map ft body"

definition FormatJSONLines :: "(string \<Rightarrow> string option) \<Rightarrow> string \<Rightarrow> gval result" where
  "FormatJSONLines ft body =
     (case mapM_result (unmarshal_map ft) (split_on (CHR 0x0A) body) of
        Inl e \<Rightarrow> Inl e
      | Inr r \<Rightarrow> Inr (VList r))"

definition FormatLines :: "string \<Rightarrow> gval result" where
  "FormatLines body = Inr (VList (map VStr (split_on (CHR 0x0A) body)))"

definition FormatText :: "string \<Rightarrow> gval result" where
  "FormatText body = Inr (VStr body)"

section \<open>The registry of formats\<close>

type_synonym format_func = "string \<Rightarrow> gval result"
type_synonym format_registry = "(string \<times> format_func) list"

abbreviation bar :: char where "bar \<equiv> CHR ''|''"

definition RegisterFormat :: "string \<Rightarrow> format_func \<Rightarrow> format_registry \<Rightarrow> format_registry outcome" where
  "RegisterFormat i fn formats =
     (if map_of formats i \<noteq> None
      then Panics (StringPanic (''format '' @ i @ '' already registered''))
      else Returns (AList.update i fn formats))"

interpretation fmts: registry map_of RegisterFormat "[]"
  by unfold_locales (auto simp: RegisterFormat_def fun_eq_iff)

definition format_registrations :: "(string \<Rightarrow> string option) \<Rightarrow> format_registry" where
  "format_registrations ft =
     [(''json'', FormatJSON ft), (''jsonlines'', FormatJSONLines ft),
      (''lines'', FormatLines), (''text'', FormatText)]"

text \<open>\<open>init\<close> of \<open>formats.go\<close>.\<close>

definition init_formats :: "(string \<Rightarrow> string option) \<Rightarrow> format_registry outcome" where
  "init_formats ft = register_all RegisterFormat (format_registrations ft) []"

definition format_table :: "(string \<Rightarrow> string option) \<Rightarrow> format_registry" where
  "format_table ft = (case init_formats ft of Returns reg \<Rightarrow> reg | Panics p \<Rightarrow> [])"

lemma format_table_lookup: "map_of (format_table ft) = map_of (format_registrations ft)"
proof -
  have "\<exists>reg. init_formats ft = Returns reg \<and> map_of reg = map_of (format_registrations ft)"
    unfolding init_formats_def
    by (rule fmts.register_all_initial) (simp add: format_registrations_def)
  then show ?thesis by (auto simp: format_table_def)
qed

lemma format_table_text: "map_of (format_table ft) ''text'' = Some FormatText"
  by (simp add: format_table_lookup format_registrations_def)

section \<open>Format expressions\<close>

definition unknown_format :: "string \<Rightarrow> go_error" where
  "unknown_format part = ErrNew (''format '' @ part @ '' unknown'')"

text \<open>The loop of \<open>VerifyFormat\<close>: the parts kept so far and whether one was "text".\<close>

fun verify_loop ::
  "format_registry \<Rightarrow> string list \<Rightarrow> string list \<Rightarrow> bool \<Rightarrow> (string list \<times> bool) result" where
  "verify_loop formats [] ff foundtext = Inr (ff, foundtext)"
| "verify_loop formats (part # parts) ff foundtext =
     (if part = [] then verify_loop formats parts ff foundtext
      else case map_of formats part of
          None \<Rightarrow> Inl (unknown_format part)
        | Some _ \<Rightarrow> verify_loop formats parts (ff @ [part]) (foundtext \<or> part = ''text''))"

definition VerifyFormat :: "format_registry \<Rightarrow> string \<Rightarrow> string result" where
  "VerifyFormat formats format =
     (case verify_loop formats (split_on bar format) [] False of
        Inl e \<Rightarrow> Inl e
      | Inr (ff, foundtext) \<Rightarrow>
          Inr (join_with bar (if foundtext then ff else ff @ [''text''])))"

text \<open>The loop of \<open>Format\<close>, with the current values of its three named results.\<close>

fun format_loop ::
  "format_registry \<Rightarrow> string \<Rightarrow> string list \<Rightarrow> gval \<Rightarrow> string \<Rightarrow> go_error option
     \<Rightarrow> gval \<times> string \<times> go_error option" where
  "format_loop formats body [] result format err = (result, format, err)"
| "format_loop formats body (part # parts) result format err =
     (case map_of formats part of
        None \<Rightarrow> (result, format, Some (unknown_format part))
      | Some formatter \<Rightarrow>
          (case formatter body of
             Inr v \<Rightarrow> (v, part, None)
           | Inl e \<Rightarrow> format_loop formats body parts VNil part (Some e)))"

definition Format :: "format_registry \<Rightarrow> string \<Rightarrow> string \<Rightarrow> gval \<times> string \<times> go_error option" where
  "Format formats body f = format_loop formats body (split_on bar f) VNil [] None"

definition HasFormat :: "string \<Rightarrow> string \<Rightarrow> bool" where
  "HasFormat format i = list_ex (\<lambda>part. part = i) (split_on bar format)"

definition AddFormat :: "string \<Rightarrow> string \<Rightarrow> string" where
  "AddFormat format i =
     (if list_ex (\<lambda>part. part = i) (split_on bar format) then format
      else (if format \<noteq> [] then i @ [bar] else i) @ format)"

section \<open>VerifyFormat\<close>

text \<open>
  What a format expression stands for: its non-empty names in order, with "text" at the end
  unless it is one of them.
\<close>

definition canon_parts :: "string \<Rightarrow> string list" where
  "canon_parts f =
     (let ps = filter (\<lambda>p. p \<noteq> []) (split_on bar f)
      in if ''text'' \<in> set ps then ps else ps @ [''text''])"

lemma canon_parts_simps:
  "canon_parts f \<noteq> []" "''text'' \<in> set (canon_parts f)" "[] \<notin> set (canon_parts f)"
  by (auto simp: canon_parts_def Let_def filter_empty_conv)

lemma set_canon_parts: "set (canon_parts f) = insert ''text'' (set (split_on bar f) - {[]})"
  by (auto simp: canon_parts_def Let_def)

lemma canon_parts_no_bar: "\<forall>p \<in> set (canon_parts f). bar \<notin> set p"
  using split_on_parts [of _ bar f] by (auto simp: set_canon_parts)

lemma split_canon: "split_on bar (join_with bar (canon_parts f)) = canon_parts f"
  using canon_parts_simps(1) canon_parts_no_bar by (rule split_join)

lemma canon_parts_join: "canon_parts (join_with bar (canon_parts f)) = canon_parts f"
proof -
  have "filter (\<lambda>p. p \<noteq> []) (canon_parts f) = canon_parts f"
    using canon_parts_simps(3) [of f] by (auto simp: filter_id_conv)
  then show ?thesis
    using canon_parts_simps(2) [of f] unfolding canon_parts_def [of "join_with bar _"] split_canon
    by (simp add: Let_def)
qed

definition known_parts :: "format_registry \<Rightarrow> string \<Rightarrow> bool" where
  "known_parts formats f \<longleftrightarrow>
     list_all (\<lambda>p. p = [] \<or> map_of formats p \<noteq> None) (split_on bar f)"

lemma verify_loop_known:
  assumes "list_all (\<lambda>p. p = [] \<or> map_of formats p \<noteq> None) parts"
  shows "verify_loop formats parts ff t =
           Inr (ff @ filter (\<lambda>p. p \<noteq> []) parts, t \<or> ''text'' \<in> set parts)"
  using assms by (induction parts arbitrary: ff t) auto

lemma verify_loop_unknown:
  assumes "\<not> list_all (\<lambda>p. p = [] \<or> map_of formats p \<noteq> None) parts"
  shows "\<exists>p \<in> set parts. p \<noteq> [] \<and> map_of formats p = None \<and>
           verify_loop formats parts ff t = Inl (unknown_format p)"
  using assms by (induction parts arbitrary: ff t) (auto split: option.splits)

lemma VerifyFormat_known:
  "known_parts formats f \<Longrightarrow> VerifyFormat formats f = Inr (join_with bar (canon_parts f))"
  by (auto simp: VerifyFormat_def known_parts_def verify_loop_known canon_parts_def Let_def)

lemma VerifyFormat_unknown:
  assumes "\<not> known_parts formats f"
  shows "\<exists>p \<in> set (split_on bar f). p \<noteq> [] \<and> map_of formats p = None \<and>
           VerifyFormat formats f = Inl (unknown_format p)"
  using verify_loop_unknown [OF assms [unfolded known_parts_def], of "[]" False]
  by (auto simp: VerifyFormat_def)

lemma VerifyFormat_cases:
  assumes "VerifyFormat formats f = Inr g"
  shows "known_parts formats f" and "g = join_with bar (canon_parts f)"
    and "split_on bar g = canon_parts f"
proof -
  show k: "known_parts formats f" using VerifyFormat_unknown assms by fastforce
  with assms show g: "g = join_with bar (canon_parts f)" by (simp add: VerifyFormat_known)
  then show "split_on bar g = canon_parts f" by (simp add: split_canon)
qed

text \<open>
  C23: \<open>VerifyFormat\<close> accepts a format expression exactly when every non-empty name in it is
  registered, and then the stored expression splits into those names in their order, with
  "text" last unless it was given.
\<close>

theorem verify_format_iff:
  "VerifyFormat formats f = Inr g \<longleftrightarrow>
     known_parts formats f \<and> split_on bar g = canon_parts f"
proof
  assume "VerifyFormat formats f = Inr g"
  from VerifyFormat_cases [OF this]
  show "known_parts formats f \<and> split_on bar g = canon_parts f" by simp
next
  assume a: "known_parts formats f \<and> split_on bar g = canon_parts f"
  then have "g = join_with bar (canon_parts f)" by (metis join_split_on)
  with a show "VerifyFormat formats f = Inr g" by (simp add: VerifyFormat_known)
qed

text \<open>
  An expression that \<open>VerifyFormat\<close> returned is accepted again unchanged, provided the
  fallback "text" is registered: what a configuration stores is a fixed point.
\<close>

theorem verify_format_idem:
  assumes "VerifyFormat formats f = Inr g" and "map_of formats ''text'' \<noteq> None"
  shows "VerifyFormat formats g = Inr g"
proof -
  note g = VerifyFormat_cases [OF assms(1)]
  have "known_parts formats g"
    using g(1) assms(2) unfolding known_parts_def g(3)
    by (auto simp: list_all_iff set_canon_parts)
  then show ?thesis by (simp add: VerifyFormat_known g(2) canon_parts_join)
qed

theorem verify_format_idem_witness:
  "VerifyFormat (format_table Some) ''json|text'' = Inr ''json|text''"
proof -
  have "VerifyFormat (format_table Some) ''json||'' = Inr ''json|text''"
    by (simp add: VerifyFormat_def format_table_lookup format_registrations_def)
  then show ?thesis by (rule verify_format_idem) (simp add: format_table_text)
qed

section \<open>Format\<close>

lemma format_loop_first:
  assumes "format_loop formats body parts r0 f0 e0 = (v, p, None)" and "parts \<noteq> []"
  shows "\<exists>ps qs fn. parts = ps @ p # qs \<and> map_of formats p = Some fn \<and> fn body = Inr v \<and>
           list_all (\<lambda>q. \<exists>fn e. map_of formats q = Some fn \<and> fn body = Inl e) ps"
  using assms
proof (induction parts arbitrary: r0 f0 e0)
  case Nil
  then show ?case by simp
next
  case (Cons q parts)
  then obtain fn where fn: "map_of formats q = Some fn" by (auto split: option.splits)
  show ?case
  proof (cases "fn body")
    case (Inr u)
    with Cons.prems fn have "q # parts = [] @ p # parts \<and> fn body = Inr v \<and> p = q" by auto
    moreover have "list_all (\<lambda>q. \<exists>fn e. map_of formats q = Some fn \<and> fn body = Inl e) []" by simp
    ultimately show ?thesis using fn by blast
  next
    case (Inl e)
    with Cons.prems fn have rec: "format_loop formats body parts VNil q (Some e) = (v, p, None)"
      by simp
    then have "parts \<noteq> []" by auto
    from Cons.IH [OF rec this] obtain ps qs gn
      where "parts = ps @ p # qs" "map_of formats p = Some gn" "gn body = Inr v"
        "list_all (\<lambda>q. \<exists>fn e. map_of formats q = Some fn \<and> fn body = Inl e) ps" by blast
    with fn Inl have "q # parts = (q # ps) @ p # qs \<and>
        list_all (\<lambda>q. \<exists>fn e. map_of formats q = Some fn \<and> fn body = Inl e) (q # ps)" by simp
    with \<open>map_of formats p = Some gn\<close> \<open>gn body = Inr v\<close> show ?thesis by blast
  qed
qed

lemma format_loop_total:
  assumes "list_all (\<lambda>p. map_of formats p \<noteq> None) parts"
    and "map_of formats t = Some ft" and "ft body = Inr u" and "t \<in> set parts"
  shows "\<exists>v p. format_loop formats body parts r0 f0 e0 = (v, p, None)"
  using assms(1,4)
  by (induction parts arbitrary: r0 f0 e0) (auto simp: assms(2,3) split: sum.splits)

lemma Format_verified:
  assumes "VerifyFormat (format_table ft) f = Inr g"
  shows "\<exists>v p ps qs fn. Format (format_table ft) body g = (v, p, None) \<and>
           split_on bar g = ps @ p # qs \<and>
           map_of (format_table ft) p = Some fn \<and> fn body = Inr v \<and>
           list_all (\<lambda>q. \<exists>fn e. map_of (format_table ft) q = Some fn \<and> fn body = Inl e) ps"
proof -
  let ?T = "format_table ft"
  note g = VerifyFormat_cases [OF assms]
  have "list_all (\<lambda>p. map_of ?T p \<noteq> None) (split_on bar g)"
    using g(1) unfolding g(3)
    by (auto simp: list_all_iff set_canon_parts known_parts_def format_table_text)
  moreover have "''text'' \<in> set (split_on bar g)" using g(3) canon_parts_simps(2) by simp
  ultimately obtain v p where "format_loop ?T body (split_on bar g) VNil [] None = (v, p, None)"
    using format_loop_total [where parts = "split_on bar g" and u = "VStr body" and body = body,
        OF _ format_table_text] by (metis FormatText_def)
  with format_loop_first [OF this] show ?thesis by (auto simp: Format_def)
qed

text \<open>
  C22: Formatting with a verified expression cannot fail: it returns the value of the first
  name of the expression whose formatter accepts the body, and names that formatter; every
  name before it was tried and refused the body.
\<close>

theorem format_total:
  assumes "VerifyFormat (format_table ft) f = Inr g"
  shows "\<exists>v p ps qs fn. Format (format_table ft) body g = (v, p, None) \<and>
           split_on bar g = ps @ p # qs \<and>
           map_of (format_table ft) p = Some fn \<and> fn body = Inr v \<and>
           list_all (\<lambda>q. \<exists>fn e. map_of (format_table ft) q = Some fn \<and> fn body = Inl e) ps"
  by (rule Format_verified [OF assms])

theorem format_total_witness:
  "\<exists>v p ps qs fn. Format (format_table Some) ''a'' ''json|text'' = (v, p, None) \<and>
     split_on bar ''json|text'' = ps @ p # qs \<and>
     map_of (format_table Some) p = Some fn \<and> fn ''a'' = Inr v \<and>
     list_all (\<lambda>q. \<exists>fn e. map_of (format_table Some) q = Some fn \<and> fn ''a'' = Inl e) ps"
proof -
  have "VerifyFormat (format_table Some) ''json'' = Inr ''json|text''"
    by (simp add: VerifyFormat_def format_table_lookup format_registrations_def)
  then show ?thesis by (rule format_total)
qed

section \<open>HasFormat and AddFormat\<close>

lemma HasFormat_iff: "HasFormat f i \<longleftrightarrow> i \<in> set (split_on bar f)"
  by (auto simp: HasFormat_def list_ex_iff)

text \<open>
  Adding a name to a non-empty expression that lacks it puts it in front, so that it is
  the first one tried, and keeps the other names and their order.
\<close>

theorem add_format_front:
  assumes "bar \<notin> set i" and "f \<noteq> []" and "\<not> HasFormat f i"
  shows "split_on bar (AddFormat f i) = i # split_on bar f"
  using assms by (simp add: AddFormat_def HasFormat_def split_on_append_sep)

theorem add_format_front_witness:
  "split_on bar (AddFormat ''lines|text'' ''json'') = [''json'', ''lines'', ''text'']"
proof -
  have "\<not> HasFormat ''lines|text'' ''json''" by (simp add: HasFormat_def)
  with add_format_front [of "''json''" "''lines|text''"] show ?thesis by simp
qed

section \<open>JSON lines\<close>

lemma unmarshal_map_Nil: "unmarshal_map ft [] = Inl syntax_error"
  by (simp add: unmarshal_map_def parse_json_def numeral_2_eq_2 skip_ws_def)

text \<open>
  The "jsonlines" format refuses every body that ends in a newline, because the empty
  piece after the last newline is decoded too; with "jsonlines" alone such a body is returned
  as plain text.
\<close>

theorem jsonlines_trailing_newline:
  "Format (format_table ft) (s @ [CHR 0x0A]) ''jsonlines|text'' =
     (VStr (s @ [CHR 0x0A]), ''text'', None)"
proof -
  have "\<exists>e. mapM_result (unmarshal_map ft) (xs @ [[]]) = Inl e" for xs
    by (induction xs) (auto simp: unmarshal_map_Nil split: sum.splits)
  then obtain e where "mapM_result (unmarshal_map ft) (split_on (CHR 0x0A) s @ [[]]) = Inl e"
    by blast
  then have "FormatJSONLines ft (s @ [CHR 0x0A]) = Inl e"
    by (simp add: FormatJSONLines_def split_on_snoc_sep)
  then show ?thesis
    by (simp add: Format_def format_table_lookup format_registrations_def FormatText_def)
qed

end
