(* ===== verification/World.thy ===== *)
theory World
  imports Formats
begin

text \<open>
  What the program calls outside its own code, and the request it serves.

  A value of \<open>sys\<close> fixes the behaviour of everything that is not in the repository's own
  files: the template engine, regular expressions, Unicode case tables, floating point text,
  URL parsing (pure functions), and the effects (HTTP, LDAP, processes, databases, files) as
  functions on a world \<open>'w\<close> the model never looks into.  Sending a request also returns what
  is left of the reader it was given as its body.  Every theorem holds for all of them
  unless it states a hypothesis.
\<close>

section \<open>HTTP messages\<close>

text \<open>A reader: what reading it to the end yields, the bytes and possibly an error.\<close>

type_synonym reader = "string \<times> go_error option"

record http_request =
  hq_method :: string
  hq_url :: string
  hq_body :: "reader option"

record http_response =
  hp_status :: int
  hp_header :: "(string \<times> string list) list"
  hp_body :: "string result"

text \<open>
  \<open>http.Client\<close> as the program configures it: the dial timeout in nanoseconds, \<open>None\<close> for the
  zero client.
\<close>

record http_client =
  dial_timeout :: "int option"

text \<open>
  The request a handler gets.  Header and query are maps to value lists; \<open>rq_vars\<close> is
  \<open>mux.Vars\<close>.  The body is \<open>None\<close> for a nil body.
\<close>

record request =
  rq_method :: string
  rq_path :: string
  rq_header :: "(string \<times> string list) list"
  rq_query :: "(string \<times> string list) list"
  rq_vars :: "(string \<times> string) list"
  rq_body :: "reader option"

text \<open>\<open>Get\<close> of a header or of query values: the first value, or "".\<close>

definition first_value :: "(string \<times> string list) list \<Rightarrow> string \<Rightarrow> string" where
  "first_value m k = (case map_of m k of Some (v # _) \<Rightarrow> v | _ \<Rightarrow> [])"

text \<open>A value for templates: a map from strings to strings.\<close>

definition string_map :: "(string \<times> string) list \<Rightarrow> gval" where
  "string_map m = VMap (map (\<lambda>(k, v). (k, VStr v)) m)"

definition header_map :: "(string \<times> string list) list \<Rightarrow> gval" where
  "header_map m = VMap (map (\<lambda>(k, vs). (k, VList (map VStr vs))) m)"

section \<open>The environment\<close>

text \<open>A row of a query result, as a driver makes it: column name and value.\<close>

type_synonym row = "(string \<times> gval) list"

text \<open>
  What walking a result set yields: the rows scanned before the end or the first scan error.
\<close>

type_synonym scan = "row list \<times> go_error option"

text \<open>A reply of a Redis connection: nil, or what the reply converters accept.\<close>

datatype redis_reply = RNil | RInt int | RBulk string | RStatus string | RArray "redis_reply list"

record file_info =
  fi_name :: string
  fi_is_dir :: bool

record ('t, 'w) sys =
  tpl_parse :: "string \<Rightarrow> 't result"
  tpl_exec :: "'t \<Rightarrow> gval \<Rightarrow> string result"
  re_compile :: "string \<Rightarrow> go_error option"
  re_match :: "string \<Rightarrow> string \<Rightarrow> bool"
  uni_lower :: "string \<Rightarrow> string"
  uni_upper :: "string \<Rightarrow> string"
  float_text :: "string \<Rightarrow> string option"
  url_string :: "string \<Rightarrow> string result"
  new_request :: "string \<Rightarrow> string \<Rightarrow> go_error option"
  http_do :: "http_client \<Rightarrow> http_request \<Rightarrow> 'w \<Rightarrow> (http_response result \<times> reader option) \<times> 'w"
  ldap_dial :: "bool \<Rightarrow> string \<Rightarrow> 'w \<Rightarrow> nat result \<times> 'w"
  ldap_bind :: "nat \<Rightarrow> string \<Rightarrow> string \<Rightarrow> 'w \<Rightarrow> go_error option \<times> 'w"
  exec_output :: "string \<Rightarrow> string \<Rightarrow> string \<Rightarrow> string list \<Rightarrow> 'w \<Rightarrow> string result \<times> 'w"
  sql_connect :: "string \<Rightarrow> string \<Rightarrow> 'w \<Rightarrow> nat result \<times> 'w"
  sql_open :: "string \<Rightarrow> string \<Rightarrow> 'w \<Rightarrow> nat result \<times> 'w"
  sql_queryx :: "nat \<Rightarrow> string \<Rightarrow> string list \<Rightarrow> 'w \<Rightarrow> scan result \<times> 'w"
  pq_code :: "go_error \<Rightarrow> string option"
  mysql_number :: "go_error \<Rightarrow> int option"
  redis_dial :: "string \<Rightarrow> string \<Rightarrow> 'w \<Rightarrow> nat result \<times> 'w"
  redis_do :: "nat \<Rightarrow> string \<Rightarrow> string list \<Rightarrow> 'w \<Rightarrow> redis_reply result \<times> 'w"
  redis_convert :: "string \<Rightarrow> redis_reply \<Rightarrow> gval result"
  cql_session :: "string list \<Rightarrow> string \<Rightarrow> 'w \<Rightarrow> nat result \<times> 'w"
  cql_slice_map :: "nat \<Rightarrow> string \<Rightarrow> string list \<Rightarrow> 'w \<Rightarrow> row list result \<times> 'w"
  fs_stat :: "string \<Rightarrow> 'w \<Rightarrow> file_info result"
  fs_read_dir :: "string \<Rightarrow> 'w \<Rightarrow> file_info list result"
  fs_read_file :: "string \<Rightarrow> 'w \<Rightarrow> string result"
  fs_abs :: "string \<Rightarrow> 'w \<Rightarrow> string result"
  os_environ :: "'w \<Rightarrow> string list"
  yaml_to_json :: "string \<Rightarrow> string result"
  sha256_hex :: "string \<Rightarrow> string"
  redirect_url :: "request \<Rightarrow> string \<Rightarrow> string"
  mux_path :: "string \<Rightarrow> string \<Rightarrow> (string \<times> string) list option"
  os_chdir :: "string \<Rightarrow> 'w \<Rightarrow> go_error option \<times> 'w"

section \<open>Interpolate\<close>

definition RenderTemplate :: "('t, 'w) sys \<Rightarrow> 't \<Rightarrow> gval \<Rightarrow> string result" where
  "RenderTemplate S tpl data = tpl_exec S tpl data"

definition Interpolate :: "('t, 'w) sys \<Rightarrow> string \<Rightarrow> gval \<Rightarrow> string result" where
  "Interpolate S strTemplate data =
     (case tpl_parse S strTemplate of
        Inl e \<Rightarrow> Inl e
      | Inr tpl \<Rightarrow> RenderTemplate S tpl data)"

text \<open>\<open>MethodAllowed\<close>: an empty list allows every method.\<close>

definition MethodAllowed :: "('t, 'w) sys \<Rightarrow> string \<Rightarrow> string list \<Rightarrow> bool" where
  "MethodAllowed S method avail =
     (avail = [] \<or>
      list_ex (\<lambda>am. ToUpper (uni_upper S) method = ToUpper (uni_upper S) am) avail)"

section \<open>Requester\<close>

record requester =
  rqr_timeout :: int
  rqr_client :: "http_client option"

definition DEFAULT_TIMEOUT :: int where
  "DEFAULT_TIMEOUT = 10 * 1000000000"

definition WithTimeout :: "int \<Rightarrow> requester \<Rightarrow> requester" where
  "WithTimeout timeout r =
     (let r1 = r\<lparr>rqr_timeout := timeout\<rparr>
      in r1\<lparr>rqr_client := Some \<lparr>dial_timeout = Some (rqr_timeout r1)\<rparr>\<rparr>)"

definition set_requester :: "(requester \<Rightarrow> requester) list \<Rightarrow> requester \<Rightarrow> requester" where
  "set_requester funcs r = fold (\<lambda>fn r. fn r) funcs r"

definition NewRequester :: "(requester \<Rightarrow> requester) list \<Rightarrow> requester" where
  "NewRequester funcs =
     (let result = set_requester [WithTimeout DEFAULT_TIMEOUT]
                     \<lparr>rqr_timeout = 0, rqr_client = None\<rparr>
      in if funcs \<noteq> [] then set_requester funcs result else result)"

text \<open>A nil client panics when it is used.\<close>

definition DoRequest ::
  "('t, 'w) sys \<Rightarrow> requester \<Rightarrow> http_request \<Rightarrow> 'w \<Rightarrow> (http_response result \<times> 'w) outcome" where
  "DoRequest S r req w =
     (case rqr_client r of
        None \<Rightarrow> Panics nil_panic
      | Some c \<Rightarrow> (case http_do S c req w of ((res, _), w1) \<Rightarrow> Returns (res, w1)))"

definition DoNew ::
  "('t, 'w) sys \<Rightarrow> requester \<Rightarrow> string \<Rightarrow> string \<Rightarrow> reader option \<Rightarrow> 'w
     \<Rightarrow> (http_response result \<times> 'w) outcome" where
  "DoNew S r method url body w =
     (case new_request S method url of
        Some e \<Rightarrow> Returns (Inl e, w)
      | None \<Rightarrow>
          DoRequest S r \<lparr>hq_method = method, hq_url = url, hq_body = body\<rparr> w)"

lemma set_requester_simps [simp]:
  "set_requester [] r = r" "set_requester (f # fs) r = set_requester fs (f r)"
  by (simp_all add: set_requester_def)

text \<open>
  A requester made with any list of timeouts carries the last of them (the default of
  ten seconds when there is none), and its client dials with exactly that timeout, so a
  request never meets a nil client.
\<close>

theorem new_requester_timeout:
  "NewRequester (map WithTimeout ts) =
     \<lparr>rqr_timeout = last (DEFAULT_TIMEOUT # ts),
      rqr_client = Some \<lparr>dial_timeout = Some (last (DEFAULT_TIMEOUT # ts))\<rparr>\<rparr>"
proof -
  have "set_requester (map WithTimeout ts) \<lparr>rqr_timeout = t, rqr_client = Some \<lparr>dial_timeout = Some t\<rparr>\<rparr>
      = \<lparr>rqr_timeout = last (t # ts), rqr_client = Some \<lparr>dial_timeout = Some (last (t # ts))\<rparr>\<rparr>" for t
    by (induction ts arbitrary: t) (simp_all add: WithTimeout_def)
  then show ?thesis by (simp add: NewRequester_def WithTimeout_def Let_def)
qed

lemma DoNew_NewRequester:
  "DoNew S (NewRequester []) method url body w =
     (case new_request S method url of
        Some e \<Rightarrow> Returns (Inl e, w)
      | None \<Rightarrow> (case http_do S \<lparr>dial_timeout = Some DEFAULT_TIMEOUT\<rparr>
                   \<lparr>hq_method = method, hq_url = url, hq_body = body\<rparr> w of
                 ((res, _), w1) \<Rightarrow> Returns (res, w1)))"
  by (simp add: DoNew_def DoRequest_def NewRequester_def WithTimeout_def Let_def split: option.splits)

section \<open>A concrete environment\<close>

text \<open>
  An environment to evaluate the model in: a template is its own text, the one pattern is
  "all digits", calls answer 200 with an empty body or fail, and the world counts the calls.
\<close>

definition sample_error :: go_error where
  "sample_error = ErrExt ''refused'' (Some (JObj []))"

definition sample_sys :: "(string, nat) sys" where
  "sample_sys =
     \<lparr>tpl_parse = Inr, tpl_exec = (\<lambda>t _. Inr t),
      re_compile = (\<lambda>_. None), re_match = (\<lambda>_. list_all is_digit),
      uni_lower = id, uni_upper = id, float_text = Some, url_string = Inr,
      new_request = (\<lambda>_ _. None),
      http_do = (\<lambda>_ _ w. ((Inr \<lparr>hp_status = 200, hp_header = [], hp_body = Inr []\<rparr>, None), Suc w)),
      ldap_dial = (\<lambda>_ _ w. (Inr 1, Suc w)),
      ldap_bind = (\<lambda>_ u p w. (if u = p then None else Some sample_error, Suc w)),
      exec_output = (\<lambda>_ c _ _ w. (Inr c, Suc w)),
      sql_connect = (\<lambda>_ _ w. (Inl sample_error, Suc w)),
      sql_open = (\<lambda>_ _ w. (Inr 1, Suc w)),
      sql_queryx = (\<lambda>_ _ _ w. (Inr ([], None), Suc w)),
      pq_code = (\<lambda>_. None), mysql_number = (\<lambda>_. None),
      redis_dial = (\<lambda>_ _ w. (Inr 1, Suc w)),
      redis_do = (\<lambda>_ c _ w. (Inr (RBulk c), Suc w)),
      redis_convert = (\<lambda>_ r. (case r of RBulk b \<Rightarrow> Inr (VStr b) | _ \<Rightarrow> Inl sample_error)),
      cql_session = (\<lambda>_ _ w. (Inr 1, Suc w)),
      cql_slice_map = (\<lambda>_ _ _ w. (Inr [], Suc w)),
      fs_stat = (\<lambda>p w. Inr \<lparr>fi_name = p, fi_is_dir = False\<rparr>),
      fs_read_dir = (\<lambda>_ _. Inr []), fs_read_file = (\<lambda>p _. Inr p), fs_abs = (\<lambda>p _. Inr p),
      os_environ = (\<lambda>_. [''HOME=/root'', ''SHELL'']),
      yaml_to_json = Inr, sha256_hex = id,
      redirect_url = (\<lambda>r p. p), mux_path = (\<lambda>t p. if t = p then Some [] else None), os_chdir = (\<lambda>_ w. (None, w))\<rparr>"

definition sample_request :: request where
  "sample_request =
     \<lparr>rq_method = ''GET'', rq_path = ''/x'', rq_header = [],
      rq_query = [(''id'', ['' 42 ''])], rq_vars = [], rq_body = None\<rparr>"

end
