(* ===== verification/Go_Decode.thy ===== *)
theory Go_Decode
  imports World
begin

text \<open>
  \<open>json.Unmarshal\<close> into structs, as the configuration uses it: a member goes to the field of
  that name, or to one that differs in letter case only; unknown members are ignored; null
  leaves a field as it is (and sets a pointer or slice to nil); a value of the wrong kind is
  an error.  Decoding continues after such an error, but every caller drops the struct then,
  so the model stops at the first one.  A pointer is an option, nil being \<open>None\<close>: a null inside
  an array or map of pointers is kept as a nil pointer.
\<close>

section \<open>Field names\<close>

text \<open>
  The key with the Kelvin sign and the long s replaced by \<open>k\<close> and \<open>s\<close> (the two non-ASCII
  letters \<open>encoding/json\<close> folds) and ASCII letters in lower case.
\<close>

fun fold_key :: "string \<Rightarrow> string" where
  "fold_key [] = []"
| "fold_key (c # r) =
     (case (c # r) of
        x # y # z # t \<Rightarrow>
          (if x = CHR 0xE2 \<and> y = CHR 0x84 \<and> z = CHR 0xAA then CHR ''k'' # fold_key t
           else if x = CHR 0xC5 \<and> y = CHR 0xBF then CHR ''s'' # fold_key (z # t)
           else lower_char c # fold_key r)
      | x # y # [] \<Rightarrow>
          (if x = CHR 0xC5 \<and> y = CHR 0xBF then ''s'' else lower_char c # fold_key r)
      | _ \<Rightarrow> lower_char c # fold_key r)"

type_synonym 'c fields = "(string \<times> (json \<Rightarrow> 'c \<Rightarrow> 'c result)) list"

definition find_field :: "'c fields \<Rightarrow> string \<Rightarrow> (json \<Rightarrow> 'c \<Rightarrow> 'c result) option" where
  "find_field fs key =
     (case map_of fs key of
        Some f \<Rightarrow> Some f
      | None \<Rightarrow> map_option snd (find (\<lambda>(n, f). fold_key key = n) fs))"

fun decode_struct :: "'c fields \<Rightarrow> (string \<times> json) list \<Rightarrow> 'c \<Rightarrow> 'c result" where
  "decode_struct fs [] c = Inr c"
| "decode_struct fs ((k, j) # ms) c =
     (case find_field fs k of
        None \<Rightarrow> decode_struct fs ms c
      | Some f \<Rightarrow> (case f j c of Inl e \<Rightarrow> Inl e | Inr c' \<Rightarrow> decode_struct fs ms c'))"

definition decode_value :: "'c fields \<Rightarrow> json \<Rightarrow> 'c \<Rightarrow> 'c result" where
  "decode_value fs j c =
     (case j of JNull \<Rightarrow> Inr c | JObj ms \<Rightarrow> decode_struct fs ms c | _ \<Rightarrow> Inl type_error)"

definition unmarshal :: "'c fields \<Rightarrow> string \<Rightarrow> 'c \<Rightarrow> 'c result" where
  "unmarshal fs raw c =
     (case parse_json raw of None \<Rightarrow> Inl syntax_error | Some j \<Rightarrow> decode_value fs j c)"

section \<open>Basic kinds\<close>

definition dec_string :: "json \<Rightarrow> string \<Rightarrow> string result" where
  "dec_string j old = (case j of JNull \<Rightarrow> Inr old | JStr s \<Rightarrow> Inr s | _ \<Rightarrow> Inl type_error)"

definition dec_bool :: "json \<Rightarrow> bool \<Rightarrow> bool result" where
  "dec_bool j old = (case j of JNull \<Rightarrow> Inr old | JBool b \<Rightarrow> Inr b | _ \<Rightarrow> Inl type_error)"

definition digits_val :: "string \<Rightarrow> nat" where
  "digits_val s = foldl (\<lambda>n c. 10 * n + (byte c - 48)) 0 s"

text \<open>\<open>strconv.ParseInt\<close> of a JSON number literal, within 64 bits.\<close>

definition parse_int64 :: "string \<Rightarrow> int option" where
  "parse_int64 s =
     (let (neg, ds) = (case s of [] \<Rightarrow> (False, []) | c # r \<Rightarrow> (if c = CHR ''-'' then (True, r) else (False, s)));
          n = (if neg then - int (digits_val ds) else int (digits_val ds))
      in if ds \<noteq> [] \<and> list_all is_digit ds \<and> - (2 ^ 63) \<le> n \<and> n < 2 ^ 63 then Some n else None)"

definition dec_int :: "json \<Rightarrow> int \<Rightarrow> int result" where
  "dec_int j old =
     (case j of
        JNull \<Rightarrow> Inr old
      | JNum l \<Rightarrow> (case parse_int64 l of Some n \<Rightarrow> Inr n | None \<Rightarrow> Inl type_error)
      | _ \<Rightarrow> Inl type_error)"

text \<open>\<open>*int\<close>.\<close>

definition dec_int_ptr :: "json \<Rightarrow> int option \<Rightarrow> int option result" where
  "dec_int_ptr j old =
     (case j of
        JNull \<Rightarrow> Inr None
      | _ \<Rightarrow> (case dec_int j 0 of Inl e \<Rightarrow> Inl e | Inr n \<Rightarrow> Inr (Some n)))"

text \<open>\<open>[]string\<close>: a null element leaves what the slice held at that place.\<close>

fun dec_string_elems :: "json list \<Rightarrow> string list \<Rightarrow> string list result" where
  "dec_string_elems [] old = Inr []"
| "dec_string_elems (j # js) old =
     (case dec_string j (case old of [] \<Rightarrow> [] | o1 # _ \<Rightarrow> o1) of
        Inl e \<Rightarrow> Inl e
      | Inr s \<Rightarrow> (case dec_string_elems js (tl old) of Inl e \<Rightarrow> Inl e | Inr ss \<Rightarrow> Inr (s # ss)))"

definition dec_strings :: "json \<Rightarrow> string list \<Rightarrow> string list result" where
  "dec_strings j old =
     (case j of JNull \<Rightarrow> Inr [] | JArr js \<Rightarrow> dec_string_elems js old | _ \<Rightarrow> Inl type_error)"

text \<open>\<open>map[string]string\<close>: members are added to the map; a null member stores "".\<close>

fun dec_string_members :: "(string \<times> json) list \<Rightarrow> (string \<times> string) list \<Rightarrow> (string \<times> string) list result"
where
  "dec_string_members [] m = Inr m"
| "dec_string_members ((k, j) # ms) m =
     (case dec_string j [] of
        Inl e \<Rightarrow> Inl e
      | Inr s \<Rightarrow> dec_string_members ms (AList.update k s m))"

definition dec_string_map :: "json \<Rightarrow> (string \<times> string) list \<Rightarrow> (string \<times> string) list result" where
  "dec_string_map j old =
     (case j of JNull \<Rightarrow> Inr [] | JObj ms \<Rightarrow> dec_string_members ms old | _ \<Rightarrow> Inl type_error)"

text \<open>Decoding an array into a slice reuses the elements the slice already holds.\<close>

fun dec_elems :: "(json \<Rightarrow> 'c \<Rightarrow> 'c result) \<Rightarrow> 'c \<Rightarrow> json list \<Rightarrow> 'c list \<Rightarrow> 'c list result" where
  "dec_elems dec zero [] old = Inr []"
| "dec_elems dec zero (j # js) old =
     (case dec j (case old of [] \<Rightarrow> zero | o1 # _ \<Rightarrow> o1) of
        Inl e \<Rightarrow> Inl e
      | Inr c \<Rightarrow>
          (case dec_elems dec zero js (tl old) of Inl e \<Rightarrow> Inl e | Inr cs \<Rightarrow> Inr (c # cs)))"

definition dec_slice :: "(json \<Rightarrow> 'c \<Rightarrow> 'c result) \<Rightarrow> 'c \<Rightarrow> json \<Rightarrow> 'c list \<Rightarrow> 'c list result" where
  "dec_slice dec zero j old =
     (case j of JNull \<Rightarrow> Inr [] | JArr js \<Rightarrow> dec_elems dec zero js old | _ \<Rightarrow> Inl type_error)"

text \<open>A map of structs or of pointers: every member is decoded into a zero value and stored.\<close>

fun dec_map_members ::
  "(json \<Rightarrow> 'c \<Rightarrow> 'c result) \<Rightarrow> 'c \<Rightarrow> (string \<times> json) list \<Rightarrow> (string \<times> 'c) list
     \<Rightarrow> (string \<times> 'c) list result" where
  "dec_map_members dec zero [] m = Inr m"
| "dec_map_members dec zero ((k, j) # ms) m =
     (case dec j zero of
        Inl e \<Rightarrow> Inl e
      | Inr c \<Rightarrow> dec_map_members dec zero ms (AList.update k c m))"

definition dec_map ::
  "(json \<Rightarrow> 'c \<Rightarrow> 'c result) \<Rightarrow> 'c \<Rightarrow> json \<Rightarrow> (string \<times> 'c) list \<Rightarrow> (string \<times> 'c) list result" where
  "dec_map dec zero j old =
     (case j of JNull \<Rightarrow> Inr [] | JObj ms \<Rightarrow> dec_map_members dec zero ms old | _ \<Rightarrow> Inl type_error)"

text \<open>A pointer to a struct: null is nil, an object is decoded into what it points to.\<close>

definition dec_ptr :: "'c fields \<Rightarrow> 'c \<Rightarrow> json \<Rightarrow> 'c option \<Rightarrow> 'c option result" where
  "dec_ptr fs zero j old =
     (case j of
        JNull \<Rightarrow> Inr None
      | _ \<Rightarrow>
          (case decode_value fs j (case old of None \<Rightarrow> zero | Some c \<Rightarrow> c) of
             Inl e \<Rightarrow> Inl e
           | Inr c \<Rightarrow> Inr (Some c)))"

text \<open>
  \<open>json.RawMessage\<close>: the document itself, kept for a later \<open>Unmarshal\<close>; \<open>None\<close> is the nil
  message, which is not a JSON text.
\<close>

definition dec_raw :: "json \<Rightarrow> json option \<Rightarrow> json option result" where
  "dec_raw j old = Inr (Some j)"

definition unmarshal_raw :: "'c fields \<Rightarrow> json option \<Rightarrow> 'c \<Rightarrow> 'c result" where
  "unmarshal_raw fs raw c =
     (case raw of None \<Rightarrow> Inl syntax_error | Some j \<Rightarrow> decode_value fs j c)"

text \<open>Set a field with the decoder of its kind.\<close>

definition field :: "('c \<Rightarrow> 'a) \<Rightarrow> ('a \<Rightarrow> 'c \<Rightarrow> 'c) \<Rightarrow> (json \<Rightarrow> 'a \<Rightarrow> 'a result) \<Rightarrow> json \<Rightarrow> 'c \<Rightarrow> 'c result"
where
  "field getf setf dec j c =
     (case dec j (getf c) of Inl e \<Rightarrow> Inl e | Inr v \<Rightarrow> Inr (setf v c))"

section \<open>Invariants of decoding\<close>

lemma find_field_mem: "find_field fs k = Some f \<Longrightarrow> f \<in> snd ` set fs"
  by (auto simp: find_field_def find_Some_iff image_iff split: option.splits
      dest!: map_of_SomeD intro: nth_mem bexI) (metis nth_mem snd_conv)+

text \<open>What every field keeps, decoding a struct keeps.\<close>

lemma decode_struct_inv:
  assumes "\<And>f j c c'. f \<in> snd ` set fs \<Longrightarrow> P c \<Longrightarrow> f j c = Inr c' \<Longrightarrow> P c'"
  shows "decode_struct fs ms c = Inr c' \<Longrightarrow> P c \<Longrightarrow> P c'"
proof (induction ms arbitrary: c)
  case Nil
  then show ?case by simp
next
  case (Cons m ms)
  obtain k j where m: "m = (k, j)" by (cases m)
  show ?case
  proof (cases "find_field fs k")
    case None
    with Cons m show ?thesis by simp
  next
    case (Some f)
    with Cons.prems(1) m obtain c1 where c1: "f j c = Inr c1" "decode_struct fs ms c1 = Inr c'"
      by (auto split: sum.splits)
    from assms [OF find_field_mem [OF Some] Cons.prems(2) c1(1)] Cons.IH [OF c1(2)] show ?thesis by simp
  qed
qed

lemma unmarshal_raw_inv:
  assumes "\<And>f j c c'. f \<in> snd ` set fs \<Longrightarrow> P c \<Longrightarrow> f j c = Inr c' \<Longrightarrow> P c'"
    and "unmarshal_raw fs raw c = Inr c'" and "P c"
  shows "P c'"
proof -
  have step: "P c'" if "decode_struct fs ms c = Inr c'" for ms
    by (rule decode_struct_inv [where P = P, OF _ that assms(3)]) (rule assms(1))
  from assms(2) obtain j where j: "decode_value fs j c = Inr c'"
    by (cases raw) (auto simp: unmarshal_raw_def)
  show ?thesis
  proof (cases j)
    case (JObj ms)
    with j have "decode_struct fs ms c = Inr c'" by (simp add: decode_value_def)
    then show ?thesis by (rule step)
  qed (use j assms(3) in \<open>simp_all add: decode_value_def\<close>)
qed

lemma field_Inr:
  "field getf setf dec j c = Inr c' \<longleftrightarrow> (\<exists>v. dec j (getf c) = Inr v \<and> c' = setf v c)"
  by (cases "dec j (getf c)") (auto simp: field_def)

end
