(* ===== verification/Go_Path.thy ===== *)
theory Go_Path
  imports Go_Strings
begin

text \<open>
  \<open>path/filepath\<close> on Unix: \<open>Clean\<close>, \<open>Join\<close> of two elements, \<open>Split\<close> and \<open>Dir\<close>.
\<close>

abbreviation slash :: char where "slash \<equiv> CHR ''/''"

text \<open>
  The elements that stay, last first: empty elements and "." go, ".." removes the element
  before it, is dropped at a root, and stays at the front of a relative path.
\<close>

fun clean_elems :: "bool \<Rightarrow> string list \<Rightarrow> string list \<Rightarrow> string list" where
  "clean_elems rooted acc [] = rev acc"
| "clean_elems rooted acc (e # es) =
     (if e = [] \<or> e = ''.'' then clean_elems rooted acc es
      else if e = ''..'' then
        (case acc of
           [] \<Rightarrow> (if rooted then clean_elems rooted [] es else clean_elems rooted [e] es)
         | a # acc' \<Rightarrow>
             (if a = ''..'' then clean_elems rooted (e # acc) es
              else clean_elems rooted acc' es))
      else clean_elems rooted (e # acc) es)"

definition is_rooted :: "string \<Rightarrow> bool" where
  "is_rooted p = (case p of [] \<Rightarrow> False | c # _ \<Rightarrow> c = slash)"

definition path_elems :: "string \<Rightarrow> string list" where
  "path_elems p = clean_elems (is_rooted p) [] (split_on slash p)"

definition Clean :: "string \<Rightarrow> string" where
  "Clean p =
     (let es = path_elems p in
      if is_rooted p then slash # join_with slash es
      else if es = [] then ''.'' else join_with slash es)"

definition Join :: "string \<Rightarrow> string \<Rightarrow> string" where
  "Join a b =
     (if a \<noteq> [] then Clean (a @ slash # b) else if b \<noteq> [] then Clean b else [])"

text \<open>Directory part (with its slash) and file part.\<close>

definition Split :: "string \<Rightarrow> string \<times> string" where
  "Split p =
     (rev (dropWhile (\<lambda>c. c \<noteq> slash) (rev p)), rev (takeWhile (\<lambda>c. c \<noteq> slash) (rev p)))"

definition Dir :: "string \<Rightarrow> string" where
  "Dir p = Clean (fst (Split p))"

text \<open>
  \<open>cleanPath\<close> of gorilla/mux: the canonical path of a request, which keeps a slash at the end
  (\<open>path.Clean\<close> and \<open>filepath.Clean\<close> are the same on Unix).
\<close>

definition cleanPath :: "string \<Rightarrow> string" where
  "cleanPath p0 =
     (if p0 = [] then [slash]
      else
        (let p = (if hd p0 \<noteq> slash then slash # p0 else p0);
             np = Clean p
         in if last p = slash \<and> np \<noteq> [slash] then np @ [slash] else np))"

section \<open>Elements of a cleaned path\<close>

definition plain_elem :: "string \<Rightarrow> bool" where
  "plain_elem e \<longleftrightarrow> e \<noteq> [] \<and> e \<noteq> ''.'' \<and> e \<noteq> ''..'' \<and> slash \<notin> set e"

definition up_elems :: "string list \<Rightarrow> bool" where
  "up_elems es \<longleftrightarrow> (\<forall>e \<in> set es. e = ''..'')"

text \<open>A canonical element list: leading ".." (none under a root), then plain names.\<close>

definition canonical :: "bool \<Rightarrow> string list \<Rightarrow> bool" where
  "canonical rooted es \<longleftrightarrow>
     (\<exists>us ps. es = us @ ps \<and> up_elems us \<and> (rooted \<longrightarrow> us = []) \<and> list_all plain_elem ps)"

lemma canonicalI:
  "up_elems us \<Longrightarrow> (rooted \<Longrightarrow> us = []) \<Longrightarrow> list_all plain_elem ps \<Longrightarrow> canonical rooted (us @ ps)"
  unfolding canonical_def by blast

lemma canonicalE:
  assumes "canonical rooted es"
  obtains us ps where "es = us @ ps" "up_elems us" "rooted \<Longrightarrow> us = []" "list_all plain_elem ps"
  using assms unfolding canonical_def by blast

lemma canonical_Nil [simp]: "canonical rooted []"
  using canonicalI [of "[]" rooted "[]"] by (simp add: up_elems_def)

lemma canonical_up: "up_elems us \<Longrightarrow> canonical False us"
  using canonicalI [of us False "[]"] by simp

lemma canonical_snoc_plain:
  assumes "canonical rooted es" and "plain_elem e"
  shows "canonical rooted (es @ [e])"
proof -
  from assms(1) obtain us ps where "es = us @ ps" "up_elems us" "rooted \<Longrightarrow> us = []"
    "list_all plain_elem ps" by (rule canonicalE) blast
  with assms(2) canonicalI [of us rooted "ps @ [e]"] show ?thesis by simp
qed

lemma canonical_butlast: "canonical rooted (es @ [e]) \<Longrightarrow> canonical rooted es"
proof -
  assume "canonical rooted (es @ [e])"
  then obtain us ps where e: "es @ [e] = us @ ps" and u: "up_elems us"
    and r: "rooted \<longrightarrow> us = []" and p: "list_all plain_elem ps" by (auto simp: canonical_def)
  show ?thesis
  proof (cases ps rule: rev_cases)
    case Nil
    with e have "us = es @ [e]" by simp
    with u r have "\<not> rooted" "up_elems es" by (auto simp: up_elems_def)
    then show ?thesis by (simp add: canonical_up)
  next
    case (snoc ps' x)
    with e p have "es = us @ ps'" "list_all plain_elem ps'" by auto
    with u r canonicalI [of us rooted ps'] show ?thesis by simp
  qed
qed

lemma canonical_snoc_up:
  "canonical False es \<Longrightarrow> es = [] \<or> last es = ''..'' \<Longrightarrow> canonical False (es @ [''..''])"
proof -
  assume "canonical False es" and l: "es = [] \<or> last es = ''..''"
  then obtain us ps where e: "es = us @ ps" and u: "up_elems us" and p: "list_all plain_elem ps"
    by (auto simp: canonical_def)
  have "ps = []"
  proof (cases ps rule: rev_cases)
    case (snoc ps' x)
    with p l e show ?thesis by (auto simp: plain_elem_def)
  qed
  with e u have "up_elems (es @ [''..''])" by (simp add: up_elems_def)
  then show ?thesis by (rule canonical_up)
qed

lemma canonical_rooted_no_up: "canonical True es \<Longrightarrow> ''..'' \<notin> set es"
  by (auto simp: canonical_def plain_elem_def list_all_iff)

lemma clean_elems_canonical:
  assumes "canonical rooted (rev acc)" and "\<forall>e \<in> set es. slash \<notin> set e"
  shows "canonical rooted (clean_elems rooted acc es)"
  using assms
proof (induction rooted acc es rule: clean_elems.induct)
  case (1 rooted acc)
  then show ?case by simp
next
  case (2 rooted acc e es)
  show ?case
  proof (cases "e = [] \<or> e = ''.''")
    case True
    with 2 show ?thesis by auto
  next
    case plain: False
    show ?thesis
    proof (cases "e = ''..''")
      case False
      with plain "2.prems" have "canonical rooted (rev (e # acc))"
        by (auto intro: canonical_snoc_plain simp: plain_elem_def)
      with plain False 2 show ?thesis by auto
    next
      case up: True
      show ?thesis
      proof (cases acc)
        case Nil
        have "canonical False (rev [''..''])" using canonical_snoc_up [of "[]"] by simp
        with 2 plain up Nil show ?thesis by (cases rooted) auto
      next
        case (Cons a acc')
        show ?thesis
        proof (cases "a = ''..''")
          case True
          with Cons "2.prems"(1) have "\<not> rooted" using canonical_rooted_no_up by (cases rooted) fastforce+
          with True Cons up "2.prems"(1) have "canonical rooted (rev (e # acc))"
            using canonical_snoc_up [of "rev acc"] by (simp add: last_rev)
          with 2 up Cons True plain show ?thesis by auto
        next
          case False
          from Cons "2.prems"(1) have "canonical rooted (rev acc')"
            using canonical_butlast by auto
          with 2 up Cons False plain show ?thesis by auto
        qed
      qed
    qed
  qed
qed

lemma path_elems_canonical: "canonical (is_rooted p) (path_elems p)"
  unfolding path_elems_def using split_on_parts by (intro clean_elems_canonical) auto

lemma clean_elems_append:
  assumes "\<forall>e \<in> set fs. e \<noteq> ''..''"
  shows "clean_elems rooted acc (es @ fs) =
           clean_elems rooted acc es @ filter (\<lambda>e. e \<noteq> [] \<and> e \<noteq> ''.'') fs"
proof -
  have base: "clean_elems rooted acc fs = rev acc @ filter (\<lambda>e. e \<noteq> [] \<and> e \<noteq> ''.'') fs"
    for rooted acc using assms by (induction fs arbitrary: acc) auto
  show ?thesis
    by (induction rooted acc es rule: clean_elems.induct) (auto simp: base split: list.splits)
qed

lemma clean_elems_canonical_id:
  assumes "canonical rooted es"
  shows "clean_elems rooted [] es = es"
proof -
  from assms obtain us ps where e: "es = us @ ps" and u: "up_elems us"
    and r: "rooted \<longrightarrow> us = []" and p: "list_all plain_elem ps" by (auto simp: canonical_def)
  have ups: "clean_elems False acc us = rev acc @ us" if "up_elems us" "up_elems acc" for us acc
    using that by (induction us arbitrary: acc) (auto simp: up_elems_def split: list.splits)
  have "clean_elems rooted [] us = us" using u r ups [of us "[]"]
    by (cases rooted) (auto simp: up_elems_def)
  moreover have "filter (\<lambda>e. e \<noteq> [] \<and> e \<noteq> ''.'') ps = ps"
    using p by (auto simp: filter_id_conv list_all_iff plain_elem_def)
  moreover have "\<forall>e \<in> set ps. e \<noteq> ''..''" using p by (auto simp: list_all_iff plain_elem_def)
  ultimately show ?thesis using clean_elems_append [of ps rooted "[]" us] e by simp
qed

lemma canonical_no_slash: "canonical rooted es \<Longrightarrow> \<forall>e \<in> set es. slash \<notin> set e"
proof (erule canonicalE)
  fix us ps
  assume "es = us @ ps" "up_elems us" "list_all plain_elem ps"
  moreover have "slash \<notin> set ''..''" by simp
  ultimately show "\<forall>e \<in> set es. slash \<notin> set e"
    unfolding up_elems_def plain_elem_def list_all_iff by (metis Un_iff set_append)
qed

lemma canonical_nonempty: "canonical rooted es \<Longrightarrow> \<forall>e \<in> set es. e \<noteq> [] \<and> e \<noteq> ''.''"
  by (auto simp: canonical_def up_elems_def plain_elem_def list_all_iff)

lemma join_with_hd:
  assumes "es \<noteq> []" and "\<forall>e \<in> set es. e \<noteq> [] \<and> c \<notin> set e"
  shows "\<exists>x r. join_with c es = x # r \<and> x \<noteq> c"
proof (cases es)
  case (Cons e fs)
  with assms obtain x r where "e = x # r" "x \<noteq> c" by (cases e) auto
  with Cons show ?thesis by (cases fs) auto
qed (use assms in simp)

text \<open>The elements of a cleaned path are the path's, so cleaning twice is cleaning once.\<close>

lemma is_rooted_Clean: "is_rooted (Clean p) = is_rooted p"
proof (cases "is_rooted p")
  case True
  then show ?thesis by (simp add: Clean_def Let_def is_rooted_def)
next
  case False
  show ?thesis
  proof (cases "path_elems p = []")
    case True
    with False show ?thesis by (simp add: Clean_def is_rooted_def)
  next
    case ne: False
    have "\<forall>e \<in> set (path_elems p). e \<noteq> [] \<and> slash \<notin> set e"
      using path_elems_canonical canonical_no_slash canonical_nonempty by blast
    from join_with_hd [OF ne this] False ne show ?thesis
      by (auto simp: Clean_def Let_def is_rooted_def)
  qed
qed

lemma path_elems_Clean: "path_elems (Clean p) = path_elems p"
proof -
  let ?es = "path_elems p"
  have c: "canonical (is_rooted p) ?es" by (rule path_elems_canonical)
  have id: "clean_elems (is_rooted p) [] ?es = ?es" using c by (rule clean_elems_canonical_id)
  have split: "split_on slash (join_with slash ?es) = ?es" if "?es \<noteq> []"
    using that canonical_no_slash [OF c] by (rule split_join)
  consider "is_rooted p" "?es = []" | "is_rooted p" "?es \<noteq> []" | "\<not> is_rooted p" "?es = []"
    | "\<not> is_rooted p" "?es \<noteq> []" by blast
  then show ?thesis
  proof cases
    case 1
    then have "Clean p = [slash]" by (simp add: Clean_def)
    with 1 show ?thesis by (simp add: path_elems_def [of "[slash]"])
  next
    case 2
    then have "split_on slash (Clean p) = [] # ?es" by (simp add: Clean_def Let_def split)
    with 2 id show ?thesis
      by (simp add: path_elems_def [of "Clean p"] is_rooted_Clean)
  next
    case 3
    then have "Clean p = ''.''" by (simp add: Clean_def)
    with 3 show ?thesis by (simp add: path_elems_def [of "''.''"] is_rooted_def)
  next
    case 4
    then have "split_on slash (Clean p) = ?es" by (simp add: Clean_def Let_def split)
    with 4 id show ?thesis by (simp add: path_elems_def [of "Clean p"] is_rooted_Clean)
  qed
qed

lemma Clean_idem: "Clean (Clean p) = Clean p"
  unfolding Clean_def [of "Clean p"] path_elems_Clean is_rooted_Clean by (simp add: Clean_def)

lemma split_on_append: "split_on c (a @ c # b) = split_on c a @ split_on c b"
  by (induction a) (auto split: list.splits)

lemma path_elems_Join:
  assumes "a \<noteq> []"
  shows "path_elems (Join a b) = clean_elems (is_rooted a) [] (split_on slash a @ split_on slash b)"
    and "is_rooted (Join a b) = is_rooted a"
proof -
  have r: "is_rooted (a @ slash # b) = is_rooted a" using assms by (cases a) (auto simp: is_rooted_def)
  have "path_elems (Join a b) = path_elems (a @ slash # b)"
    using assms by (simp add: Join_def path_elems_Clean)
  with r show "path_elems (Join a b) = clean_elems (is_rooted a) [] (split_on slash a @ split_on slash b)"
    by (simp add: path_elems_def [of "a @ slash # b"] split_on_append)
  show "is_rooted (Join a b) = is_rooted a" using assms r by (simp add: Join_def is_rooted_Clean)
qed

text \<open>A name without ".." stays below the directory it is joined to.\<close>

lemma path_elems_Join_below:
  assumes "a \<noteq> []" and "''..'' \<notin> set (split_on slash b)"
  shows "path_elems (Join a b) =
           path_elems a @ filter (\<lambda>e. e \<noteq> [] \<and> e \<noteq> ''.'') (split_on slash b)"
  using assms path_elems_Join(1) [of a b] clean_elems_append [of "split_on slash b" "is_rooted a" "[]" "split_on slash a"]
  by (auto simp: path_elems_def)

text \<open>Each ".." at the front of a name removes one element of the rooted path it is joined to.\<close>

lemma clean_elems_split:
  "clean_elems rooted acc (es @ fs) = clean_elems rooted (rev (clean_elems rooted acc es)) fs"
  by (induction rooted acc es rule: clean_elems.induct) (auto split: list.splits)

lemma clean_elems_ups:
  "''..'' \<notin> set acc \<Longrightarrow>
     clean_elems True acc (replicate n ''..'' @ fs) = clean_elems True (drop n acc) fs"
proof (induction n arbitrary: acc)
  case (Suc n)
  then show ?case by (cases acc) auto
qed simp

lemma path_elems_Join_climb:
  assumes "is_rooted a" and "split_on slash b = replicate n ''..'' @ fs" and "''..'' \<notin> set fs"
  shows "path_elems (Join a b) =
           take (length (path_elems a) - n) (path_elems a) @ filter (\<lambda>e. e \<noteq> [] \<and> e \<noteq> ''.'') fs"
proof -
  from assms(1) have a: "a \<noteq> []" by (auto simp: is_rooted_def)
  have up: "''..'' \<notin> set (rev (path_elems a))"
    using path_elems_canonical [of a] canonical_rooted_no_up assms(1) by auto
  have "path_elems (Join a b) = clean_elems True (rev (path_elems a)) (replicate n ''..'' @ fs)"
    using assms(1,2) path_elems_Join(1) [OF a, of b] by (simp add: clean_elems_split path_elems_def)
  also have "\<dots> = clean_elems True (rev (take (length (path_elems a) - n) (path_elems a))) fs"
    by (simp add: clean_elems_ups [OF up] drop_rev)
  finally show ?thesis
    using clean_elems_append [of fs True "rev (take (length (path_elems a) - n) (path_elems a))" "[]"] assms(3)
    by fastforce
qed

lemma Clean_Join: "Clean (Join a b) = Join a b" if "a \<noteq> []"
  using that by (simp add: Join_def Clean_idem)

lemma Split_append: "fst (Split p) @ snd (Split p) = p"
  unfolding Split_def fst_conv snd_conv rev_append [symmetric] takeWhile_dropWhile_id by simp

lemma Split_file_no_slash: "slash \<notin> set (snd (Split p))"
  by (auto simp: Split_def dest: set_takeWhileD)

section \<open>The canonical path of a request\<close>

text \<open>The elements of a canonical path: plain names after the root, and a slash at the end or not.\<close>

definition canonical_path :: "string list \<Rightarrow> string \<Rightarrow> bool" where
  "canonical_path es p \<longleftrightarrow>
     list_all plain_elem es \<and>
     (p = slash # join_with slash es \<or> es \<noteq> [] \<and> p = slash # join_with slash es @ [slash])"

lemma canonical_path_parts:
  assumes "canonical_path es p"
  shows "set (split_on slash p) \<subseteq> insert [] (set es)" and "path_elems p = es" and "hd p = slash"
proof -
  have s: "split_on slash (slash # join_with slash es) = [] # (if es = [] then [[]] else es)"
    if "list_all plain_elem es"
    using that by (cases "es = []") (auto simp: list_all_iff plain_elem_def)
  have f: "filter (\<lambda>e. e \<noteq> [] \<and> e \<noteq> ''.'') es = es" "''..'' \<notin> set es" if "list_all plain_elem es"
    using that by (induction es) (auto simp: plain_elem_def)
  from assms have es: "list_all plain_elem es" by (simp add: canonical_path_def)
  obtain t where t: "split_on slash p = [] # es @ t" "set t \<subseteq> {[]}"
    using assms s [OF es] split_on_snoc_sep [of slash "slash # join_with slash es"]
    by (auto simp: canonical_path_def split: if_splits)
  then show "set (split_on slash p) \<subseteq> insert [] (set es)" by auto
  from assms show "hd p = slash" by (auto simp: canonical_path_def)
  then have "is_rooted p" using assms by (auto simp: canonical_path_def is_rooted_def)
  then have "path_elems p = clean_elems True [] ([] @ ([] # es @ t))" by (simp add: path_elems_def t(1))
  also have "\<dots> = clean_elems True [] [] @ filter (\<lambda>e. e \<noteq> [] \<and> e \<noteq> ''.'') ([] # es @ t)"
    using f(2) [OF es] t(2) by (intro clean_elems_append) auto
  also have "\<dots> = es" using f(1) [OF es] t(2) by (auto simp: filter_empty_conv)
  finally show "path_elems p = es" .
qed

lemma cleanPath_canonical: "\<exists>es. canonical_path es (cleanPath p)"
proof (cases "p = []")
  case True
  then show ?thesis by (intro exI [of _ "[]"]) (simp add: cleanPath_def canonical_path_def)
next
  case False
  define q where "q = (if hd p \<noteq> slash then slash # p else p)"
  have r: "is_rooted q" using False by (cases p) (auto simp: q_def is_rooted_def)
  with path_elems_canonical [of q] have "list_all plain_elem (path_elems q)" by (auto simp: canonical_def)
  with r False show ?thesis
    by (intro exI [of _ "path_elems q"])
      (auto simp: cleanPath_def q_def [symmetric] Let_def Clean_def canonical_path_def)
qed

text \<open>A canonical path stays as it is, so a client is redirected at most once.\<close>

lemma plain_join_last: "list_all plain_elem es \<Longrightarrow> es \<noteq> [] \<Longrightarrow> last (slash # join_with slash es) \<noteq> slash"
  by (induction slash es rule: join_with.induct) (auto simp: plain_elem_def dest: last_in_set split: if_splits)

lemma cleanPath_fixed:
  assumes "canonical_path es p"
  shows "cleanPath p = p"
proof -
  note c = canonical_path_parts [OF assms]
  from assms have p: "p \<noteq> []" "is_rooted p" by (auto simp: canonical_path_def is_rooted_def)
  then have "Clean p = slash # join_with slash es" using c(2) by (simp add: Clean_def)
  then show ?thesis
    using assms p(1) c(3) plain_join_last [of es]
    by (cases "es = []") (auto simp: cleanPath_def Let_def canonical_path_def)
qed

lemma cleanPath_again: "cleanPath (cleanPath p) = cleanPath p"
  using cleanPath_canonical cleanPath_fixed by blast

end
