(* ===== verification/Config.thy ===== *)
theory Config
  imports Go_Decode Go_Path
begin

text \<open>
  \<open>config.go\<close>: the configuration records, how they are decoded from a file, their validation,
  and the query parameters of a request that the configuration lets through.
\<close>

section \<open>Records\<close>

text \<open>
  \<open>qp_compiled\<close> is the pattern the compiled regular expression was made from.  The elements of
  a slice or map of pointers are options: a null in the file makes a nil pointer.
\<close>

record query_param =
  qp_name :: string
  qp_regexp :: string
  qp_default :: string
  qp_compiled :: "string option"

record query_params =
  qs_return_params :: bool
  qs_params :: "query_param option list"

text \<open>\<open>tc_config\<close> is the \<open>json.RawMessage\<close> of the task, as a document.\<close>

record task_config =
  tc_type :: string
  tc_authorizers :: "string list"
  tc_config :: "json option"
  tc_query_params :: "query_params option"
  tc_description :: string

record endpoint_config =
  ec_authorizers :: "string list"
  ec_path :: string
  ec_methods :: "(string \<times> task_config) list"
  ec_type :: string
  ec_query_params :: "query_params option"
  ec_raw_response :: bool

record authorizer_config =
  ac_type :: string
  ac_config :: "json option"

record ssl_config =
  ssl_cert :: string
  ssl_key :: string

record config =
  cf_host :: string
  cf_port :: int
  cf_ssl :: "ssl_config option"
  cf_pretty_json :: bool
  cf_authorizers :: "(string \<times> authorizer_config option) list"
  cf_endpoints :: "endpoint_config option list"
  cf_reload_env :: bool
  cf_directory :: string

definition zero_task_config :: task_config where
  "zero_task_config =
     \<lparr>tc_type = [], tc_authorizers = [], tc_config = None, tc_query_params = None,
      tc_description = []\<rparr>"

definition NewConfig :: config where
  "NewConfig =
     \<lparr>cf_host = ''0.0.0.0'', cf_port = 9980, cf_ssl = None, cf_pretty_json = False,
      cf_authorizers = [], cf_endpoints = [], cf_reload_env = False, cf_directory = []\<rparr>"

section \<open>Decoding\<close>

definition query_param_fields :: "query_param fields" where
  "query_param_fields =
     [(''name'', field qp_name (\<lambda>v. qp_name_update (\<lambda>_. v)) dec_string),
      (''regexp'', field qp_regexp (\<lambda>v. qp_regexp_update (\<lambda>_. v)) dec_string),
      (''default'', field qp_default (\<lambda>v. qp_default_update (\<lambda>_. v)) dec_string)]"

definition query_params_fields :: "query_params fields" where
  "query_params_fields =
     [(''return_params'', field qs_return_params (\<lambda>v. qs_return_params_update (\<lambda>_. v)) dec_bool),
      (''params'', field qs_params (\<lambda>v. qs_params_update (\<lambda>_. v))
         (dec_slice (dec_ptr query_param_fields
           \<lparr>qp_name = [], qp_regexp = [], qp_default = [], qp_compiled = None\<rparr>) None))]"

definition dec_query_params :: "json \<Rightarrow> query_params option \<Rightarrow> query_params option result" where
  "dec_query_params = dec_ptr query_params_fields \<lparr>qs_return_params = False, qs_params = []\<rparr>"

definition task_config_fields :: "task_config fields" where
  "task_config_fields =
     [(''type'', field tc_type (\<lambda>v. tc_type_update (\<lambda>_. v)) dec_string),
      (''authorizers'', field tc_authorizers (\<lambda>v. tc_authorizers_update (\<lambda>_. v)) dec_strings),
      (''config'', field tc_config (\<lambda>v. tc_config_update (\<lambda>_. v)) dec_raw),
      (''query_params'', field tc_query_params (\<lambda>v. tc_query_params_update (\<lambda>_. v)) dec_query_params),
      (''description'', field tc_description (\<lambda>v. tc_description_update (\<lambda>_. v)) dec_string)]"

definition endpoint_fields :: "endpoint_config fields" where
  "endpoint_fields =
     [(''authorizers'', field ec_authorizers (\<lambda>v. ec_authorizers_update (\<lambda>_. v)) dec_strings),
      (''path'', field ec_path (\<lambda>v. ec_path_update (\<lambda>_. v)) dec_string),
      (''methods'', field ec_methods (\<lambda>v. ec_methods_update (\<lambda>_. v))
         (dec_map (decode_value task_config_fields) zero_task_config)),
      (''type'', field ec_type (\<lambda>v. ec_type_update (\<lambda>_. v)) dec_string),
      (''query_params'', field ec_query_params (\<lambda>v. ec_query_params_update (\<lambda>_. v)) dec_query_params),
      (''raw_response'', field ec_raw_response (\<lambda>v. ec_raw_response_update (\<lambda>_. v)) dec_bool)]"

definition zero_endpoint :: endpoint_config where
  "zero_endpoint =
     \<lparr>ec_authorizers = [], ec_path = [], ec_methods = [], ec_type = [], ec_query_params = None,
      ec_raw_response = False\<rparr>"

definition authorizer_fields :: "authorizer_config fields" where
  "authorizer_fields =
     [(''type'', field ac_type (\<lambda>v. ac_type_update (\<lambda>_. v)) dec_string),
      (''config'', field ac_config (\<lambda>v. ac_config_update (\<lambda>_. v)) dec_raw)]"

definition ssl_fields :: "ssl_config fields" where
  "ssl_fields =
     [(''cert'', field ssl_cert (\<lambda>v. ssl_cert_update (\<lambda>_. v)) dec_string),
      (''key'', field ssl_key (\<lambda>v. ssl_key_update (\<lambda>_. v)) dec_string)]"

definition config_fields :: "config fields" where
  "config_fields =
     [(''host'', field cf_host (\<lambda>v. cf_host_update (\<lambda>_. v)) dec_string),
      (''port'', field cf_port (\<lambda>v. cf_port_update (\<lambda>_. v)) dec_int),
      (''ssl'', field cf_ssl (\<lambda>v. cf_ssl_update (\<lambda>_. v))
         (dec_ptr ssl_fields \<lparr>ssl_cert = [], ssl_key = []\<rparr>)),
      (''pretty_json'', field cf_pretty_json (\<lambda>v. cf_pretty_json_update (\<lambda>_. v)) dec_bool),
      (''authorizers'', field cf_authorizers (\<lambda>v. cf_authorizers_update (\<lambda>_. v))
         (dec_map (dec_ptr authorizer_fields \<lparr>ac_type = [], ac_config = None\<rparr>) None)),
      (''endpoints'', field cf_endpoints (\<lambda>v. cf_endpoints_update (\<lambda>_. v))
         (dec_slice (dec_ptr endpoint_fields zero_endpoint) None)),
      (''reload_env'', field cf_reload_env (\<lambda>v. cf_reload_env_update (\<lambda>_. v)) dec_bool)]"

text \<open>The registered configuration formats, by name.\<close>

definition configFormats :: "('t, 'w) sys \<Rightarrow> (string \<times> (string \<Rightarrow> config \<Rightarrow> config result)) list" where
  "configFormats S =
     [(''json'', unmarshal config_fields),
      (''yaml'', \<lambda>body target.
         (case yaml_to_json S body of
            Inl e \<Rightarrow> Inl e
          | Inr response \<Rightarrow> unmarshal config_fields response target))]"

fun find_format ::
  "string \<Rightarrow> (string \<times> (string \<Rightarrow> config \<Rightarrow> config result)) list
     \<Rightarrow> (string \<Rightarrow> config \<Rightarrow> config result) option" where
  "find_format format [] = None"
| "find_format format ((name, f) # fs) = (if name = format then Some f else find_format format fs)"

definition NewConfigFromFilename ::
  "('t, 'w) sys \<Rightarrow> string \<Rightarrow> string \<Rightarrow> 'w \<Rightarrow> config result" where
  "NewConfigFromFilename S filename format w =
     (case fs_read_file S filename w of
        Inl e \<Rightarrow> Inl e
      | Inr result \<Rightarrow>
          (case find_format format (configFormats S) of
             None \<Rightarrow> Inl (ErrNew ''file format not found'')
           | Some unmarshal_fn \<Rightarrow>
               (case unmarshal_fn result NewConfig of
                  Inl e \<Rightarrow> Inl e
                | Inr config \<Rightarrow>
                    (case fs_abs S (Dir filename) w of
                       Inl e \<Rightarrow> Inl e
                     | Inr d \<Rightarrow> Inr (config\<lparr>cf_directory := d\<rparr>)))))"

section \<open>Validation\<close>

text \<open>What the loop of \<open>Validate\<close> does to a query parameter.\<close>

definition validate_param :: "('t, 'w) sys \<Rightarrow> query_param \<Rightarrow> query_param result" where
  "validate_param S p =
     (let p1 = p\<lparr>qp_name := TrimSpace (qp_name p)\<rparr> in
      if qp_name p1 = [] then Inl (ErrNew ''query param name missing'')
      else
        (let p2 = p1\<lparr>qp_regexp := TrimSpace (qp_regexp p1)\<rparr> in
         if qp_regexp p2 \<noteq> [] then
           (case re_compile S (qp_regexp p2) of
              Some e \<Rightarrow> Inl (ErrNew (''query param regexp '' @ qp_regexp p2 @ '' returned '' @ err_msg e))
            | None \<Rightarrow> Inr (p2\<lparr>qp_compiled := Some (qp_regexp p2)\<rparr>))
         else Inr p2))"

definition ValidateQueryParams :: "('t, 'w) sys \<Rightarrow> query_params \<Rightarrow> query_params attempt" where
  "ValidateQueryParams S q =
     (case mapM_result (deref (validate_param S)) (qs_params q) of
        Inl e \<Rightarrow> Inl e
      | Inr ps \<Rightarrow> Inr (q\<lparr>qs_params := ps\<rparr>))"

text \<open>Validation of a pointer to query parameters that may be nil.\<close>

definition validate_opt_params ::
  "('t, 'w) sys \<Rightarrow> query_params option \<Rightarrow> query_params option attempt" where
  "validate_opt_params S qo =
     (case qo of
        None \<Rightarrow> Inr None
      | Some q \<Rightarrow> (case ValidateQueryParams S q of Inl e \<Rightarrow> Inl e | Inr q' \<Rightarrow> Inr (Some q')))"

text \<open>
  The loop over the methods assigns the endpoint's type to its loop variable, which is a copy
  of the task configuration stored in the map, so the map is not changed by it.
\<close>

definition ValidateEndpoint :: "('t, 'w) sys \<Rightarrow> endpoint_config \<Rightarrow> endpoint_config attempt" where
  "ValidateEndpoint S e =
     (case validate_opt_params S (ec_query_params e) of
        Inl err \<Rightarrow> Inl err
      | Inr qo \<Rightarrow>
          (let e1 = e\<lparr>ec_query_params := qo\<rparr>
           in Inr (e1\<lparr>ec_type := TrimSpace (ec_type e1)\<rparr>)))"

definition RouteName :: "('t, 'w) sys \<Rightarrow> endpoint_config \<Rightarrow> string" where
  "RouteName S e = sha256_hex S (ec_path e)"

definition ValidateTask :: "('t, 'w) sys \<Rightarrow> task_config \<Rightarrow> task_config attempt" where
  "ValidateTask S t =
     (let t1 = t\<lparr>tc_type := TrimSpace (tc_type t), tc_description := TrimSpace (tc_description t)\<rparr> in
      if tc_type t1 = [] then Inl (Fails (ErrNew ''Invalid task type''))
      else
        (case validate_opt_params S (tc_query_params t1) of
           Inl err \<Rightarrow> Inl err
         | Inr qo \<Rightarrow> Inr (t1\<lparr>tc_query_params := qo\<rparr>)))"

definition ValidateAuthorizer :: "authorizer_registry \<Rightarrow> authorizer_config \<Rightarrow> unit result" where
  "ValidateAuthorizer reg a =
     (if AuthorizerExists reg (ac_type a) then Inr ()
      else Inl (ErrNew (''authorizer '' @ ac_type a @ '' does not exist'')))"

section \<open>Query parameters of a request\<close>

text \<open>One turn of the loop of \<open>GetParams\<close>.\<close>

definition get_param ::
  "('t, 'w) sys \<Rightarrow> request \<Rightarrow> query_param \<Rightarrow> (string \<times> string) list \<Rightarrow> (string \<times> string) list" where
  "get_param S r p result =
     (let value = TrimSpace (first_value (rq_query r) (qp_name p));
          use_default = (if qp_default p \<noteq> [] then AList.update (qp_name p) (qp_default p) result
                         else result)
      in if value = [] then use_default
         else
           (case qp_compiled p of
              Some re \<Rightarrow>
                (if re_match S re value then AList.update (qp_name p) value result
                 else use_default)
            | None \<Rightarrow> AList.update (qp_name p) value result))"

text \<open>The loop reads the name of every parameter through its pointer.\<close>

fun get_params_loop ::
  "('t, 'w) sys \<Rightarrow> request \<Rightarrow> query_param option list \<Rightarrow> (string \<times> string) list
     \<Rightarrow> (string \<times> string) list outcome" where
  "get_params_loop S r [] result = Returns result"
| "get_params_loop S r (None # ps) result = Panics nil_panic"
| "get_params_loop S r (Some p # ps) result = get_params_loop S r ps (get_param S r p result)"

definition GetParams ::
  "('t, 'w) sys \<Rightarrow> query_params option \<Rightarrow> request \<Rightarrow> (string \<times> string) list outcome" where
  "GetParams S qo r =
     (case qo of None \<Rightarrow> Returns [] | Some q \<Rightarrow> get_params_loop S r (qs_params q) [])"

lemma get_params_loop_map: "get_params_loop S r (map Some ps) m = Returns (fold (get_param S r) ps m)"
  by (induction ps arbitrary: m) simp_all

lemma get_params_loop_nil: "None \<in> set ps \<Longrightarrow> get_params_loop S r ps m = Panics nil_panic"
  by (induction S r ps m rule: get_params_loop.induct) auto

section \<open>A concrete configuration\<close>

definition sample_params :: query_params where
  "sample_params =
     \<lparr>qs_return_params = True,
      qs_params = [Some \<lparr>qp_name = '' id'', qp_regexp = ''digits'', qp_default = ''7'', qp_compiled = None\<rparr>]\<rparr>"

definition checked_params :: query_params where
  "checked_params =
     \<lparr>qs_return_params = True,
      qs_params = [Some \<lparr>qp_name = ''id'', qp_regexp = ''digits'', qp_default = ''7'',
                         qp_compiled = Some ''digits''\<rparr>]\<rparr>"

definition sample_task :: task_config where
  "sample_task = zero_task_config\<lparr>tc_type := ''shell'', tc_query_params := Some sample_params\<rparr>"

definition sample_endpoint :: endpoint_config where
  "sample_endpoint =
     zero_endpoint\<lparr>ec_path := ''/x'', ec_type := '' shell'', ec_methods := [(''GET'', zero_task_config)]\<rparr>"

lemma trim_samples [simp]:
  "TrimSpace '' id'' = ''id''" "TrimSpace ''id'' = ''id''" "TrimSpace ''digits'' = ''digits''" "TrimSpace ''shell'' = ''shell''"
  "TrimSpace '' shell'' = ''shell''" "TrimSpace '' 42 '' = ''42''"
  by code_simp+

lemma validate_sample_params: "ValidateQueryParams sample_sys sample_params = Inr checked_params"
  by (simp add: ValidateQueryParams_def deref_def validate_param_def sample_params_def checked_params_def
     sample_sys_def Let_def)

lemma get_sample_params: "GetParams sample_sys (Some checked_params) sample_request = Returns [(''id'', ''42'')]"
  by (simp add: GetParams_def get_param_def checked_params_def sample_request_def sample_sys_def first_value_def
     is_digit_def byte_def)

section \<open>Facts about validation\<close>

lemma validate_param_Inr:
  assumes "validate_param S p = Inr p'"
  shows "qp_name p' = TrimSpace (qp_name p)" and "qp_name p' \<noteq> []"
    and "qp_regexp p' = TrimSpace (qp_regexp p)" and "qp_default p' = qp_default p"
    and "qp_regexp p' \<noteq> [] \<Longrightarrow> qp_compiled p' = Some (qp_regexp p') \<and> re_compile S (qp_regexp p') = None"
    and "qp_regexp p' = [] \<Longrightarrow> qp_compiled p' = qp_compiled p"
  using assms by (auto simp: validate_param_def Let_def split: if_splits option.splits)

lemma validate_param_again: "validate_param S p = Inr p' \<Longrightarrow> validate_param S p' = Inr p'"
  by (auto simp: validate_param_def Let_def split: if_splits option.splits)

lemma ValidateQueryParams_Inr:
  assumes "ValidateQueryParams S q = Inr q'"
  shows "\<exists>ps ps'. qs_params q = map Some ps \<and> qs_params q' = map Some ps' \<and>
           mapM_result (validate_param S) ps = Inr ps'"
    and "qs_return_params q' = qs_return_params q"
  using assms by (auto simp: ValidateQueryParams_def mapM_deref_Inr split: sum.splits)

lemma ValidateQueryParams_again:
  assumes "ValidateQueryParams S q = Inr q'"
  shows "ValidateQueryParams S q' = Inr q'"
proof -
  from ValidateQueryParams_Inr(1) [OF assms] obtain ps ps'
    where ps: "qs_params q' = map Some ps'" "mapM_result (validate_param S) ps = Inr ps'" by blast
  then have "list_all2 (\<lambda>p p'. validate_param S p' = Inr p') ps ps'"
    by (auto simp: mapM_result_Inr_iff elim!: list_all2_mono intro: validate_param_again)
  then have "mapM_result (validate_param S) ps' = Inr ps'"
    by (auto simp: mapM_result_Inr_iff list_all2_conv_all_nth)
  with ps(1) have "mapM_result (deref (validate_param S)) (qs_params q') = Inr (qs_params q')"
    by (auto simp: mapM_deref_Inr)
  then show ?thesis by (simp add: ValidateQueryParams_def)
qed

lemma validate_opt_params_again:
  "validate_opt_params S qo = Inr qo' \<Longrightarrow> validate_opt_params S qo' = Inr qo'"
  by (auto simp: validate_opt_params_def ValidateQueryParams_again split: option.splits sum.splits)

lemma ValidateEndpoint_Inr:
  assumes "ValidateEndpoint S e = Inr e'"
  shows "ec_methods e' = ec_methods e" and "ec_path e' = ec_path e"
    and "ec_authorizers e' = ec_authorizers e" and "ec_type e' = TrimSpace (ec_type e)"
    and "validate_opt_params S (ec_query_params e) = Inr (ec_query_params e')"
    and "ec_raw_response e' = ec_raw_response e"
  using assms by (auto simp: ValidateEndpoint_def Let_def split: sum.splits)

lemma ValidateTask_Inr:
  assumes "ValidateTask S t = Inr t'"
  shows "tc_type t' = TrimSpace (tc_type t)" and "tc_type t' \<noteq> []"
    and "tc_authorizers t' = tc_authorizers t" and "tc_config t' = tc_config t"
    and "tc_description t' = TrimSpace (tc_description t)"
    and "validate_opt_params S (tc_query_params t) = Inr (tc_query_params t')"
  using assms by (auto simp: ValidateTask_def Let_def split: sum.splits if_splits)

lemma ValidateTask_again: "ValidateTask S t = Inr t' \<Longrightarrow> ValidateTask S t' = Inr t'"
  by (auto simp: ValidateTask_def Let_def validate_opt_params_again split: sum.splits if_splits)

text \<open>
  Validating a validated endpoint or task configuration changes nothing.  (The info task
  validates the server's endpoints a second time while the routes are being built.)
\<close>

theorem validate_again:
  assumes "ValidateEndpoint S e = Inr e'" and "ValidateTask S t = Inr t'"
  shows "ValidateEndpoint S e' = Inr e' \<and> ValidateTask S t' = Inr t'"
proof
  from ValidateEndpoint_Inr(4,5) [OF assms(1)]
  have "validate_opt_params S (ec_query_params e') = Inr (ec_query_params e')"
    and "TrimSpace (ec_type e') = ec_type e'" by (auto intro: validate_opt_params_again)
  then show "ValidateEndpoint S e' = Inr e'" by (simp add: ValidateEndpoint_def Let_def)
  show "ValidateTask S t' = Inr t'" using assms(2) by (rule ValidateTask_again)
qed

theorem validate_again_witness:
  "ValidateEndpoint sample_sys (sample_endpoint\<lparr>ec_type := ''shell''\<rparr>) =
     Inr (sample_endpoint\<lparr>ec_type := ''shell''\<rparr>) \<and>
   ValidateTask sample_sys (sample_task\<lparr>tc_query_params := Some checked_params\<rparr>) =
     Inr (sample_task\<lparr>tc_query_params := Some checked_params\<rparr>)"
  by (rule validate_again [of sample_sys sample_endpoint _ sample_task])
    (simp_all add: ValidateEndpoint_def ValidateTask_def validate_opt_params_def sample_endpoint_def
      sample_task_def zero_endpoint_def zero_task_config_def validate_sample_params)

text \<open>
  An endpoint's \<open>type\<close> is not handed to its methods.  Validation succeeds on an endpoint
  with a type, but a method that leaves its own type empty keeps it empty and is then refused
  as "Invalid task type".
\<close>

theorem endpoint_type_not_inherited:
  assumes "ValidateEndpoint S e = Inr e'" and "TrimSpace (ec_type e) \<noteq> []"
    and "(m, t) \<in> set (ec_methods e)" and "tc_type t = []"
  shows "ec_type e' \<noteq> [] \<and> (m, t) \<in> set (ec_methods e') \<and>
         ValidateTask S t = Inl (Fails (ErrNew ''Invalid task type''))"
  using assms ValidateEndpoint_Inr(1,4) [OF assms(1)] by (simp add: ValidateTask_def Let_def)

theorem endpoint_type_not_inherited_witness:
  "''shell'' \<noteq> [] \<and> (''GET'', zero_task_config) \<in> set (ec_methods (sample_endpoint\<lparr>ec_type := ''shell''\<rparr>)) \<and>
   ValidateTask sample_sys zero_task_config = Inl (Fails (ErrNew ''Invalid task type''))"
  using endpoint_type_not_inherited [of sample_sys sample_endpoint "sample_endpoint\<lparr>ec_type := ''shell''\<rparr>" "''GET''" zero_task_config]
  by (simp add: ValidateEndpoint_def validate_opt_params_def sample_endpoint_def zero_endpoint_def zero_task_config_def)

section \<open>Which values a request can pass\<close>

text \<open>What \<open>GetParams\<close> may store under a name: a default, or a value the pattern accepts.\<close>

definition admissible :: "('t, 'w) sys \<Rightarrow> request \<Rightarrow> query_param \<Rightarrow> string \<Rightarrow> bool" where
  "admissible S r p v \<longleftrightarrow>
     v \<noteq> [] \<and>
     (v = qp_default p \<or>
      v = TrimSpace (first_value (rq_query r) (qp_name p)) \<and>
      (case qp_compiled p of None \<Rightarrow> True | Some re \<Rightarrow> re_match S re v))"

lemma get_param_lookup:
  "map_of (get_param S r p m) k = Some v \<Longrightarrow>
     map_of m k = Some v \<or> k = qp_name p \<and> admissible S r p v"
  by (auto simp: get_param_def admissible_def Let_def split: if_splits option.splits)

lemma fold_get_param:
  "map_of (fold (get_param S r) ps m) k = Some v \<Longrightarrow>
     map_of m k = Some v \<or> (\<exists>p \<in> set ps. k = qp_name p \<and> admissible S r p v)"
  by (induction ps arbitrary: m) (auto dest!: get_param_lookup)

lemma wf_get_param: "wf_map m \<Longrightarrow> wf_map (get_param S r p m)"
  by (simp add: get_param_def Let_def wf_map_update split: option.splits)

lemma get_params_loop_Returns:
  "get_params_loop S r ps m = Returns m' \<longleftrightarrow> (\<exists>qs. ps = map Some qs \<and> m' = fold (get_param S r) qs m)"
proof
  assume l: "get_params_loop S r ps m = Returns m'"
  have "None \<notin> set ps"
  proof
    assume "None \<in> set ps"
    from get_params_loop_nil [OF this, of S r m] l show False by simp
  qed
  then obtain qs where "ps = map Some qs" by (auto simp: no_nil)
  with l show "\<exists>qs. ps = map Some qs \<and> m' = fold (get_param S r) qs m"
    by (auto simp: get_params_loop_map)
qed (auto simp: get_params_loop_map)

lemma wf_GetParams: "GetParams S qo r = Returns m \<Longrightarrow> wf_map m"
proof -
  have "wf_map m \<Longrightarrow> wf_map (fold (get_param S r) ps m)" for ps m
    by (induction ps arbitrary: m) (auto intro: wf_get_param)
  then show "GetParams S qo r = Returns m \<Longrightarrow> wf_map m"
    by (auto simp: GetParams_def get_params_loop_Returns split: option.splits)
qed

text \<open>
  C24: With a validated configuration, collecting the query parameters never panics, and every
  parameter a task sees has a configured name and a non-empty value that is either the
  configured default or the request's value, trimmed, and accepted by the configured regular
  expression when there is one.
\<close>

theorem get_params_safe:
  assumes "ValidateQueryParams S q = Inr q'"
    and "\<forall>p. Some p \<in> set (qs_params q) \<longrightarrow> qp_compiled p = None"
  shows "\<exists>m. GetParams S (Some q') r = Returns m \<and>
           (\<forall>k v. map_of m k = Some v \<longrightarrow>
              (\<exists>p. Some p \<in> set (qs_params q) \<and> k = TrimSpace (qp_name p) \<and> v \<noteq> [] \<and>
                 (v = qp_default p \<or>
                  v = TrimSpace (first_value (rq_query r) k) \<and>
                  (TrimSpace (qp_regexp p) = [] \<or> re_match S (TrimSpace (qp_regexp p)) v))))"
proof -
  from ValidateQueryParams_Inr(1) [OF assms(1)] obtain ps ps'
    where ps: "qs_params q = map Some ps" "qs_params q' = map Some ps'"
      and m: "mapM_result (validate_param S) ps = Inr ps'" by blast
  have "\<exists>p. Some p \<in> set (qs_params q) \<and> k = TrimSpace (qp_name p) \<and> v \<noteq> [] \<and>
      (v = qp_default p \<or> v = TrimSpace (first_value (rq_query r) k) \<and>
         (TrimSpace (qp_regexp p) = [] \<or> re_match S (TrimSpace (qp_regexp p)) v))"
    if kv: "map_of (fold (get_param S r) ps' []) k = Some v" for k v
  proof -
    from fold_get_param [OF kv] obtain p' where p': "p' \<in> set ps'" "k = qp_name p'" "admissible S r p' v"
      by auto
    with mapM_result_set [OF m] obtain p where p: "p \<in> set ps" "validate_param S p = Inr p'" by blast
    note v = validate_param_Inr [OF p(2)]
    have "TrimSpace (qp_regexp p) = [] \<or> qp_compiled p' = Some (TrimSpace (qp_regexp p))"
      using v(3,5) by auto
    with p' p v(1,3,4) show ?thesis by (intro exI [of _ p]) (auto simp: admissible_def ps)
  qed
  then show ?thesis by (auto simp: GetParams_def ps get_params_loop_map)
qed

theorem get_params_safe_witness:
  "\<exists>m. GetParams sample_sys (Some checked_params) sample_request = Returns m \<and>
     (\<forall>k v. map_of m k = Some v \<longrightarrow>
        (\<exists>p. Some p \<in> set (qs_params sample_params) \<and> k = TrimSpace (qp_name p) \<and> v \<noteq> [] \<and>
           (v = qp_default p \<or>
            v = TrimSpace (first_value (rq_query sample_request) k) \<and>
            (TrimSpace (qp_regexp p) = [] \<or> re_match sample_sys (TrimSpace (qp_regexp p)) v))))"
  by (rule get_params_safe [OF validate_sample_params]) (simp add: sample_params_def)

text \<open>
  Nothing acceptable is lost: a configured parameter whose name no other parameter has is
  collected with the request's trimmed value if that is non-empty and passes the pattern, and
  otherwise with its default, if it has one.
\<close>

lemma get_params_complete:
  assumes "qs_params q = map Some (ps1 @ p # ps2)"
    and "\<forall>p' \<in> set (ps1 @ ps2). qp_name p' \<noteq> qp_name p"
  shows "\<exists>m. GetParams S (Some q) r = Returns m \<and>
     map_of m (qp_name p) =
     (let v = TrimSpace (first_value (rq_query r) (qp_name p));
          accepted = (v \<noteq> [] \<and> (case qp_compiled p of None \<Rightarrow> True | Some re \<Rightarrow> re_match S re v))
      in if accepted then Some v else if qp_default p \<noteq> [] then Some (qp_default p) else None)"
proof -
  have other: "map_of (get_param S r p' m) k = map_of m k" if "qp_name p' \<noteq> k" for p' m k
    using that by (auto simp: get_param_def Let_def split: option.splits)
  have others: "map_of (fold (get_param S r) ps m) k = map_of m k"
    if "\<forall>p' \<in> set ps. qp_name p' \<noteq> k" for ps m k
    using that by (induction ps arbitrary: m) (auto simp: other)
  have "map_of (fold (get_param S r) ps2 (get_param S r p (fold (get_param S r) ps1 []))) (qp_name p)
      = map_of (get_param S r p (fold (get_param S r) ps1 [])) (qp_name p)"
    using assms(2) by (intro others) auto
  moreover have "map_of (fold (get_param S r) ps1 []) (qp_name p) = None"
    using assms(2) others [of ps1 "qp_name p" "[]"] by simp
  moreover have "GetParams S (Some q) r = Returns (fold (get_param S r) (ps1 @ p # ps2) [])"
    by (simp only: GetParams_def option.case assms(1) get_params_loop_map)
  ultimately show ?thesis
    by (auto simp: get_param_def Let_def split: option.splits)
qed

end
