(* ===== verification/Auth.thy ===== *)
theory Auth
  imports Config
begin

text \<open>
  \<open>auth.go\<close>: the basic, LDAP and HTTP authorizers, their configurations and factories, and the
  check of a request against the authorizers of an endpoint and a method.
\<close>

section \<open>Errors\<close>

definition ErrUnauthorized :: go_error where
  "ErrUnauthorized = ErrNew ''unauthorized''"

definition ErrBlacklisted :: go_error where
  "ErrBlacklisted = ErrNew ''user is blacklisted''"

definition ErrNotWhitelisted :: go_error where
  "ErrNotWhitelisted = ErrNew ''user is not whitelisted''"

definition ErrBlacklistWhitelistProvided :: go_error where
  "ErrBlacklistWhitelistProvided =
     ErrNew (''blacklist and whitelist set, that doesn'' @ [CHR 0x27] @ ''t make sense.'')"

definition ErrUnknownNetwork :: go_error where
  "ErrUnknownNetwork = ErrNew ''unknown network''"

definition ErrInvalidAuthorizationHeader :: go_error where
  "ErrInvalidAuthorizationHeader = ErrNew ''invalid authorization header''"

section \<open>Configurations and authorizers\<close>

record basic_config =
  bc_username :: string
  bc_password :: string

record ldap_config =
  lc_host :: string
  lc_port :: int
  lc_network :: string
  lc_whitelist :: "string list"
  lc_blacklist :: "string list"

record http_auth_config =
  hc_url :: string
  hc_data :: string
  hc_method :: string

datatype authorizer =
    BasicAuthorizer basic_config
  | LDAPAuthorizer ldap_config
  | HttpAuthorizer http_auth_config

type_synonym authorizers = "(string \<times> authorizer) list"

definition basic_fields :: "basic_config fields" where
  "basic_fields =
     [(''username'', field bc_username (\<lambda>v. bc_username_update (\<lambda>_. v)) dec_string),
      (''password'', field bc_password (\<lambda>v. bc_password_update (\<lambda>_. v)) dec_string)]"

definition ldap_fields :: "ldap_config fields" where
  "ldap_fields =
     [(''host'', field lc_host (\<lambda>v. lc_host_update (\<lambda>_. v)) dec_string),
      (''port'', field lc_port (\<lambda>v. lc_port_update (\<lambda>_. v)) dec_int),
      (''network'', field lc_network (\<lambda>v. lc_network_update (\<lambda>_. v)) dec_string),
      (''whitelist'', field lc_whitelist (\<lambda>v. lc_whitelist_update (\<lambda>_. v)) dec_strings),
      (''blacklist'', field lc_blacklist (\<lambda>v. lc_blacklist_update (\<lambda>_. v)) dec_strings)]"

definition http_auth_fields :: "http_auth_config fields" where
  "http_auth_fields =
     [(''url'', field hc_url (\<lambda>v. hc_url_update (\<lambda>_. v)) dec_string),
      (''data'', field hc_data (\<lambda>v. hc_data_update (\<lambda>_. v)) dec_string),
      (''method'', field hc_method (\<lambda>v. hc_method_update (\<lambda>_. v)) dec_string)]"

definition new_basic :: "authorizer_config \<Rightarrow> authorizer result" where
  "new_basic ac =
     (case unmarshal_raw basic_fields (ac_config ac) \<lparr>bc_username = [], bc_password = []\<rparr> of
        Inl e \<Rightarrow> Inl e
      | Inr config \<Rightarrow> Inr (BasicAuthorizer config))"

definition ValidateLDAP :: "ldap_config \<Rightarrow> unit result" where
  "ValidateLDAP l =
     (if lc_whitelist l \<noteq> [] \<and> lc_blacklist l \<noteq> [] then Inl ErrBlacklistWhitelistProvided
      else if list_ex (\<lambda>an. an = lc_network l) [''tcp'', ''tls''] then Inr ()
      else Inl ErrUnknownNetwork)"

definition LDAP_DEFAULT_HOST :: string where "LDAP_DEFAULT_HOST = ''localhost''"
definition LDAP_DEFAULT_PORT :: int where "LDAP_DEFAULT_PORT = 389"
definition LDAP_DEFAULT_NETWORK :: string where "LDAP_DEFAULT_NETWORK = ''tcp''"

definition new_ldap :: "authorizer_config \<Rightarrow> authorizer result" where
  "new_ldap ac =
     (case unmarshal_raw ldap_fields (ac_config ac)
             \<lparr>lc_host = LDAP_DEFAULT_HOST, lc_port = LDAP_DEFAULT_PORT, lc_network = LDAP_DEFAULT_NETWORK,
              lc_whitelist = [], lc_blacklist = []\<rparr> of
        Inl e \<Rightarrow> Inl e
      | Inr config \<Rightarrow>
          (case ValidateLDAP config of
             Inl e \<Rightarrow> Inl e
           | Inr _ \<Rightarrow> Inr (LDAPAuthorizer config)))"

definition NewHttpAuthorizerConfig ::
  "('t, 'w) sys \<Rightarrow> authorizer_config \<Rightarrow> http_auth_config result" where
  "NewHttpAuthorizerConfig S ac =
     (case unmarshal_raw http_auth_fields (ac_config ac)
             \<lparr>hc_url = [], hc_data = [], hc_method = ''GET''\<rparr> of
        Inl e \<Rightarrow> Inl e
      | Inr hac \<Rightarrow>
          (case url_string S (hc_url hac) of
             Inl e \<Rightarrow> Inl e
           | Inr u \<Rightarrow>
               Inr \<lparr>hc_url = TrimSpace u, hc_data = TrimSpace (hc_data hac),
                    hc_method = TrimSpace (hc_method hac)\<rparr>))"

definition new_http :: "('t, 'w) sys \<Rightarrow> authorizer_config \<Rightarrow> authorizer result" where
  "new_http S ac =
     (case NewHttpAuthorizerConfig S ac of
        Inl e \<Rightarrow> Inl e
      | Inr config \<Rightarrow> Inr (HttpAuthorizer config))"

text \<open>Calling a registered factory.\<close>

fun run_auth_factory ::
  "('t, 'w) sys \<Rightarrow> authorizer_factory \<Rightarrow> authorizer_config \<Rightarrow> authorizer result" where
  "run_auth_factory S BasicAuthorizerFactory ac = new_basic ac"
| "run_auth_factory S LDAPAuthorizerFactory ac = new_ldap ac"
| "run_auth_factory S HttpAuthorizerFactory ac = new_http S ac"

section \<open>Building the authorizers of a configuration\<close>

text \<open>
  The first loop of \<open>GetAuthorizers\<close>, in the order the range over the map takes.  Validating a
  nil configuration panics.
\<close>

fun build_authorizers ::
  "('t, 'w) sys \<Rightarrow> authorizer_registry \<Rightarrow> (string \<times> authorizer_config option) list \<Rightarrow> authorizers
     \<Rightarrow> authorizers attempt" where
  "build_authorizers S reg [] result = Inr result"
| "build_authorizers S reg ((an, None) # acs) result = Inl (Crashes nil_panic)"
| "build_authorizers S reg ((an, Some ac) # acs) result =
     (case ValidateAuthorizer reg ac of
        Inl e \<Rightarrow> Inl (Fails e)
      | Inr _ \<Rightarrow>
          (case lookup_authorizer reg (ac_type ac) of
             None \<Rightarrow> Inl (Fails (ErrNew (''authorizer '' @ ac_type ac @ '' does not exist'')))
           | Some factory \<Rightarrow>
               (case run_auth_factory S factory ac of
                  Inl e \<Rightarrow> Inl (Fails e)
                | Inr authorizer \<Rightarrow>
                    build_authorizers S reg acs (AList.update an authorizer result))))"

definition invalid_authorizer :: "nat \<Rightarrow> string \<Rightarrow> go_error" where
  "invalid_authorizer i a =
     ErrNew (''task '' @ nat_dec i @ '', invalid authorizer `'' @ a @ ''`.'')"

text \<open>
  The second loop: the authorizers the methods name, endpoint by endpoint; reading the methods
  of a nil endpoint panics.
\<close>

fun check_names :: "nat \<Rightarrow> authorizers \<Rightarrow> string list \<Rightarrow> unit result" where
  "check_names i as [] = Inr ()"
| "check_names i as (a # rest) =
     (if map_of as a = None then Inl (invalid_authorizer i a) else check_names i as rest)"

fun check_endpoints :: "nat \<Rightarrow> authorizers \<Rightarrow> endpoint_config option list \<Rightarrow> unit attempt" where
  "check_endpoints i as [] = Inr ()"
| "check_endpoints i as (None # ecs) = Inl (Crashes nil_panic)"
| "check_endpoints i as (Some ec # ecs) =
     (case check_names i as (concat (map (\<lambda>(m, tc). tc_authorizers tc) (ec_methods ec))) of
        Inl e \<Rightarrow> Inl (Fails e)
      | Inr _ \<Rightarrow> check_endpoints (Suc i) as ecs)"

definition GetAuthorizers :: "('t, 'w) sys \<Rightarrow> authorizer_registry \<Rightarrow> config \<Rightarrow> authorizers attempt" where
  "GetAuthorizers S reg config =
     (case build_authorizers S reg (cf_authorizers config) [] of
        Inl e \<Rightarrow> Inl e
      | Inr result \<Rightarrow>
          (case check_endpoints 0 result (cf_endpoints config) of
             Inl e \<Rightarrow> Inl e
           | Inr _ \<Rightarrow> Inr result))"

definition Names :: "authorizers \<Rightarrow> string list" where
  "Names a = map fst a"

section \<open>Basic credentials\<close>

abbreviation colon :: char where "colon \<equiv> CHR '':''"
abbreviation space :: char where "space \<equiv> CHR '' ''"

definition GetBasicAuth :: "request \<Rightarrow> (string \<times> string) result" where
  "GetBasicAuth r =
     (case split_n2 space (first_value (rq_header r) ''Authorization'') of
        [scheme, payload] \<Rightarrow>
          (if scheme \<noteq> ''Basic'' then Inl ErrInvalidAuthorizationHeader
           else
             (case b64_decode payload of
                None \<Rightarrow> Inl ErrInvalidAuthorizationHeader
              | Some data \<Rightarrow>
                  (case split_n2 colon data of
                     [username, password] \<Rightarrow> Inr (username, password)
                   | _ \<Rightarrow> Inl ErrInvalidAuthorizationHeader)))
      | _ \<Rightarrow> Inl ErrInvalidAuthorizationHeader)"

section \<open>Authorizing a request\<close>

type_synonym 'w auth_step = "'w \<Rightarrow> go_error option \<times> 'w"

definition authorize_basic :: "basic_config \<Rightarrow> request \<Rightarrow> 'w auth_step" where
  "authorize_basic c r w =
     (case GetBasicAuth r of
        Inl e \<Rightarrow> (Some e, w)
      | Inr (username, password) \<Rightarrow>
          (if username \<noteq> bc_username c \<or> password \<noteq> bc_password c
           then (Some ErrUnauthorized, w) else (None, w)))"

text \<open>
  Black list and white list are looked at after the server was dialled, and the user is bound
  last.  A network other than "tcp" and "tls" leaves the connection nil; validation excludes
  it, and a nil connection panics at the bind.
\<close>

definition dial_network :: "('t, 'w) sys \<Rightarrow> ldap_config \<Rightarrow> 'w \<Rightarrow> nat option result \<times> 'w" where
  "dial_network S c w =
     (let fullhost = lc_host c @ '':'' @ int_dec (lc_port c) in
      if lc_network c = ''tcp'' then
        (case ldap_dial S False fullhost w of (res, w1) \<Rightarrow> (map_sum id Some res, w1))
      else if lc_network c = ''tls'' then
        (case ldap_dial S True fullhost w of (res, w1) \<Rightarrow> (map_sum id Some res, w1))
      else (Inr None, w))"

definition check_user ::
  "('t, 'w) sys \<Rightarrow> ldap_config \<Rightarrow> nat option \<Rightarrow> string \<Rightarrow> string \<Rightarrow> 'w \<Rightarrow> (go_error option \<times> 'w) outcome"
where
  "check_user S c conn username password w =
     (if lc_blacklist c \<noteq> [] \<and> list_ex (\<lambda>bl. bl = username) (lc_blacklist c)
      then Returns (Some ErrBlacklisted, w)
      else if lc_whitelist c \<noteq> [] \<and> \<not> list_ex (\<lambda>wl. wl = username) (lc_whitelist c)
      then Returns (Some ErrNotWhitelisted, w)
      else
        (case conn of
           None \<Rightarrow> Panics nil_panic
         | Some h \<Rightarrow> Returns (ldap_bind S h username password w)))"

definition authorize_ldap ::
  "('t, 'w) sys \<Rightarrow> ldap_config \<Rightarrow> request \<Rightarrow> 'w \<Rightarrow> (go_error option \<times> 'w) outcome" where
  "authorize_ldap S c r w =
     (case GetBasicAuth r of
        Inl e \<Rightarrow> Returns (Some e, w)
      | Inr (username, password) \<Rightarrow>
          (case dial_network S c w of
             (Inl e, w1) \<Rightarrow> Returns (Some e, w1)
           | (Inr conn, w1) \<Rightarrow> check_user S c conn username password w1))"

text \<open>The data the templates of the HTTP authorizer see: two constants.\<close>

definition http_auth_data :: gval where
  "http_auth_data = VMap [(''username'', VStr ''phonkee''), (''password'', VStr ''password'')]"

text \<open>The text a template yields, "" when it fails (the error variable is overwritten).\<close>

definition rendered :: "string result \<Rightarrow> string" where
  "rendered res = (case res of Inl _ \<Rightarrow> [] | Inr t \<Rightarrow> t)"

definition RenderURL :: "('t, 'w) sys \<Rightarrow> http_auth_config \<Rightarrow> gval \<Rightarrow> string result" where
  "RenderURL S h data = Interpolate S (hc_url h) data"

definition RenderData :: "('t, 'w) sys \<Rightarrow> http_auth_config \<Rightarrow> gval \<Rightarrow> string result" where
  "RenderData S h data = Interpolate S (hc_data h) data"

definition RenderMethod :: "('t, 'w) sys \<Rightarrow> http_auth_config \<Rightarrow> gval \<Rightarrow> string result" where
  "RenderMethod S h data = Interpolate S (hc_method h) data"

definition authorize_http ::
  "('t, 'w) sys \<Rightarrow> http_auth_config \<Rightarrow> request \<Rightarrow> 'w \<Rightarrow> (go_error option \<times> 'w) outcome" where
  "authorize_http S h r w =
     (let url = rendered (RenderURL S h http_auth_data);
          method = rendered (RenderMethod S h http_auth_data);
          body = rendered (RenderData S h http_auth_data)
      in bind_outcome (DoNew S (NewRequester []) method url (Some (body, None)) w)
           (\<lambda>(res, w1).
              (case res of
                 Inl e \<Rightarrow> Returns (Some e, w1)
               | Inr response \<Rightarrow>
                   (if hp_status response \<noteq> StatusOK then Returns (Some ErrUnauthorized, w1)
                    else Returns (None, w1)))))"

fun authorize_one ::
  "('t, 'w) sys \<Rightarrow> authorizer \<Rightarrow> request \<Rightarrow> 'w \<Rightarrow> (go_error option \<times> 'w) outcome" where
  "authorize_one S (BasicAuthorizer c) r w = Returns (authorize_basic c r w)"
| "authorize_one S (LDAPAuthorizer c) r w = authorize_ldap S c r w"
| "authorize_one S (HttpAuthorizer c) r w = authorize_http S c r w"

text \<open>
  The names are tried in order; the first error stops the loop.  A name that is not in the
  map gives the nil interface, and calling it panics.
\<close>

fun authorize_names ::
  "('t, 'w) sys \<Rightarrow> authorizers \<Rightarrow> request \<Rightarrow> string list \<Rightarrow> 'w \<Rightarrow> (go_error option \<times> 'w) outcome"
where
  "authorize_names S a r [] w = Returns (None, w)"
| "authorize_names S a r (an # check) w =
     (case map_of a an of
        None \<Rightarrow> Panics nil_panic
      | Some authorizer \<Rightarrow>
          (case authorize_one S authorizer r w of
             Panics p \<Rightarrow> Panics p
           | Returns (Some e, w1) \<Rightarrow> Returns (Some e, w1)
           | Returns (None, w1) \<Rightarrow> authorize_names S a r check w1))"

text \<open>\<open>config.Methods[r.Method]\<close>: the zero task configuration when the key is missing.\<close>

definition method_config :: "endpoint_config \<Rightarrow> string \<Rightarrow> task_config" where
  "method_config ec m = (case map_of (ec_methods ec) m of Some tc \<Rightarrow> tc | None \<Rightarrow> zero_task_config)"

definition Authorize ::
  "('t, 'w) sys \<Rightarrow> authorizers \<Rightarrow> request \<Rightarrow> endpoint_config \<Rightarrow> 'w \<Rightarrow> (go_error option \<times> 'w) outcome"
where
  "Authorize S a r ec w =
     authorize_names S a r
       (ec_authorizers ec @ tc_authorizers (method_config ec (rq_method r))) w"

section \<open>Basic authentication\<close>

lemma GetBasicAuth_Inr_iff:
  "GetBasicAuth r = Inr (u, p) \<longleftrightarrow>
     (\<exists>payload. first_value (rq_header r) ''Authorization'' = ''Basic '' @ payload \<and>
        b64_decode payload = Some (u @ colon # p) \<and> colon \<notin> set u)"
  (is "?L \<longleftrightarrow> ?R")
proof
  assume L: ?L
  let ?h = "first_value (rq_header r) ''Authorization''"
  from L obtain payload data where h: "split_n2 space ?h = [''Basic'', payload]"
    and d: "b64_decode payload = Some data" and s: "split_n2 colon data = [u, p]"
    by (auto simp: GetBasicAuth_def split: list.splits if_splits option.splits)
  from split_n2_two [OF h] split_n2_two [OF s] d
  show ?R by (intro exI [of _ payload]) simp
next
  assume ?R
  then obtain payload where h: "first_value (rq_header r) ''Authorization'' = ''Basic'' @ space # payload"
    and d: "b64_decode payload = Some (u @ colon # p)" "colon \<notin> set u" by auto
  have "split_n2 space (''Basic'' @ space # payload) = [''Basic'', payload]"
    by (rule split_n2_sep) simp
  with h d show ?L by (simp add: GetBasicAuth_def)
qed

lemma GetBasicAuth_Inl: "GetBasicAuth r = Inl e \<Longrightarrow> e = ErrInvalidAuthorizationHeader"
  by (auto simp: GetBasicAuth_def split: list.splits if_splits option.splits)

text \<open>
  C26: The basic authorizer accepts a request exactly when its Authorization header is
  "Basic " followed by base64 text for the configured username, a colon and the configured
  password.  In particular a configured username with a colon in it accepts nobody.
\<close>

theorem basic_auth_iff:
  "authorize_basic c r w = (None, w) \<longleftrightarrow>
     (\<exists>payload. first_value (rq_header r) ''Authorization'' = ''Basic '' @ payload \<and>
        b64_decode payload = Some (bc_username c @ colon # bc_password c) \<and>
        colon \<notin> set (bc_username c))"
proof -
  have "authorize_basic c r w = (None, w) \<longleftrightarrow>
      GetBasicAuth r = Inr (bc_username c, bc_password c)"
    by (auto simp: authorize_basic_def split: sum.splits prod.splits)
  then show ?thesis by (simp only: GetBasicAuth_Inr_iff)
qed

text \<open>
  Credentials survive the header: what a client encodes with base64 after "Basic " is what
  the server reads, for every password and every username without a colon.
\<close>

theorem basic_auth_roundtrip:
  assumes "first_value (rq_header r) ''Authorization'' = ''Basic '' @ b64_encode (u @ colon # p)"
    and "colon \<notin> set u"
  shows "GetBasicAuth r = Inr (u, p)"
  using assms b64.decode_encode unfolding GetBasicAuth_Inr_iff by blast

definition sample_login :: request where
  "sample_login =
     sample_request\<lparr>rq_header :=
       [(''Authorization'', [''Basic '' @ b64_encode ''hello:wo:rld''])]\<rparr>"

theorem basic_auth_roundtrip_witness: "GetBasicAuth sample_login = Inr (''hello'', ''wo:rld'')"
proof (rule basic_auth_roundtrip)
  show "first_value (rq_header sample_login) ''Authorization'' =
      ''Basic '' @ b64_encode (''hello'' @ colon # ''wo:rld'')"
    by (simp add: sample_login_def first_value_def)
qed simp

section \<open>LDAP\<close>

lemma check_user_accepts:
  "check_user S c conn u p w = Returns (None, w') \<longleftrightarrow>
     (\<exists>h. conn = Some h \<and> u \<notin> set (lc_blacklist c) \<and>
        (lc_whitelist c = [] \<or> u \<in> set (lc_whitelist c)) \<and> ldap_bind S h u p w = (None, w'))"
  by (auto simp: check_user_def list_ex_iff split: option.splits)

lemma check_user_returns: "\<exists>res w'. check_user S c (Some h) u p w = Returns (res, w')"
  by (cases "ldap_bind S h u p w") (auto simp: check_user_def)

lemma dial_network_connected:
  "dial_network S c w = (Inr (Some h), w1) \<longleftrightarrow>
     lc_network c = ''tcp'' \<and> ldap_dial S False (lc_host c @ '':'' @ int_dec (lc_port c)) w = (Inr h, w1) \<or>
     lc_network c = ''tls'' \<and> ldap_dial S True (lc_host c @ '':'' @ int_dec (lc_port c)) w = (Inr h, w1)"
proof -
  have inj: "map_sum id Some res = Inr (Some h) \<longleftrightarrow> res = Inr h" for res :: "nat result"
    by (cases res) auto
  show ?thesis
    by (auto simp: dial_network_def Let_def inj split: prod.splits)
qed

lemma dial_network_known:
  assumes "lc_network c = ''tcp'' \<or> lc_network c = ''tls''"
  obtains e w1 where "dial_network S c w = (Inl e, w1)"
    | h w1 where "dial_network S c w = (Inr (Some h), w1)"
proof -
  have "\<exists>res w1. dial_network S c w = (map_sum id Some res, w1)"
    using assms by (auto simp: dial_network_def Let_def split: prod.splits)
  then obtain res w1 where "dial_network S c w = (map_sum id Some res, w1)" by blast
  with that show ?thesis by (cases res) auto
qed

text \<open>
  C27: The LDAP authorizer accepts a request exactly when it carries readable credentials, the
  server was dialled over the configured network, the user is not on the black list, is on
  the white list if there is one, and the bind with that user and password succeeded.
\<close>

theorem ldap_auth_iff:
  "authorize_ldap S c r w = Returns (None, w') \<longleftrightarrow>
     (\<exists>u p h w1. GetBasicAuth r = Inr (u, p) \<and>
        (lc_network c = ''tcp'' \<and>
           ldap_dial S False (lc_host c @ '':'' @ int_dec (lc_port c)) w = (Inr h, w1) \<or>
         lc_network c = ''tls'' \<and>
           ldap_dial S True (lc_host c @ '':'' @ int_dec (lc_port c)) w = (Inr h, w1)) \<and>
        u \<notin> set (lc_blacklist c) \<and>
        (lc_whitelist c = [] \<or> u \<in> set (lc_whitelist c)) \<and>
        ldap_bind S h u p w1 = (None, w'))"
proof -
  have "authorize_ldap S c r w = Returns (None, w') \<longleftrightarrow>
      (\<exists>u p conn w1. GetBasicAuth r = Inr (u, p) \<and> dial_network S c w = (Inr conn, w1) \<and>
         check_user S c conn u p w1 = Returns (None, w'))"
    by (auto simp: authorize_ldap_def split: sum.splits prod.splits)
  then show ?thesis
    unfolding check_user_accepts dial_network_connected [symmetric] by blast
qed

lemma new_ldap_Inr:
  assumes "new_ldap ac = Inr au"
  obtains c where "au = LDAPAuthorizer c" "lc_network c = ''tcp'' \<or> lc_network c = ''tls''"
    "lc_whitelist c = [] \<or> lc_blacklist c = []"
  using assms by (auto simp: new_ldap_def ValidateLDAP_def split: sum.splits if_splits)

lemma authorize_ldap_returns:
  assumes "lc_network c = ''tcp'' \<or> lc_network c = ''tls''"
  shows "\<exists>res w'. authorize_ldap S c r w = Returns (res, w')"
proof (cases "GetBasicAuth r")
  case (Inl e)
  then show ?thesis by (simp add: authorize_ldap_def)
next
  case (Inr up)
  obtain u p where up: "up = (u, p)" by (cases up)
  from assms show ?thesis
    by (rule dial_network_known [of c S w]) (auto simp: authorize_ldap_def Inr up check_user_returns)
qed

section \<open>HTTP\<close>

text \<open>The request the HTTP authorizer sends.\<close>

definition auth_request :: "('t, 'w) sys \<Rightarrow> http_auth_config \<Rightarrow> http_request" where
  "auth_request S h =
     \<lparr>hq_method = rendered (RenderMethod S h http_auth_data),
      hq_url = rendered (RenderURL S h http_auth_data),
      hq_body = Some (rendered (RenderData S h http_auth_data), None)\<rparr>"

lemma authorize_http_eq:
  "authorize_http S h r w =
     (case new_request S (hq_method (auth_request S h)) (hq_url (auth_request S h)) of
        Some e \<Rightarrow> Returns (Some e, w)
      | None \<Rightarrow>
          (case http_do S \<lparr>dial_timeout = Some DEFAULT_TIMEOUT\<rparr> (auth_request S h) w of
             ((Inl e, _), w1) \<Rightarrow> Returns (Some e, w1)
           | ((Inr resp, _), w1) \<Rightarrow>
               Returns (if hp_status resp = 200 then None else Some ErrUnauthorized, w1)))"
  by (auto simp: authorize_http_def auth_request_def Let_def DoNew_NewRequester
      split: option.splits prod.splits sum.splits)

text \<open>
  C37: The HTTP authorizer accepts exactly when the request made of its configuration can be
  built, is sent with the default timeout, and is answered with status 200.  The client's
  credentials play no part: the templates are rendered with two built-in constants, so any two
  requests are answered alike in the same world.
\<close>

theorem http_auth_ignores_credentials:
  "(authorize_http S h r w = Returns (None, w') \<longleftrightarrow>
      new_request S (hq_method (auth_request S h)) (hq_url (auth_request S h)) = None \<and>
      (\<exists>resp left. http_do S \<lparr>dial_timeout = Some DEFAULT_TIMEOUT\<rparr> (auth_request S h) w = ((Inr resp, left), w') \<and>
                  hp_status resp = 200)) \<and>
   authorize_http S h r w = authorize_http S h r2 w"
  by (auto simp: authorize_http_eq split: option.splits prod.splits sum.splits if_splits)

lemma authorize_http_returns: "\<exists>res w'. authorize_http S h r w = Returns (res, w')"
  by (auto simp: authorize_http_eq split: option.splits prod.splits sum.splits)

section \<open>The contract of an authorizer\<close>

text \<open>
  What the check of a request relies on: an authorizer that a factory made answers (it does
  not panic), and its answer depends on the request's Authorization header only.
\<close>

locale authorizer_contract =
  fixes made :: "'a \<Rightarrow> bool"
    and decide :: "'a \<Rightarrow> request \<Rightarrow> 'w \<Rightarrow> (go_error option \<times> 'w) outcome"
  assumes decide_returns: "made a \<Longrightarrow> \<exists>res w'. decide a r w = Returns (res, w')"
    and decide_header:
      "first_value (rq_header r1) ''Authorization'' = first_value (rq_header r2) ''Authorization''
        \<Longrightarrow> decide a r1 w = decide a r2 w"
begin

lemma decide_cases:
  assumes "made a"
  obtains (accept) w' where "decide a r w = Returns (None, w')"
    | (refuse) e w' where "decide a r w = Returns (Some e, w')"
proof -
  from decide_returns [OF assms, of r w] obtain res w' where "decide a r w = Returns (res, w')" by blast
  then show ?thesis by (cases res) (auto intro: accept refuse)
qed

end

text \<open>The invariant a factory establishes.\<close>

fun made_authorizer :: "authorizer \<Rightarrow> bool" where
  "made_authorizer (BasicAuthorizer c) = True"
| "made_authorizer (LDAPAuthorizer c) = (lc_network c = ''tcp'' \<or> lc_network c = ''tls'')"
| "made_authorizer (HttpAuthorizer c) = True"

lemma GetBasicAuth_header:
  "first_value (rq_header r1) ''Authorization'' = first_value (rq_header r2) ''Authorization''
     \<Longrightarrow> GetBasicAuth r1 = GetBasicAuth r2"
  by (simp add: GetBasicAuth_def)

interpretation auth: authorizer_contract made_authorizer "authorize_one S"
proof
  fix a :: authorizer and r :: request and w
  assume "made_authorizer a"
  then show "\<exists>res w'. authorize_one S a r w = Returns (res, w')"
    by (cases a) (auto simp: authorize_basic_def authorize_ldap_returns authorize_http_returns
        split: sum.splits prod.splits)
next
  fix r1 r2 :: request and a :: authorizer and w
  assume h: "first_value (rq_header r1) ''Authorization'' = first_value (rq_header r2) ''Authorization''"
  show "authorize_one S a r1 w = authorize_one S a r2 w"
    using GetBasicAuth_header [OF h]
    by (cases a) (simp_all add: authorize_basic_def authorize_ldap_def authorize_http_eq)
qed

lemma run_auth_factory_made: "run_auth_factory S f ac = Inr au \<Longrightarrow> made_authorizer au"
  by (cases f) (auto simp: new_basic_def new_http_def elim!: new_ldap_Inr split: sum.splits)

section \<open>Which authorizers a configuration gets\<close>

lemma build_authorizers_made:
  assumes "build_authorizers S reg acs res = Inr a" and "\<forall>au \<in> snd ` set res. made_authorizer au"
  shows "\<forall>au \<in> snd ` set a. made_authorizer au"
  using assms
proof (induction acs arbitrary: res)
  case Nil
  then show ?case by simp
next
  case (Cons x acs)
  obtain an aco where x: "x = (an, aco)" by (cases x)
  with Cons.prems obtain ac where aco: "aco = Some ac" by (cases aco) auto
  from Cons.prems x aco obtain f au where f: "run_auth_factory S f ac = Inr au"
    and rec: "build_authorizers S reg acs (AList.update an au res) = Inr a"
    by (auto split: sum.splits option.splits)
  have "set (AList.update an au res) \<subseteq> insert (an, au) (set res)"
    by (induction res) auto
  with Cons.prems(2) run_auth_factory_made [OF f]
  have "\<forall>au \<in> snd ` set (AList.update an au res). made_authorizer au" by fastforce
  with Cons.IH rec show ?case by blast
qed

lemma build_authorizers_dom:
  "build_authorizers S reg acs res = Inr a \<Longrightarrow>
     (map_of a n \<noteq> None \<longleftrightarrow> n \<in> fst ` set acs \<or> map_of res n \<noteq> None)"
proof (induction acs arbitrary: res)
  case Nil
  then show ?case by simp
next
  case (Cons x acs)
  obtain an aco where x: "x = (an, aco)" by (cases x)
  with Cons.prems obtain au where "build_authorizers S reg acs (AList.update an au res) = Inr a"
    by (cases aco) (auto split: sum.splits option.splits)
  from Cons.IH [OF this] x show ?case by auto
qed

lemma check_names_Inr: "check_names i a ns = Inr () \<longleftrightarrow> (\<forall>n \<in> set ns. map_of a n \<noteq> None)"
  by (induction ns) auto

lemma check_endpoints_Inr:
  "check_endpoints i a ecs = Inr () \<longleftrightarrow>
     None \<notin> set ecs \<and>
     (\<forall>ec. Some ec \<in> set ecs \<longrightarrow>
        (\<forall>(m, tc) \<in> set (ec_methods ec). \<forall>n \<in> set (tc_authorizers tc). map_of a n \<noteq> None))"
proof (induction ecs arbitrary: i)
  case Nil
  then show ?case by simp
next
  case (Cons eco ecs)
  show ?case
  proof (cases eco)
    case None
    then show ?thesis by simp
  next
    case (Some ec)
    let ?c = "check_names i a (concat (map (\<lambda>(m, tc). tc_authorizers tc) (ec_methods ec)))"
    let ?ok = "\<lambda>ec. \<forall>(m, tc) \<in> set (ec_methods ec). \<forall>n \<in> set (tc_authorizers tc). map_of a n \<noteq> None"
    have "check_endpoints i a (Some ec # ecs) = Inr () \<longleftrightarrow>
        ?c = Inr () \<and> check_endpoints (Suc i) a ecs = Inr ()"
      by (cases ?c) auto
    also have "?c = Inr () \<longleftrightarrow> ?ok ec" unfolding check_names_Inr by fastforce
    finally have "check_endpoints i a (Some ec # ecs) = Inr () \<longleftrightarrow>
        ?ok ec \<and> None \<notin> set ecs \<and> (\<forall>ec. Some ec \<in> set ecs \<longrightarrow> ?ok ec)"
      unfolding Cons.IH .
    moreover have "(\<forall>e. Some e \<in> set (Some ec # ecs) \<longrightarrow> ?ok e) \<longleftrightarrow>
        ?ok ec \<and> (\<forall>e. Some e \<in> set ecs \<longrightarrow> ?ok e)"
      by (simp only: list.set insert_iff option.inject) blast
    ultimately show ?thesis unfolding Some
      by (simp only: list.set insert_iff option.distinct(1) option.distinct(2) simp_thms conj_left_commute)
  qed
qed

lemma check_endpoints_methods_only:
  "check_endpoints i a (map (map_option (ec_authorizers_update f)) ecs) = check_endpoints i a ecs"
  by (induction i a ecs rule: check_endpoints.induct) (auto split: sum.splits)

lemma GetAuthorizers_Inr:
  assumes "GetAuthorizers S reg config = Inr a"
  shows "\<And>au. au \<in> snd ` set a \<Longrightarrow> made_authorizer au"
    and "\<And>n. map_of a n \<noteq> None \<longleftrightarrow> n \<in> fst ` set (cf_authorizers config)"
    and "check_endpoints 0 a (cf_endpoints config) = Inr ()"
proof -
  from assms have b: "build_authorizers S reg (cf_authorizers config) [] = Inr a"
    and c: "check_endpoints 0 a (cf_endpoints config) = Inr ()"
    by (auto simp: GetAuthorizers_def split: sum.splits)
  show "\<And>au. au \<in> snd ` set a \<Longrightarrow> made_authorizer au" using build_authorizers_made [OF b] by auto
  show "\<And>n. map_of a n \<noteq> None \<longleftrightarrow> n \<in> fst ` set (cf_authorizers config)"
    using build_authorizers_dom [OF b] by simp
  show "check_endpoints 0 a (cf_endpoints config) = Inr ()" by (rule c)
qed

section \<open>The check of a request\<close>

text \<open>The specification: every name accepts, one after the other.\<close>

inductive accepted_by ::
  "('t, 'w) sys \<Rightarrow> authorizers \<Rightarrow> request \<Rightarrow> string list \<Rightarrow> 'w \<Rightarrow> 'w \<Rightarrow> bool"
  for S a r where
  accepted_all: "accepted_by S a r [] w w"
| accepted_next:
    "map_of a an = Some au \<Longrightarrow> authorize_one S au r w = Returns (None, w1) \<Longrightarrow>
     accepted_by S a r names w1 w2 \<Longrightarrow> accepted_by S a r (an # names) w w2"

inductive_simps accepted_by_Nil [simp]: "accepted_by S a r [] w w'"
inductive_simps accepted_by_Cons [simp]: "accepted_by S a r (an # names) w w'"

lemma authorize_names_accepts:
  "authorize_names S a r names w = Returns (None, w') \<longleftrightarrow> accepted_by S a r names w w'"
  by (induction names arbitrary: w) (auto split: option.splits outcome.splits prod.splits)

lemma accepted_by_each:
  "accepted_by S a r names w w' \<Longrightarrow> n \<in> set names \<Longrightarrow>
     \<exists>au w1 w2. map_of a n = Some au \<and> authorize_one S au r w1 = Returns (None, w2)"
  by (induction rule: accepted_by.induct) auto

lemma authorize_names_append:
  "accepted_by S a r ns1 w w1 \<Longrightarrow> authorize_names S a r (ns1 @ ns2) w = authorize_names S a r ns2 w1"
  by (induction rule: accepted_by.induct) auto

lemma authorize_names_refusedD:
  "authorize_names S a r names w = Returns (Some e, w') \<Longrightarrow>
     \<exists>ns1 n ns2 au w1. names = ns1 @ n # ns2 \<and> accepted_by S a r ns1 w w1 \<and>
        map_of a n = Some au \<and> authorize_one S au r w1 = Returns (Some e, w')"
proof (induction names arbitrary: w)
  case Nil
  then show ?case by simp
next
  case (Cons m names)
  from Cons.prems obtain au where au: "map_of a m = Some au" by (auto split: option.splits)
  with Cons.prems obtain res w1 where one: "authorize_one S au r w = Returns (res, w1)"
    by (auto split: outcome.splits)
  show ?case
  proof (cases res)
    case None
    with Cons.prems au one have "authorize_names S a r names w1 = Returns (Some e, w')" by simp
    from Cons.IH [OF this] obtain ns1 n ns2 av w2 where "names = ns1 @ n # ns2"
      "accepted_by S a r ns1 w1 w2" "map_of a n = Some av" "authorize_one S av r w2 = Returns (Some e, w')"
      by (elim exE conjE)
    with au one None show ?thesis
      by (intro exI [of _ "m # ns1"] exI [of _ n] exI [of _ ns2] exI [of _ av] exI [of _ w2]) simp
  next
    case (Some d)
    with Cons.prems au one show ?thesis
      by (intro exI [of _ "[]"] exI [of _ m] exI [of _ names] exI [of _ au] exI [of _ w]) simp
  qed
qed

lemma authorize_names_refuses:
  "authorize_names S a r names w = Returns (Some e, w') \<longleftrightarrow>
     (\<exists>ns1 n ns2 au w1. names = ns1 @ n # ns2 \<and> accepted_by S a r ns1 w w1 \<and>
        map_of a n = Some au \<and> authorize_one S au r w1 = Returns (Some e, w'))"
  by (rule iffI, erule authorize_names_refusedD) (auto simp: authorize_names_append)

text \<open>
  C7: A request passes the check exactly when every authorizer named by the endpoint and then
  every one named by the method is defined and accepts it, in that order; it is refused with
  the error of the first one that refuses, and those after it are not asked.
\<close>

theorem authorize_iff:
  "(Authorize S a r ec w = Returns (None, w') \<longleftrightarrow>
      accepted_by S a r (ec_authorizers ec @ tc_authorizers (method_config ec (rq_method r))) w w') \<and>
   (Authorize S a r ec w = Returns (Some e, w') \<longleftrightarrow>
      (\<exists>ns1 n ns2 au w1.
         ec_authorizers ec @ tc_authorizers (method_config ec (rq_method r)) = ns1 @ n # ns2 \<and>
         accepted_by S a r ns1 w w1 \<and> map_of a n = Some au \<and>
         authorize_one S au r w1 = Returns (Some e, w')))"
  unfolding Authorize_def authorize_names_accepts authorize_names_refuses by simp

lemma Authorize_cong:
  assumes "first_value (rq_header r1) ''Authorization'' = first_value (rq_header r2) ''Authorization''"
    and "rq_method r1 = rq_method r2"
  shows "Authorize S a r1 ec w = Authorize S a r2 ec w"
proof -
  have "authorize_names S a r1 names w = authorize_names S a r2 names w" for names
    by (induction names arbitrary: w)
      (auto simp: auth.decide_header [OF assms(1)] split: option.splits outcome.splits)
  with assms(2) show ?thesis by (simp add: Authorize_def)
qed

text \<open>
  The check reads nothing of the request but its method and its Authorization header.
\<close>

theorem authorize_header_only:
  assumes "first_value (rq_header r1) ''Authorization'' = first_value (rq_header r2) ''Authorization''"
    and "rq_method r1 = rq_method r2"
  shows "Authorize S a r1 ec w = Authorize S a r2 ec w"
  using assms by (rule Authorize_cong)

theorem authorize_header_only_witness:
  "Authorize sample_sys [(''b'', BasicAuthorizer \<lparr>bc_username = ''u'', bc_password = ''p''\<rparr>)]
     sample_request (zero_endpoint\<lparr>ec_authorizers := [''b'']\<rparr>) 0 =
   Authorize sample_sys [(''b'', BasicAuthorizer \<lparr>bc_username = ''u'', bc_password = ''p''\<rparr>)]
     (sample_request\<lparr>rq_path := ''/y''\<rparr>) (zero_endpoint\<lparr>ec_authorizers := [''b'']\<rparr>) 0"
  by (rule authorize_header_only) (simp_all add: sample_request_def)

lemma accepted_names_defined:
  assumes "\<forall>n \<in> set names. map_of a n \<noteq> None" and "\<And>au. au \<in> snd ` set a \<Longrightarrow> made_authorizer au"
  shows "\<exists>res w'. authorize_names S a r names w = Returns (res, w')"
  using assms(1)
proof (induction names arbitrary: w)
  case Nil
  then show ?case by simp
next
  case (Cons n names)
  then obtain au where au: "map_of a n = Some au" by auto
  then have "au \<in> snd ` set a" by (force dest: map_of_SomeD)
  then have "made_authorizer au" by (rule assms(2))
  then show ?case
    by (rule auth.decide_cases [of au S r w]) (use Cons au in auto)
qed

definition sample_config :: config where
  "sample_config =
     NewConfig\<lparr>cf_authorizers :=
        [(''b'', Some \<lparr>ac_type = ''basic'',
                  ac_config = Some (JObj [(''username'', JStr ''u''), (''password'', JStr ''p'')])\<rparr>)],
      cf_endpoints := [Some (sample_endpoint\<lparr>ec_authorizers := [''b'']\<rparr>)]\<rparr>"

definition sample_authorizers :: authorizers where
  "sample_authorizers = [(''b'', BasicAuthorizer \<lparr>bc_username = ''u'', bc_password = ''p''\<rparr>)]"

lemma sample_config_authorizers:
  "GetAuthorizers sample_sys authorizer_table sample_config = Inr sample_authorizers"
proof -
  have l: "lookup_authorizer authorizer_table ''basic'' = Some BasicAuthorizerFactory"
    by (simp add: authorizer_table_lookup authorizer_registrations_def)
  show ?thesis
    by (simp add: GetAuthorizers_def sample_config_def ValidateAuthorizer_def AuthorizerExists_lookup l
      new_basic_def unmarshal_raw_def decode_value_def find_field_def basic_fields_def field_def dec_string_def
      sample_authorizers_def sample_endpoint_def zero_endpoint_def zero_task_config_def NewConfig_def)
qed

text \<open>
  After a successful start, a request to an endpoint whose own authorizers are all defined
  is answered by the check: it never panics, whatever the request holds.
\<close>

lemma authorize_returns:
  assumes "GetAuthorizers S reg config = Inr a" and "Some ec \<in> set (cf_endpoints config)"
    and "set (ec_authorizers ec) \<subseteq> fst ` set (cf_authorizers config)"
  shows "\<exists>res w'. Authorize S a r ec w = Returns (res, w')"
proof -
  note g = GetAuthorizers_Inr [OF assms(1)]
  have "\<forall>n \<in> set (ec_authorizers ec). map_of a n \<noteq> None" using g(2) assms(3) by blast
  moreover have "\<forall>n \<in> set (tc_authorizers (method_config ec m)). map_of a n \<noteq> None" for m
    using g(3) assms(2) unfolding check_endpoints_Inr method_config_def
    by (fastforce simp: zero_task_config_def dest: map_of_SomeD split: option.splits)
  ultimately show ?thesis
    unfolding Authorize_def by (intro accepted_names_defined g(1)) auto
qed

text \<open>
  C36: The names an endpoint itself lists are not checked at start: the authorizers built are
  the same whatever those lists hold.  A name that is not configured starts, and then no
  request to its endpoint gets in: the authorizers listed before it are asked, a request that
  one of them refuses is refused, and any request that all of them accept panics.
\<close>

theorem endpoint_authorizers_unchecked:
  assumes "GetAuthorizers S reg config = Inr a"
    and "ec_authorizers ec = ns1 @ an # ns2" and "an \<notin> fst ` set (cf_authorizers config)"
  shows "GetAuthorizers S reg
           (config\<lparr>cf_endpoints := map (map_option (ec_authorizers_update f)) (cf_endpoints config)\<rparr>) = Inr a \<and>
         Authorize S a r ec w =
           (case authorize_names S a r ns1 w of
              Panics p \<Rightarrow> Panics p
            | Returns (Some e, w1) \<Rightarrow> Returns (Some e, w1)
            | Returns (None, w1) \<Rightarrow> Panics nil_panic)"
proof -
  have an: "map_of a an = None" using GetAuthorizers_Inr(2) [OF assms(1)] assms(3) by blast
  then have "authorize_names S a r (ns1 @ an # ns) w =
      (case authorize_names S a r ns1 w of
         Panics p \<Rightarrow> Panics p
       | Returns (Some e, w1) \<Rightarrow> Returns (Some e, w1)
       | Returns (None, w1) \<Rightarrow> Panics nil_panic)" for ns
    by (induction ns1 arbitrary: w) (auto split: option.splits outcome.splits prod.splits)
  moreover from assms(1) have "build_authorizers S reg (cf_authorizers config) [] = Inr a"
    by (auto simp: GetAuthorizers_def split: sum.splits)
  ultimately show ?thesis using assms(2) GetAuthorizers_Inr(3) [OF assms(1)]
    by (simp add: GetAuthorizers_def check_endpoints_methods_only Authorize_def)
qed

theorem endpoint_authorizers_unchecked_witness:
  "GetAuthorizers sample_sys authorizer_table
     (sample_config\<lparr>cf_endpoints :=
        map (map_option (ec_authorizers_update (\<lambda>_. [''b'', ''x'']))) (cf_endpoints sample_config)\<rparr>)
     = Inr sample_authorizers \<and>
   Authorize sample_sys sample_authorizers
     (sample_request\<lparr>rq_header := [(''Authorization'', [''Basic '' @ b64_encode (''u'' @ colon # ''p'')])]\<rparr>)
     (sample_endpoint\<lparr>ec_authorizers := [''b'', ''x'']\<rparr>) (0::nat) = Panics nil_panic"
proof -
  let ?r = "sample_request\<lparr>rq_header := [(''Authorization'', [''Basic '' @ b64_encode (''u'' @ colon # ''p'')])]\<rparr>"
  have "first_value (rq_header ?r) ''Authorization'' = ''Basic '' @ b64_encode (''u'' @ colon # ''p'')"
    by (simp add: first_value_def del: b64_encode.simps)
  then have "GetBasicAuth ?r = Inr (''u'', ''p'')"
    using b64.decode_encode [of "''u'' @ colon # ''p''"] unfolding GetBasicAuth_Inr_iff by fastforce
  then have "authorize_names sample_sys sample_authorizers ?r [''b''] 0 = Returns (None, 0)"
    by (simp add: sample_authorizers_def authorize_basic_def del: b64_encode.simps)
  then show ?thesis
    using endpoint_authorizers_unchecked [OF sample_config_authorizers,
        of "sample_endpoint\<lparr>ec_authorizers := [''b'', ''x'']\<rparr>" "[''b'']" "''x''" "[]" "\<lambda>_. [''b'', ''x'']" ?r 0]
    by (simp add: sample_config_def del: b64_encode.simps)
qed

end
