(* ===== verification/Task_Common.thy ===== *)
theory Task_Common
  imports Config
begin

text \<open>
  What the tasks of \<open>tasks.go\<close> share: the loop that makes one response per configured item,
  the \<open>single_result\<close> option that picks one of them, and the contract of the validation that
  computes the index.
\<close>

section \<open>Items and the selection of one result\<close>

text \<open>The response of an item: \<open>NewResponse(http.StatusOK).StripStatusData()\<close>.\<close>

definition item_response :: response where
  "item_response = StripStatusData (NewResponse StatusOK)"

text \<open>A loop over the items that appends the response of each.\<close>

fun run_each :: "('i \<Rightarrow> 's \<Rightarrow> response \<times> 's) \<Rightarrow> 'i list \<Rightarrow> 's \<Rightarrow> response list \<times> 's" where
  "run_each f [] s = ([], s)"
| "run_each f (i # is) s =
     (case f i s of (r, s1) \<Rightarrow> (case run_each f is s1 of (rs, s2) \<Rightarrow> (r # rs, s2)))"

text \<open>
  The same loop over pointers to the items: the first thing a turn does is to read a field of
  its item.
\<close>

fun run_ptrs ::
  "('i \<Rightarrow> 's \<Rightarrow> response \<times> 's) \<Rightarrow> 'i option list \<Rightarrow> 's \<Rightarrow> (response list \<times> 's) outcome" where
  "run_ptrs f [] s = Returns ([], s)"
| "run_ptrs f (None # ps) s = Panics nil_panic"
| "run_ptrs f (Some i # ps) s =
     (case f i s of
        (r, s1) \<Rightarrow> bind_outcome (run_ptrs f ps s1) (\<lambda>(rs, s2). Returns (r # rs, s2)))"

definition select_result :: "int \<Rightarrow> response list \<Rightarrow> response \<Rightarrow> response outcome" where
  "select_result idx results response =
     (if idx \<noteq> -1 then
        bind_outcome (go_index results idx) (\<lambda>r. Returns (Result (embed r) response))
      else Returns (Result (VList (map embed results)) response))"

text \<open>
  The index that \<open>Validate\<close> stores: -1 without \<open>single_result\<close>, otherwise the number given,
  which may not exceed the last position.
\<close>

definition single_index :: "string \<Rightarrow> int option \<Rightarrow> 'i list \<Rightarrow> int result" where
  "single_index msg single items =
     (case single of
        None \<Rightarrow> Inr (-1)
      | Some i \<Rightarrow> (if i > int (length items) - 1 then Inl (ErrNew msg) else Inr i))"

text \<open>A slice of strings, a slice of rows, as values.\<close>

definition string_list :: "string list \<Rightarrow> gval" where
  "string_list ss = VList (map VStr ss)"

definition row_list :: "row list \<Rightarrow> gval" where
  "row_list rows = VList (map VMap rows)"

declare run_each.simps(2) [simp del]

lemma run_each_Cons [simp]:
  "run_each f (i # is) s =
     (fst (f i s) # fst (run_each f is (snd (f i s))), snd (run_each f is (snd (f i s))))"
  by (simp add: run_each.simps(2) split: prod.splits)

lemma run_ptrs_map [simp]: "run_ptrs f (map Some is) s = Returns (run_each f is s)"
  by (induction "is" arbitrary: s) (simp_all add: case_prod_unfold)

lemma run_ptrs_nil: "None \<in> set ps \<Longrightarrow> run_ptrs f ps s = Panics nil_panic"
  by (induction f ps s rule: run_ptrs.induct) (auto split: prod.splits)

lemma run_ptrs_Returns:
  "run_ptrs f ps s = Returns res \<longleftrightarrow> (\<exists>is. ps = map Some is \<and> res = run_each f is s)"
proof (cases "None \<in> set ps")
  case True
  then show ?thesis by (auto simp: run_ptrs_nil)
next
  case False
  then obtain "is" where "ps = map Some is" by (auto simp: no_nil)
  then show ?thesis by auto
qed

lemma length_run_each [simp]: "length (fst (run_each f is s)) = length is"
  by (induction "is" arbitrary: s) simp_all

text \<open>The response of the item at a position is made in the state its predecessors leave.\<close>

lemma run_each_nth:
  "n < length is \<Longrightarrow>
     fst (run_each f is s) ! n = fst (f (is ! n) (snd (run_each f (take n is) s)))"
proof (induction "is" arbitrary: n s)
  case Nil
  then show ?case by simp
next
  case (Cons i "is")
  then show ?case by (cases n) auto
qed

lemma run_each_all:
  assumes "\<And>i s. i \<in> set is \<Longrightarrow> P (fst (f i s))"
  shows "list_all P (fst (run_each f is s))"
  using assms by (induction "is" arbitrary: s) auto

lemma select_all [go_simps]:
  "select_result (-1) results r = Returns (Result (VList (map embed results)) r)"
  by (simp add: select_result_def)

lemma select_one [go_simps]:
  "0 \<le> i \<Longrightarrow> i < int (length results) \<Longrightarrow>
     select_result i results r = Returns (Result (embed (results ! nat i)) r)"
  by (simp add: select_result_def go_simps)

lemma select_out [go_simps]:
  "i < -1 \<or> int (length results) \<le> i \<Longrightarrow> select_result i results r = Panics index_panic"
  by (auto simp: select_result_def go_simps)

lemma single_index_Inr:
  "single_index msg single items = Inr k \<longleftrightarrow>
     (case single of None \<Rightarrow> k = -1 | Some i \<Rightarrow> k = i \<and> i < int (length items))"
  by (auto simp: single_index_def split: option.splits)

lemma item_response_simps [simp]:
  "rs_status item_response = 200" "rs_pretty item_response = False" "rs_raw item_response = None"
  "rs_data item_response = [(''message'', VStr ''OK'')]"
  by (simp_all add: item_response_def NewResponse_def Status_def AddValue_def StripStatusData_def Let_def)

lemma AddValue_simps [simp]:
  "rs_status (AddValue k v r) = rs_status r" "rs_pretty (AddValue k v r) = rs_pretty r"
  "rs_raw (AddValue k v r) = rs_raw r" "value_of (AddValue k v r) = (value_of r)(k \<mapsto> v)"
  by (simp_all add: rv.get_put) (simp_all add: AddValue_def)

lemma StripStatusData_simps [simp]:
  "rs_status (StripStatusData r) = rs_status r" "rs_pretty (StripStatusData r) = rs_pretty r"
  "rs_raw (StripStatusData r) = rs_raw r" "value_of (StripStatusData r) = (value_of r)(''status'' := None)"
  by (auto simp: StripStatusData_def value_of_def Let_def fun_eq_iff split: option.splits)

lemma Status_simps [simp]:
  "rs_status (Status n r) = n" "rs_pretty (Status n r) = rs_pretty r" "rs_raw (Status n r) = rs_raw r"
  "value_of (Status n r) =
     (value_of r)(''status'' \<mapsto> VInt n, ''message'' \<mapsto> VStr (StatusText n))"
  by (simp_all add: Status_def Let_def) (simp add: value_of_def fun_eq_iff)

lemma NewResponse_simps [simp]:
  "rs_status (NewResponse n) = n" "rs_pretty (NewResponse n) = False" "rs_raw (NewResponse n) = None"
  "value_of (NewResponse n) = [''status'' \<mapsto> VInt n, ''message'' \<mapsto> VStr (StatusText n)]"
  by (simp_all add: NewResponse_def) (simp add: value_of_def fun_eq_iff)

lemma value_of_item_response [simp]: "value_of item_response = [''message'' \<mapsto> VStr ''OK'']"
  by (simp add: value_of_def fun_eq_iff)

lemma Result_simps [simp]:
  "rs_status (Result v r) = rs_status r" "rs_raw (Result v r) = rs_raw r"
  "value_of (Result v r) = (value_of r)(''result'' \<mapsto> v)"
  by (simp_all add: Result_def)

lemma Error_simps [simp]:
  "rs_status (Error v r) = rs_status r" "rs_raw (Error v r) = rs_raw r"
  "value_of (Error v r) = (value_of r)(''error'' \<mapsto> v)"
  by (simp_all add: Error_def)

text \<open>
  Stripping the status data removes "status" only.  The "message" stays, so that a new
  response is not the empty object afterwards; updating the status data brings back exactly
  what stripping removed.
\<close>

theorem strip_status_data:
  "value_of (StripStatusData r) = (value_of r)(''status'' := None) \<and>
   value_of (StripStatusData (NewResponse n)) = [''message'' \<mapsto> VStr (StatusText n)] \<and>
   value_of (UpdateStatusData (StripStatusData r)) = value_of (UpdateStatusData r)"
  by (auto simp: UpdateStatusData_def fun_eq_iff)

section \<open>The contract of a configuration with a single result\<close>

text \<open>An index that selects one of the results, or with -1 all of them.\<close>

definition selects :: "int \<Rightarrow> 'i list \<Rightarrow> bool" where
  "selects i xs \<longleftrightarrow> -1 \<le> i \<and> i < int (length xs)"

definition single_answers :: "int option \<Rightarrow> bool" where
  "single_answers single = pred_option (\<lambda>i. -1 \<le> i) single"

lemma select_result_selects: "selects i results \<Longrightarrow> \<exists>r'. select_result i results r = Returns r'"
  by (cases "i = -1") (auto simp: selects_def go_simps)

lemma selects_length: "length ys = length xs \<Longrightarrow> selects i ys = selects i xs"
  by (simp add: selects_def)

locale indexed_config =
  fixes validate :: "'c \<Rightarrow> 'e + 'c"
    and items :: "'c \<Rightarrow> 'i list"
    and single :: "'c \<Rightarrow> int option"
    and index :: "'c \<Rightarrow> int"
  assumes items_kept: "validate c = Inr c' \<Longrightarrow> length (items c') = length (items c) \<and> items c \<noteq> []"
    and index_of_single: "validate c = Inr c' \<Longrightarrow>
          index c' = (case single c of None \<Rightarrow> -1 | Some i \<Rightarrow> i) \<and> index c' < int (length (items c'))"
begin

lemma items_nonempty: "validate c = Inr c' \<Longrightarrow> items c' \<noteq> []"
  using items_kept by fastforce

text \<open>Which results a validated configuration shows.\<close>

lemma shows_all:
  assumes "validate c = Inr c'" and "single c = None \<or> single c = Some (-1)"
  shows "select_result (index c') results r = Returns (Result (VList (map embed results)) r)"
  using index_of_single [OF assms(1)] assms(2) by (auto simp: go_simps)

lemma shows_one:
  assumes "validate c = Inr c'" and "single c = Some i" and "0 \<le> i"
    and "length results = length (items c')"
  shows "select_result (index c') results r = Returns (Result (embed (results ! nat i)) r)"
  using index_of_single [OF assms(1)] assms(2-4) by (auto simp: go_simps)

lemma shows_iff:
  assumes "validate c = Inr c'" and "length results = length (items c')"
  shows "(\<exists>r'. select_result (index c') results r = Returns r') \<longleftrightarrow>
           (case single c of None \<Rightarrow> True | Some i \<Rightarrow> -1 \<le> i)"
  using index_of_single [OF assms(1)] assms(2)
  by (cases "index c' = -1"; cases "0 \<le> index c'") (auto simp: go_simps split: option.splits)

lemma single_selects:
  "validate c = Inr c' \<Longrightarrow> single_answers (single c) \<Longrightarrow> selects (index c') (items c')"
  using index_of_single [of c c'] by (cases "single c") (auto simp: selects_def single_answers_def)

lemma negative_panics:
  assumes "validate c = Inr c'" and "single c = Some i" and "i < -1"
  shows "select_result (index c') results r = Panics index_panic"
  using index_of_single [OF assms(1)] assms(2,3) by (simp add: go_simps)

end

section \<open>The contract of a task that runs its items\<close>

text \<open>
  A task with such a configuration whose \<open>Run\<close> makes a response per item and then selects.
  \<open>turn\<close> is one turn of its loop; a task whose items are structs has no nil among them.
\<close>

locale item_task = indexed_config validate "items :: 'c \<Rightarrow> 'i option list" single index
  for validate :: "'c \<Rightarrow> 'e + 'c" and items and single and index +
  fixes turn :: "'c \<Rightarrow> 'i \<Rightarrow> 's \<Rightarrow> response \<times> 's"
    and run :: "'c \<Rightarrow> 's \<Rightarrow> (response \<times> 's) outcome"
  assumes run_turns: "run c s =
    bind_outcome (run_ptrs (turn c) (items c) s)
      (\<lambda>(results, s1).
         bind_outcome (select_result (index c) results (NewResponse StatusOK))
           (\<lambda>response. Returns (response, s1)))"
begin

lemma run_null: "None \<in> set (items c) \<Longrightarrow> run c s = Panics nil_panic"
  by (simp add: run_turns run_ptrs_nil)

lemma run_items:
  "items c = map Some xs \<Longrightarrow>
     run c s =
       bind_outcome (select_result (index c) (fst (run_each (turn c) xs s)) (NewResponse StatusOK))
         (\<lambda>response. Returns (response, snd (run_each (turn c) xs s)))"
  by (simp add: run_turns case_prod_unfold)

lemma run_status: "run c s = Returns (r, s') \<Longrightarrow> rs_status r = StatusOK"
  by (auto simp: run_turns select_result_def go_simps split: if_splits)

text \<open>A task with no nil item and an index that selects one of its results, or none, answers.\<close>

lemma run_returns:
  assumes "None \<notin> set (items c)" and "selects (index c) (items c)"
  shows "\<exists>r s'. run c s = Returns (r, s')"
proof -
  from assms(1) obtain xs where xs: "items c = map Some xs" by (auto simp: no_nil)
  have "selects (index c) (fst (run_each (turn c) xs s))" using assms(2) by (simp add: selects_def xs)
  from select_result_selects [OF this, of "NewResponse StatusOK"] show ?thesis
    by (auto simp: run_items [OF xs])
qed

text \<open>When a validated task panics.\<close>

lemma panics_iff:
  assumes "validate c = Inr c'"
  shows "(\<exists>p. run c' s = Panics p) \<longleftrightarrow> None \<in> set (items c') \<or> (\<exists>i. single c = Some i \<and> i < -1)"
proof (cases "None \<in> set (items c')")
  case True
  then show ?thesis by (simp add: run_null)
next
  case False
  then obtain xs where xs: "items c' = map Some xs" by (auto simp: no_nil)
  let ?sel = "select_result (index c') (fst (run_each (turn c') xs s)) (NewResponse StatusOK)"
  have "(\<exists>p. run c' s = Panics p) \<longleftrightarrow> \<not> (\<exists>r. ?sel = Returns r)"
    by (cases ?sel) (simp_all add: run_items [OF xs])
  also have "\<dots> \<longleftrightarrow> (\<exists>i. single c = Some i \<and> i < -1)"
    by (subst shows_iff [OF assms]) (auto simp: xs split: option.splits)
  finally show ?thesis using False by simp
qed

text \<open>What a validated task with a \<open>single_result\<close> answers.\<close>

lemma selected:
  assumes "validate c = Inr c'" and "single c = Some i" and "0 \<le> i" and "items c' = map Some xs"
  shows "nat i < length xs" and
    "run c' s =
       Returns (Result (embed (fst (turn c' (xs ! nat i) (snd (run_each (turn c') (take (nat i) xs) s)))))
                  (NewResponse StatusOK),
                snd (run_each (turn c') xs s))"
proof -
  show i: "nat i < length xs" using index_of_single [OF assms(1)] assms(2-4) by (simp add: nat_less_iff)
  have "select_result (index c') (fst (run_each (turn c') xs s)) (NewResponse StatusOK) =
      Returns (Result (embed (fst (run_each (turn c') xs s) ! nat i)) (NewResponse StatusOK))"
    by (rule shows_one [OF assms(1-3)]) (simp add: assms(4))
  then show "run c' s =
      Returns (Result (embed (fst (turn c' (xs ! nat i) (snd (run_each (turn c') (take (nat i) xs) s)))))
                 (NewResponse StatusOK),
               snd (run_each (turn c') xs s))"
    by (simp add: run_items [OF assms(4)] run_each_nth [OF i])
qed

end

end
