(* ===== verification/Task_Shell.thy ===== *)
theory Task_Shell
  imports Task_Common
begin

text \<open>The shell task of \<open>tasks.go\<close>: its configuration, factory and \<open>Run\<close>.\<close>

record shell_command =
  sc_command :: string
  sc_chdir :: string
  sc_format :: string
  sc_return_command :: bool

record shell_config =
  sh_env :: "(string \<times> string) list"
  sh_shell :: string
  sh_commands :: "shell_command option list"
  sh_single :: "int option"
  sh_index :: int

definition shell_command_fields :: "shell_command fields" where
  "shell_command_fields =
     [(''command'', field sc_command (\<lambda>v. sc_command_update (\<lambda>_. v)) dec_string),
      (''chdir'', field sc_chdir (\<lambda>v. sc_chdir_update (\<lambda>_. v)) dec_string),
      (''format'', field sc_format (\<lambda>v. sc_format_update (\<lambda>_. v)) dec_string),
      (''return_command'', field sc_return_command (\<lambda>v. sc_return_command_update (\<lambda>_. v)) dec_bool)]"

definition shell_fields :: "shell_config fields" where
  "shell_fields =
     [(''env'', field sh_env (\<lambda>v. sh_env_update (\<lambda>_. v)) dec_string_map),
      (''shell'', field sh_shell (\<lambda>v. sh_shell_update (\<lambda>_. v)) dec_string),
      (''commands'', field sh_commands (\<lambda>v. sh_commands_update (\<lambda>_. v))
         (dec_slice (dec_ptr shell_command_fields
           \<lparr>sc_command = [], sc_chdir = [], sc_format = [], sc_return_command = False\<rparr>) None)),
      (''single_result'', field sh_single (\<lambda>v. sh_single_update (\<lambda>_. v)) dec_int_ptr)]"

definition ValidateShellCommand :: "format_registry \<Rightarrow> shell_command \<Rightarrow> shell_command result" where
  "ValidateShellCommand formats c =
     (case VerifyFormat formats (sc_format c) of
        Inl e \<Rightarrow> Inl e
      | Inr f \<Rightarrow> Inr (c\<lparr>sc_format := f\<rparr>))"

definition ValidateShell :: "format_registry \<Rightarrow> shell_config \<Rightarrow> shell_config attempt" where
  "ValidateShell formats c =
     (if sh_commands c = [] then Inl (Fails (ErrNew ''please provide at least one command''))
      else
        (case mapM_result (deref (ValidateShellCommand formats)) (sh_commands c) of
           Inl e \<Rightarrow> Inl e
         | Inr cs \<Rightarrow>
             (case single_index ''single_result out of bounds'' (sh_single c) cs of
                Inl e \<Rightarrow> Inl (Fails e)
              | Inr i \<Rightarrow> Inr (c\<lparr>sh_commands := cs, sh_index := i\<rparr>))))"

definition NewShellTaskConfig :: shell_config where
  "NewShellTaskConfig =
     \<lparr>sh_env = [], sh_shell = ''/bin/sh'', sh_commands = [], sh_single = None, sh_index = 0\<rparr>"

definition ShellFactory :: "format_registry \<Rightarrow> json option \<Rightarrow> shell_config attempt" where
  "ShellFactory formats raw =
     (case unmarshal_raw shell_fields raw NewShellTaskConfig of
        Inl e \<Rightarrow> Inl (Fails e)
      | Inr config \<Rightarrow> ValidateShell formats config)"

text \<open>
  The environment handed to a command; an empty list makes \<open>os/exec\<close> use the environment of
  the process.
\<close>

definition shell_env :: "shell_config \<Rightarrow> string list" where
  "shell_env c = map (\<lambda>(k, v). k @ ''='' @ v) (sh_env c)"

text \<open>One turn of the loop of \<open>Run\<close>.\<close>

definition run_command ::
  "('t, 'w) sys \<Rightarrow> shell_config \<Rightarrow> gval \<Rightarrow> shell_command \<Rightarrow> 'w \<Rightarrow> response \<times> 'w" where
  "run_command S c data command w =
     (case Interpolate S (sc_command command) data of
        Inl e \<Rightarrow> (StripStatusData (Error (VErr e) item_response), w)
      | Inr finalCommand \<Rightarrow>
          (let cmdresp = (if sc_return_command command
                          then AddValue ''command'' (VStr finalCommand) item_response
                          else item_response)
           in case exec_output S (sh_shell c) finalCommand (sc_chdir command) (shell_env c) w of
                (Inl e, w1) \<Rightarrow> (StripStatusData (Error (VErr e) cmdresp), w1)
              | (Inr out, w1) \<Rightarrow>
                  (case Format (format_table (float_text S)) (TrimSpace out) (sc_format command) of
                     (re, f, None) \<Rightarrow>
                       (StripStatusData (AddValue ''format'' (VStr f) (Result re cmdresp)), w1)
                   | (re, f, Some e) \<Rightarrow> (StripStatusData (Error (VErr e) cmdresp), w1))))"

definition run_shell ::
  "('t, 'w) sys \<Rightarrow> shell_config \<Rightarrow> gval \<Rightarrow> 'w \<Rightarrow> (response \<times> 'w) outcome" where
  "run_shell S c data w =
     bind_outcome (run_ptrs (run_command S c data) (sh_commands c) w)
       (\<lambda>(results, w1).
          bind_outcome (select_result (sh_index c) results (NewResponse StatusOK))
            (\<lambda>response. Returns (response, w1)))"

section \<open>The contract\<close>

lemma ValidateShell_Inr:
  assumes "ValidateShell formats c = Inr c'"
  shows "\<exists>cs cs'. sh_commands c = map Some cs \<and> sh_commands c' = map Some cs' \<and>
           mapM_result (ValidateShellCommand formats) cs = Inr cs'"
    and "sh_commands c \<noteq> []" and "sh_env c' = sh_env c" and "sh_shell c' = sh_shell c"
    and "single_index ''single_result out of bounds'' (sh_single c) (sh_commands c') = Inr (sh_index c')"
  using assms by (auto simp: ValidateShell_def mapM_deref_Inr split: if_splits sum.splits)

interpretation shell: item_task "ValidateShell formats" sh_commands sh_single sh_index
  "\<lambda>c. run_command S c data" "\<lambda>c. run_shell S c data"
proof
  fix c c' assume v: "ValidateShell formats c = Inr c'"
  note s = ValidateShell_Inr [OF v]
  show "length (sh_commands c') = length (sh_commands c) \<and> sh_commands c \<noteq> []"
    using s(1,2) by (auto dest: mapM_result_length)
  show "sh_index c' = (case sh_single c of None \<Rightarrow> - 1 | Some i \<Rightarrow> i) \<and>
      sh_index c' < int (length (sh_commands c'))"
    using s(5) by (auto simp: single_index_Inr split: option.splits)
qed (simp add: run_shell_def)

lemma shell_no_nil: "ValidateShell formats c = Inr c' \<Longrightarrow> None \<notin> set (sh_commands c')"
  using ValidateShell_Inr(1) by fastforce

section \<open>What a shell task answers\<close>

text \<open>
  C28: With a \<open>single_result\<close> that names a command, a shell task still runs every command in
  order, and answers with the response of that one, made in the state the commands before it
  left.
\<close>

theorem shell_single_result:
  assumes "ValidateShell formats c = Inr c'" and "sh_single c = Some i" and "0 \<le> i"
  shows "\<exists>cs. sh_commands c' = map Some cs \<and> nat i < length cs \<and>
     run_shell S c' data w =
       Returns (Result (embed (fst (run_command S c' data (cs ! nat i)
                  (snd (run_each (run_command S c' data) (take (nat i) cs) w)))))
                 (NewResponse 200),
                snd (run_each (run_command S c' data) cs w))"
proof -
  from ValidateShell_Inr(1) [OF assms(1)] obtain cs where cs: "sh_commands c' = map Some cs" by blast
  show ?thesis by (intro exI [of _ cs] conjI cs shell.selected [OF assms cs])
qed

text \<open>
  A command of a validated configuration whose template renders and which exits without an
  error always yields a result: the value of the first of its formats that accepts the trimmed
  output, and the name of that format.
\<close>

theorem shell_command_formatted:
  assumes "ValidateShell (format_table (float_text S)) c = Inr c'" and "Some cmd \<in> set (sh_commands c')"
    and "Interpolate S (sc_command cmd) data = Inr finalCommand"
    and "exec_output S (sh_shell c') finalCommand (sc_chdir cmd) (shell_env c') w = (Inr out, w1)"
  shows "\<exists>v f fn. value_of (fst (run_command S c' data cmd w)) ''result'' = Some v \<and>
           value_of (fst (run_command S c' data cmd w)) ''format'' = Some (VStr f) \<and>
           value_of (fst (run_command S c' data cmd w)) ''error'' = None \<and>
           f \<in> set (split_on bar (sc_format cmd)) \<and>
           map_of (format_table (float_text S)) f = Some fn \<and> fn (TrimSpace out) = Inr v"
proof -
  let ?T = "format_table (float_text S)"
  from ValidateShell_Inr(1) [OF assms(1)] assms(2)
  obtain c0 where "ValidateShellCommand ?T c0 = Inr cmd" by (auto dest: mapM_result_set)
  then have "VerifyFormat ?T (sc_format c0) = Inr (sc_format cmd)"
    by (auto simp: ValidateShellCommand_def split: sum.splits)
  from Format_verified [OF this, of "TrimSpace out"] obtain v f fn
    where "Format ?T (TrimSpace out) (sc_format cmd) = (v, f, None)"
      and "f \<in> set (split_on bar (sc_format cmd))" "map_of ?T f = Some fn" "fn (TrimSpace out) = Inr v"
    by auto
  with assms(3,4) show ?thesis by (simp add: run_command_def Let_def)
qed

text \<open>A validated command, and a configuration of two of them.\<close>

definition two_commands :: shell_config where
  "two_commands =
     NewShellTaskConfig\<lparr>sh_commands :=
       [Some \<lparr>sc_command = ''id'', sc_chdir = [], sc_format = ''text'', sc_return_command = False\<rparr>,
        Some \<lparr>sc_command = ''ls'', sc_chdir = ''/tmp'', sc_format = ''lines|text'', sc_return_command = True\<rparr>],
       sh_single := Some 1, sh_index := 1\<rparr>"

lemma two_commands_valid: "ValidateShell (format_table ft) two_commands = Inr two_commands"
  by (simp add: two_commands_def NewShellTaskConfig_def ValidateShell_def deref_def ValidateShellCommand_def
      VerifyFormat_def single_index_def format_table_lookup format_registrations_def)

theorem shell_single_result_witness:
  "\<exists>cs. sh_commands two_commands = map Some cs \<and> nat 1 < length cs \<and>
     run_shell sample_sys two_commands VNil 0 =
       Returns (Result (embed (fst (run_command sample_sys two_commands VNil (cs ! nat 1)
                  (snd (run_each (run_command sample_sys two_commands VNil) (take (nat 1) cs) 0)))))
                 (NewResponse 200),
                snd (run_each (run_command sample_sys two_commands VNil) cs 0))"
  by (rule shell_single_result [OF two_commands_valid]) (simp_all add: two_commands_def)

theorem shell_command_formatted_witness:
  "\<exists>v f fn.
     value_of (fst (run_command sample_sys two_commands VNil (the (sh_commands two_commands ! 0)) 0)) ''result'' = Some v \<and>
     value_of (fst (run_command sample_sys two_commands VNil (the (sh_commands two_commands ! 0)) 0)) ''format'' = Some (VStr f) \<and>
     value_of (fst (run_command sample_sys two_commands VNil (the (sh_commands two_commands ! 0)) 0)) ''error'' = None \<and>
     f \<in> set (split_on bar ''text'') \<and>
     map_of (format_table (float_text sample_sys)) f = Some fn \<and> fn (TrimSpace ''id'') = Inr v"
  using shell_command_formatted [OF two_commands_valid, where S = sample_sys and data = VNil and w = 0
      and cmd = "the (sh_commands two_commands ! 0)" and finalCommand = "''id''" and out = "''id''" and ?w1.0 = 1]
  by (simp add: two_commands_def sample_sys_def Interpolate_def RenderTemplate_def NewShellTaskConfig_def)

end
