(* ===== verification/Task_Http.thy ===== *)
theory Task_Http
  imports Task_Common
begin

text \<open>
  The HTTP task of \<open>tasks.go\<close>.  The state of its loop is the reader of the request's body,
  which \<open>post_body\<close> hands to the client, and the world.
\<close>

record http_url =
  hu_url :: string
  hu_method :: string
  hu_post_body :: bool
  hu_format :: string
  hu_return_headers :: bool

record http_config =
  ht_urls :: "http_url option list"
  ht_single :: "int option"
  ht_index :: int

definition http_url_fields :: "http_url fields" where
  "http_url_fields =
     [(''url'', field hu_url (\<lambda>v. hu_url_update (\<lambda>_. v)) dec_string),
      (''method'', field hu_method (\<lambda>v. hu_method_update (\<lambda>_. v)) dec_string),
      (''post_body'', field hu_post_body (\<lambda>v. hu_post_body_update (\<lambda>_. v)) dec_bool),
      (''format'', field hu_format (\<lambda>v. hu_format_update (\<lambda>_. v)) dec_string),
      (''return_headers'', field hu_return_headers (\<lambda>v. hu_return_headers_update (\<lambda>_. v)) dec_bool)]"

definition http_fields :: "http_config fields" where
  "http_fields =
     [(''urls'', field ht_urls (\<lambda>v. ht_urls_update (\<lambda>_. v))
         (dec_slice (dec_ptr http_url_fields
           \<lparr>hu_url = [], hu_method = [], hu_post_body = False, hu_format = [],
            hu_return_headers = False\<rparr>) None)),
      (''single_result'', field ht_single (\<lambda>v. ht_single_update (\<lambda>_. v)) dec_int_ptr)]"

definition validate_http_url :: "format_registry \<Rightarrow> http_url \<Rightarrow> http_url result" where
  "validate_http_url formats u =
     (let u1 = u\<lparr>hu_url := TrimSpace (hu_url u)\<rparr> in
      if hu_url u1 = [] then Inl (ErrNew ''Invalid url in http task.'')
      else
        (case VerifyFormat formats (hu_format u1) of
           Inl e \<Rightarrow> Inl e
         | Inr f \<Rightarrow> Inr (u1\<lparr>hu_format := f\<rparr>)))"

definition ValidateHttp :: "format_registry \<Rightarrow> http_config \<Rightarrow> http_config attempt" where
  "ValidateHttp formats c =
     (if ht_urls c = [] then Inl (Fails (ErrNew ''http task must provide at least one url''))
      else
        (case mapM_result (deref (validate_http_url formats)) (ht_urls c) of
           Inl e \<Rightarrow> Inl e
         | Inr us \<Rightarrow>
             (case single_index ''http task single_result out of bounds'' (ht_single c) us of
                Inl e \<Rightarrow> Inl (Fails e)
              | Inr i \<Rightarrow> Inr (c\<lparr>ht_urls := us, ht_index := i\<rparr>))))"

abbreviation zero_http_config :: http_config where
  "zero_http_config \<equiv> \<lparr>ht_urls = [], ht_single = None, ht_index = 0\<rparr>"

definition HttpFactory :: "format_registry \<Rightarrow> json option \<Rightarrow> http_config attempt" where
  "HttpFactory formats raw =
     (case unmarshal_raw http_fields raw zero_http_config of
        Inl e \<Rightarrow> Inl (Fails e)
      | Inr config \<Rightarrow> ValidateHttp formats config)"

text \<open>The response of one upstream answer whose body was read.\<close>

definition upstream_response ::
  "('t, 'w) sys \<Rightarrow> http_url \<Rightarrow> http_response \<Rightarrow> string \<Rightarrow> response" where
  "upstream_response S url resp respbody =
     (let ir1 = Status (hp_status resp) item_response;
          ir2 = (if hu_return_headers url
                 then AddValue ''headers'' (header_map (hp_header resp)) ir1 else ir1)
      in case Format (format_table (float_text S)) respbody (hu_format url) of
           (re, f, None) \<Rightarrow> AddValue ''format'' (VStr f) (Result re ir2)
         | (re, f, Some e) \<Rightarrow> Error (VErr e) ir2)"

text \<open>
  One turn of the loop of \<open>Run\<close>.  The format the code guesses from the Content-Type header of
  the client's request is a local variable that is never read, so it has no counterpart here:
  the configured format is used.
\<close>

definition run_url ::
  "('t, 'w) sys \<Rightarrow> request \<Rightarrow> gval \<Rightarrow> http_url \<Rightarrow> reader option \<times> 'w
     \<Rightarrow> response \<times> (reader option \<times> 'w)" where
  "run_url S r data url st =
     (case st of (rbody, w) \<Rightarrow>
        (let body = (if hu_post_body url \<and> rbody \<noteq> None then rbody else None);
             method = (if hu_method url \<noteq> [] then hu_method url else rq_method r)
         in case Interpolate S (hu_url url) data of
              Inl e \<Rightarrow> (Error (VErr e) item_response, st)
            | Inr b \<Rightarrow>
                (case new_request S method b of
                   Some e \<Rightarrow> (Error (VErr e) item_response, st)
                 | None \<Rightarrow>
                     (case http_do S \<lparr>dial_timeout = None\<rparr>
                             \<lparr>hq_method = method, hq_url = b, hq_body = body\<rparr> w of
                        ((res, left), w1) \<Rightarrow>
                          (let st1 = (if body \<noteq> None then left else rbody, w1)
                           in case res of
                                Inl e \<Rightarrow> (Error (VErr e) item_response, st1)
                              | Inr resp \<Rightarrow>
                                  (case hp_body resp of
                                     Inl e \<Rightarrow> (Error (VErr e) item_response, st1)
                                   | Inr respbody \<Rightarrow>
                                       (upstream_response S url resp respbody, st1)))))))"

definition run_http ::
  "('t, 'w) sys \<Rightarrow> http_config \<Rightarrow> request \<Rightarrow> gval \<Rightarrow> reader option \<times> 'w
     \<Rightarrow> (response \<times> (reader option \<times> 'w)) outcome" where
  "run_http S c r data st =
     bind_outcome (run_ptrs (run_url S r data) (ht_urls c) st)
       (\<lambda>(results, st1).
          bind_outcome (select_result (ht_index c) results (NewResponse StatusOK))
            (\<lambda>response. Returns (response, st1)))"

section \<open>The contract\<close>

lemma ValidateHttp_Inr:
  assumes "ValidateHttp formats c = Inr c'"
  shows "\<exists>us us'. ht_urls c = map Some us \<and> ht_urls c' = map Some us' \<and>
           mapM_result (validate_http_url formats) us = Inr us'"
    and "ht_urls c \<noteq> []"
    and "single_index ''http task single_result out of bounds'' (ht_single c) (ht_urls c') = Inr (ht_index c')"
  using assms by (auto simp: ValidateHttp_def mapM_deref_Inr split: if_splits sum.splits)

interpretation http: item_task "ValidateHttp formats" ht_urls ht_single ht_index
  "\<lambda>c. run_url S r data" "\<lambda>c. run_http S c r data"
proof
  fix c c' assume v: "ValidateHttp formats c = Inr c'"
  note s = ValidateHttp_Inr [OF v]
  show "length (ht_urls c') = length (ht_urls c) \<and> ht_urls c \<noteq> []"
    using s(1,2) by (auto dest: mapM_result_length)
  show "ht_index c' = (case ht_single c of None \<Rightarrow> - 1 | Some i \<Rightarrow> i) \<and>
      ht_index c' < int (length (ht_urls c'))"
    using s(3) by (auto simp: single_index_Inr split: option.splits)
qed (simp add: run_http_def)

lemma http_no_nil: "ValidateHttp formats c = Inr c' \<Longrightarrow> None \<notin> set (ht_urls c')"
  using ValidateHttp_Inr(1) by fastforce

end
