(* ===== verification/Task_Sql.thy ===== *)
theory Task_Sql
  imports Task_Common
begin

text \<open>The Postgres and MySQL tasks of \<open>tasks.go\<close>.\<close>

text \<open>A configured query; both tasks use the same three fields.\<close>

record sql_query =
  sq_url :: string
  sq_query :: string
  sq_args :: "string list"

definition sql_query_fields :: "sql_query fields" where
  "sql_query_fields =
     [(''url'', field sq_url (\<lambda>v. sq_url_update (\<lambda>_. v)) dec_string),
      (''query'', field sq_query (\<lambda>v. sq_query_update (\<lambda>_. v)) dec_string),
      (''args'', field sq_args (\<lambda>v. sq_args_update (\<lambda>_. v)) dec_strings)]"

record sql_config =
  sl_queries :: "sql_query option list"
  sl_return_queries :: bool
  sl_single :: "int option"
  sl_index :: int

definition sql_fields :: "sql_config fields" where
  "sql_fields =
     [(''queries'', field sl_queries (\<lambda>v. sl_queries_update (\<lambda>_. v))
         (dec_slice (dec_ptr sql_query_fields \<lparr>sq_url = [], sq_query = [], sq_args = []\<rparr>) None)),
      (''return_queries'', field sl_return_queries (\<lambda>v. sl_return_queries_update (\<lambda>_. v)) dec_bool),
      (''single_result'', field sl_single (\<lambda>v. sl_single_update (\<lambda>_. v)) dec_int_ptr)]"

definition zero_sql_config :: sql_config where
  "zero_sql_config =
     \<lparr>sl_queries = [], sl_return_queries = False, sl_single = None, sl_index = 0\<rparr>"

section \<open>Postgres\<close>

definition ValidatePostgres :: "sql_config \<Rightarrow> sql_config result" where
  "ValidatePostgres c =
     (if sl_queries c = [] then Inl (ErrNew ''please provide at least one queryS'')
      else
        (case single_index ''postgres task single_result out of bounds'' (sl_single c) (sl_queries c) of
           Inl e \<Rightarrow> Inl e
         | Inr i \<Rightarrow> Inr (c\<lparr>sl_index := i\<rparr>)))"

definition PostgresFactory :: "json option \<Rightarrow> sql_config result" where
  "PostgresFactory raw =
     (case unmarshal_raw sql_fields raw zero_sql_config of
        Inl e \<Rightarrow> Inl e
      | Inr config \<Rightarrow> ValidatePostgres config)"

text \<open>An error of the driver: its condition name is added when it is a \<open>*pq.Error\<close>.\<close>

definition pq_failed :: "('t, 'w) sys \<Rightarrow> go_error \<Rightarrow> response \<Rightarrow> response" where
  "pq_failed S e r =
     Error (VErr e)
       (case pq_code S e of None \<Rightarrow> r | Some code \<Rightarrow> AddValue ''error_code'' (VStr code) r)"

text \<open>One turn of the loop of \<open>Run\<close>.\<close>

definition run_pg_query ::
  "('t, 'w) sys \<Rightarrow> sql_config \<Rightarrow> gval \<Rightarrow> sql_query \<Rightarrow> 'w \<Rightarrow> response \<times> 'w" where
  "run_pg_query S c data q w =
     (case Interpolate S (sq_url q) data of
        Inl e \<Rightarrow> (Error (VErr e) item_response, w)
      | Inr url \<Rightarrow>
          (case mapM_result (\<lambda>arg. Interpolate S arg data) (sq_args q) of
             Inl e \<Rightarrow> (Error (VErr e) item_response, w)
           | Inr args \<Rightarrow>
               (let r1 = (if sl_return_queries c
                          then AddValue ''args'' (string_list args)
                                 (AddValue ''query'' (VStr (sq_query q)) item_response)
                          else item_response)
                in case sql_connect S ''postgres'' url w of
                     (Inl e, w1) \<Rightarrow> (pq_failed S e r1, w1)
                   | (Inr db, w1) \<Rightarrow>
                       (case sql_queryx S db (sq_query q) args w1 of
                          (Inl e, w2) \<Rightarrow> (pq_failed S e r1, w2)
                        | (Inr (rows, Some e), w2) \<Rightarrow> (pq_failed S e r1, w2)
                        | (Inr (rows, None), w2) \<Rightarrow> (Result (row_list rows) r1, w2)))))"

definition run_postgres ::
  "('t, 'w) sys \<Rightarrow> sql_config \<Rightarrow> gval \<Rightarrow> 'w \<Rightarrow> (response \<times> 'w) outcome" where
  "run_postgres S c data w =
     bind_outcome (run_ptrs (run_pg_query S c data) (sl_queries c) w)
       (\<lambda>(results, w1).
          bind_outcome (select_result (sl_index c) results (NewResponse StatusOK))
            (\<lambda>response. Returns (response, w1)))"

section \<open>MySQL\<close>

text \<open>The validation \<open>tasks.go\<close> defines for this task; the factory does not call it.\<close>

definition validate_mysql_query :: "sql_query \<Rightarrow> sql_query result" where
  "validate_mysql_query q =
     (let q1 = q\<lparr>sq_url := TrimSpace (sq_url q)\<rparr> in
      if sq_url q1 = [] then Inl (ErrNew ''please provide url for query'')
      else
        (let q2 = q1\<lparr>sq_query := TrimSpace (sq_query q1)\<rparr> in
         if sq_query q2 = [] then Inl (ErrNew ''please provide query'') else Inr q2))"

definition ValidateMySQL :: "sql_config \<Rightarrow> sql_config attempt" where
  "ValidateMySQL c =
     (if sl_queries c = [] then Inl (Fails (ErrNew ''please provide at leas one query.''))
      else
        (case mapM_result (deref validate_mysql_query) (sl_queries c) of
           Inl e \<Rightarrow> Inl e
         | Inr qs \<Rightarrow>
             (case single_index ''single_result out of bounds'' (sl_single c) qs of
                Inl e \<Rightarrow> Inl (Fails e)
              | Inr i \<Rightarrow> Inr (c\<lparr>sl_queries := qs, sl_index := i\<rparr>))))"

definition MySQLFactory :: "json option \<Rightarrow> sql_config result" where
  "MySQLFactory raw = unmarshal_raw sql_fields raw zero_sql_config"

text \<open>The number of a \<open>*mysql.MySQLError\<close> is added after the error.\<close>

definition add_number :: "('t, 'w) sys \<Rightarrow> go_error \<Rightarrow> response \<Rightarrow> response" where
  "add_number S e r =
     (case mysql_number S e of None \<Rightarrow> r | Some n \<Rightarrow> AddValue ''error_code'' (VInt n) r)"

definition run_mysql_query ::
  "('t, 'w) sys \<Rightarrow> sql_config \<Rightarrow> gval \<Rightarrow> sql_query \<Rightarrow> 'w \<Rightarrow> response \<times> 'w" where
  "run_mysql_query S c data q w =
     (case Interpolate S (sq_url q) data of
        Inl e \<Rightarrow> (Error (VErr e) item_response, w)
      | Inr url \<Rightarrow>
          (let r1 = (if sl_return_queries c
                     then AddValue ''query'' (VStr (sq_query q)) item_response else item_response)
           in case sql_open S ''mysql'' url w of
                (Inl e, w1) \<Rightarrow> (add_number S e (Error (VStr (err_msg e)) r1), w1)
              | (Inr db, w1) \<Rightarrow>
                  (case mapM_result (\<lambda>arg. Interpolate S arg data) (sq_args q) of
                     Inl e \<Rightarrow> (Error (VErr e) r1, w1)
                   | Inr args \<Rightarrow>
                       (let r2 = (if sl_return_queries c
                                  then AddValue ''args'' (string_list args) r1 else r1)
                        in case sql_queryx S db (sq_query q) args w1 of
                             (Inl e, w2) \<Rightarrow> (add_number S e (Error (VErr e) r2), w2)
                           | (Inr (rows, Some e), w2) \<Rightarrow> (Error (VErr e) r2, w2)
                           | (Inr (rows, None), w2) \<Rightarrow> (Result (row_list rows) r2, w2)))))"

definition run_mysql ::
  "('t, 'w) sys \<Rightarrow> sql_config \<Rightarrow> gval \<Rightarrow> 'w \<Rightarrow> (response \<times> 'w) outcome" where
  "run_mysql S c data w =
     bind_outcome (run_ptrs (run_mysql_query S c data) (sl_queries c) w)
       (\<lambda>(results, w1).
          bind_outcome (select_result (sl_index c) results (NewResponse StatusOK))
            (\<lambda>response. Returns (response, w1)))"

section \<open>The contract\<close>

lemma ValidatePostgres_Inr:
  assumes "ValidatePostgres c = Inr c'"
  shows "sl_queries c' = sl_queries c" and "sl_queries c \<noteq> []"
    and "single_index ''postgres task single_result out of bounds'' (sl_single c) (sl_queries c) = Inr (sl_index c')"
  using assms by (auto simp: ValidatePostgres_def split: if_splits sum.splits)

interpretation postgres: item_task ValidatePostgres sl_queries sl_single sl_index
  "\<lambda>c. run_pg_query S c data" "\<lambda>c. run_postgres S c data"
proof
  fix c c' assume v: "ValidatePostgres c = Inr c'"
  note s = ValidatePostgres_Inr [OF v]
  show "length (sl_queries c') = length (sl_queries c) \<and> sl_queries c \<noteq> []" using s by simp
  show "sl_index c' = (case sl_single c of None \<Rightarrow> - 1 | Some i \<Rightarrow> i) \<and>
      sl_index c' < int (length (sl_queries c'))"
    using s by (auto simp: single_index_Inr split: option.splits)
qed (simp add: run_postgres_def)

lemma ValidateMySQL_Inr:
  assumes "ValidateMySQL c = Inr c'"
  shows "\<exists>qs qs'. sl_queries c = map Some qs \<and> sl_queries c' = map Some qs' \<and>
           mapM_result validate_mysql_query qs = Inr qs'"
    and "sl_queries c \<noteq> []"
    and "single_index ''single_result out of bounds'' (sl_single c) (sl_queries c') = Inr (sl_index c')"
  using assms by (auto simp: ValidateMySQL_def mapM_deref_Inr split: if_splits sum.splits)

interpretation mysql: item_task ValidateMySQL sl_queries sl_single sl_index
  "\<lambda>c. run_mysql_query S c data" "\<lambda>c. run_mysql S c data"
proof
  fix c c' assume v: "ValidateMySQL c = Inr c'"
  note s = ValidateMySQL_Inr [OF v]
  show "length (sl_queries c') = length (sl_queries c) \<and> sl_queries c \<noteq> []"
    using s(1,2) by (auto dest: mapM_result_length)
  show "sl_index c' = (case sl_single c of None \<Rightarrow> - 1 | Some i \<Rightarrow> i) \<and>
      sl_index c' < int (length (sl_queries c'))"
    using s(3) by (auto simp: single_index_Inr split: option.splits)
qed (simp add: run_mysql_def)

section \<open>The MySQL factory\<close>

lemma MySQLFactory_index: "MySQLFactory raw = Inr c \<Longrightarrow> sl_index c = 0"
  unfolding MySQLFactory_def
  by (erule unmarshal_raw_inv [where P = "\<lambda>c. sl_index c = 0", rotated])
    (auto simp: zero_sql_config_def sql_fields_def field_Inr)

text \<open>
  C38: Because its factory does not validate, a MySQL task ignores \<open>single_result\<close>: it runs all
  its queries and shows the result of the first one only.  Without queries, or with a null
  among them, it is built all the same and panics on every request.
\<close>

theorem mysql_first_query_only:
  assumes "MySQLFactory raw = Inr c"
  shows "run_mysql S c data w =
     (if None \<in> set (sl_queries c) then Panics nil_panic
      else
        (case map the (sl_queries c) of
           [] \<Rightarrow> Panics index_panic
         | q # qs \<Rightarrow>
             Returns (Result (embed (fst (run_mysql_query S c data q w))) (NewResponse 200),
                      snd (run_each (run_mysql_query S c data) (q # qs) w))))"
proof (cases "None \<in> set (sl_queries c)")
  case True
  then show ?thesis by (simp add: mysql.run_null)
next
  case False
  then obtain qs where qs: "sl_queries c = map Some qs" by (auto simp: no_nil)
  with False show ?thesis using MySQLFactory_index [OF assms]
    by (cases qs) (simp_all add: mysql.run_items [OF qs] select_result_def go_simps)
qed

theorem mysql_first_query_only_witness:
  "run_mysql sample_sys zero_sql_config VNil 0 = Panics index_panic"
proof -
  have "MySQLFactory (Some (JObj [])) = Inr zero_sql_config"
    by (simp add: MySQLFactory_def unmarshal_raw_def decode_value_def)
  from mysql_first_query_only [OF this] show ?thesis by (simp add: zero_sql_config_def)
qed

section \<open>A null among the queries\<close>

lemma postgres_selects:
  "ValidatePostgres c0 = Inr c \<Longrightarrow> length results = length (sl_queries c) \<Longrightarrow>
     select_result (sl_index c) results r \<noteq> Panics nil_panic"
  by (cases "sl_index c = -1") (auto simp: select_result_def go_index_def)

text \<open>
  A null among the queries of a Postgres task is not found when the task is built: it passes
  validation, and every request then runs the queries before it and panics with a nil
  dereference, which no other configuration of the task does.
\<close>

theorem postgres_null_query:
  assumes "PostgresFactory raw = Inr c"
  shows "run_postgres S c data w = Panics nil_panic \<longleftrightarrow> None \<in> set (sl_queries c)"
proof (cases "None \<in> set (sl_queries c)")
  case True
  then show ?thesis by (simp add: postgres.run_null)
next
  case False
  then obtain qs where qs: "sl_queries c = map Some qs" by (auto simp: no_nil)
  from assms obtain c0 where "ValidatePostgres c0 = Inr c"
    by (auto simp: PostgresFactory_def split: sum.splits)
  from postgres_selects [OF this, of "fst (run_each (run_pg_query S c data) qs w)"] False show ?thesis
    by (auto simp: postgres.run_items [OF qs] qs go_simps)
qed

definition null_query :: sql_config where
  "null_query = zero_sql_config\<lparr>sl_queries := [None], sl_index := -1\<rparr>"

theorem postgres_null_query_witness:
  "PostgresFactory (Some (JObj [(''queries'', JArr [JNull])])) = Inr null_query \<and>
   run_postgres sample_sys null_query VNil (0::nat) = Panics nil_panic"
proof
  show f: "PostgresFactory (Some (JObj [(''queries'', JArr [JNull])])) = Inr null_query"
    by (simp add: PostgresFactory_def unmarshal_raw_def decode_value_def find_field_def sql_fields_def
      field_def dec_slice_def dec_ptr_def zero_sql_config_def ValidatePostgres_def single_index_def null_query_def)
  show "run_postgres sample_sys null_query VNil (0::nat) = Panics nil_panic"
    by (simp add: postgres_null_query [OF f]) (simp add: null_query_def)
qed

end
