(* ===== verification/Task_Store.thy ===== *)
theory Task_Store
  imports Task_Common
begin

text \<open>The Redis and Cassandra tasks of \<open>tasks.go\<close>.\<close>

section \<open>Redis\<close>

record redis_query =
  rd_command :: string
  rd_args :: "string list"
  rd_type :: string

record redis_config =
  rc_address :: string
  rc_database :: int
  rc_network :: string
  rc_queries :: "redis_query list"
  rc_return_queries :: bool
  rc_single :: "int option"
  rc_index :: int

definition redis_query_fields :: "redis_query fields" where
  "redis_query_fields =
     [(''command'', field rd_command (\<lambda>v. rd_command_update (\<lambda>_. v)) dec_string),
      (''args'', field rd_args (\<lambda>v. rd_args_update (\<lambda>_. v)) dec_strings),
      (''type'', field rd_type (\<lambda>v. rd_type_update (\<lambda>_. v)) dec_string)]"

definition redis_fields :: "redis_config fields" where
  "redis_fields =
     [(''address'', field rc_address (\<lambda>v. rc_address_update (\<lambda>_. v)) dec_string),
      (''database'', field rc_database (\<lambda>v. rc_database_update (\<lambda>_. v)) dec_int),
      (''network'', field rc_network (\<lambda>v. rc_network_update (\<lambda>_. v)) dec_string),
      (''queries'', field rc_queries (\<lambda>v. rc_queries_update (\<lambda>_. v))
         (dec_slice (decode_value redis_query_fields) \<lparr>rd_command = [], rd_args = [], rd_type = []\<rparr>)),
      (''return_queries'', field rc_return_queries (\<lambda>v. rc_return_queries_update (\<lambda>_. v)) dec_bool),
      (''single_result'', field rc_single (\<lambda>v. rc_single_update (\<lambda>_. v)) dec_int_ptr)]"

text \<open>The keys of the map \<open>redisunderstands\<close>.\<close>

definition redisunderstands :: "string list" where
  "redisunderstands =
     [''bool'', ''float64'', ''int'', ''int64'', ''ints'', ''string'', ''strings'', ''uint64'',
      ''values'', ''stringmap'']"

definition unknown_redis_type :: "string \<Rightarrow> go_error" where
  "unknown_redis_type t = ErrNew (''unknown redis type '' @ t)"

definition ValidateRedisQuery :: "redis_query \<Rightarrow> redis_query result" where
  "ValidateRedisQuery q =
     (if list_ex (\<lambda>ru. rd_type q = ru) redisunderstands then Inr q
      else Inl (unknown_redis_type (rd_type q)))"

definition ValidateRedis :: "redis_config \<Rightarrow> redis_config result" where
  "ValidateRedis c =
     (if rc_queries c = [] then Inl (ErrNew ''please provide at least one query.'')
      else
        (case mapM_result ValidateRedisQuery (rc_queries c) of
           Inl e \<Rightarrow> Inl e
         | Inr _ \<Rightarrow>
             (case single_index ''single_result out of bounds'' (rc_single c) (rc_queries c) of
                Inl e \<Rightarrow> Inl e
              | Inr i \<Rightarrow> Inr (c\<lparr>rc_index := i\<rparr>))))"

text \<open>The configuration before it is decoded.\<close>

abbreviation new_redis_config :: redis_config where
  "new_redis_config \<equiv>
     \<lparr>rc_address = '':6379'', rc_database = 1, rc_network = ''tcp'', rc_queries = [],
      rc_return_queries = False, rc_single = None, rc_index = 0\<rparr>"

definition RedisFactory :: "json option \<Rightarrow> redis_config result" where
  "RedisFactory raw =
     (case unmarshal_raw redis_fields raw new_redis_config of
        Inl e \<Rightarrow> Inl e
      | Inr config \<Rightarrow> ValidateRedis config)"

definition GetReply :: "('t, 'w) sys \<Rightarrow> redis_reply \<Rightarrow> redis_query \<Rightarrow> gval result" where
  "GetReply S reply q =
     (if rd_type q \<in> set redisunderstands then redis_convert S (rd_type q) reply
      else Inl (unknown_redis_type (rd_type q)))"

text \<open>One turn of the loop of \<open>Run\<close>, on the open connection.\<close>

definition run_redis_query ::
  "('t, 'w) sys \<Rightarrow> redis_config \<Rightarrow> gval \<Rightarrow> nat \<Rightarrow> redis_query \<Rightarrow> 'w \<Rightarrow> response \<times> 'w" where
  "run_redis_query S c data conn q w =
     (case mapM_result (\<lambda>arg. Interpolate S arg data) (rd_args q) of
        Inl e \<Rightarrow> (Error (VErr e) item_response, w)
      | Inr args \<Rightarrow>
          (let qr = (if rc_return_queries c
                     then AddValue ''args'' (string_list args)
                            (AddValue ''command'' (VStr (rd_command q)) item_response)
                     else item_response)
           in case redis_do S conn (rd_command q) args w of
                (Inl e, w1) \<Rightarrow> (Error (VErr e) qr, w1)
              | (Inr reply, w1) \<Rightarrow>
                  (if reply = RNil then (Error (VErr (ErrNew ''not found'')) qr, w1)
                   else
                     (case GetReply S reply q of
                        Inl e \<Rightarrow> (Error (VErr e) qr, w1)
                      | Inr grr \<Rightarrow> (Result grr qr, w1)))))"

definition run_redis ::
  "('t, 'w) sys \<Rightarrow> redis_config \<Rightarrow> gval \<Rightarrow> 'w \<Rightarrow> (response \<times> 'w) outcome" where
  "run_redis S c data w =
     (let response = NewResponse StatusOK in
      case Interpolate S (rc_address c) data of
        Inl e \<Rightarrow> Returns (Error (VErr e) response, w)
      | Inr address \<Rightarrow>
          (case redis_dial S (rc_network c) address w of
             (Inl e, w1) \<Rightarrow> Returns (Error (VErr e) response, w1)
           | (Inr conn, w1) \<Rightarrow>
               (case run_each (run_redis_query S c data conn) (rc_queries c) w1 of
                  (queries, w2) \<Rightarrow>
                    bind_outcome (select_result (rc_index c) queries response)
                      (\<lambda>response. Returns (response, w2)))))"

section \<open>Cassandra\<close>

record cassandra_query =
  cq_cluster :: "string list"
  cq_keyspace :: string
  cq_query :: string
  cq_args :: "string list"

record cassandra_config =
  cc_queries :: "cassandra_query list"
  cc_return_queries :: bool
  cc_single :: "int option"
  cc_index :: int

definition cassandra_query_fields :: "cassandra_query fields" where
  "cassandra_query_fields =
     [(''cluster'', field cq_cluster (\<lambda>v. cq_cluster_update (\<lambda>_. v)) dec_strings),
      (''keyspace'', field cq_keyspace (\<lambda>v. cq_keyspace_update (\<lambda>_. v)) dec_string),
      (''query'', field cq_query (\<lambda>v. cq_query_update (\<lambda>_. v)) dec_string),
      (''args'', field cq_args (\<lambda>v. cq_args_update (\<lambda>_. v)) dec_strings)]"

definition cassandra_fields :: "cassandra_config fields" where
  "cassandra_fields =
     [(''queries'', field cc_queries (\<lambda>v. cc_queries_update (\<lambda>_. v))
         (dec_slice (decode_value cassandra_query_fields)
           \<lparr>cq_cluster = [], cq_keyspace = [], cq_query = [], cq_args = []\<rparr>)),
      (''return_queries'', field cc_return_queries (\<lambda>v. cc_return_queries_update (\<lambda>_. v)) dec_bool),
      (''single_result'', field cc_single (\<lambda>v. cc_single_update (\<lambda>_. v)) dec_int_ptr)]"

definition ValidateCassandraQuery :: "cassandra_query \<Rightarrow> cassandra_query result" where
  "ValidateCassandraQuery q =
     (if cq_cluster q = [] then Inl (ErrNew ''cluster must have at least one url'')
      else
        (let q1 = q\<lparr>cq_keyspace := TrimSpace (cq_keyspace q)\<rparr> in
         if cq_keyspace q1 = [] then Inl (ErrNew ''please provide keyspace.'') else Inr q1))"

text \<open>
  The queries are structs, not pointers: the loop validates a copy of each, and what
  validation trims is dropped with the copy.
\<close>

definition ValidateCassandra :: "cassandra_config \<Rightarrow> cassandra_config result" where
  "ValidateCassandra c =
     (if cc_queries c = [] then Inl (ErrNew ''please provide at least one cassandra query'')
      else
        (case mapM_result ValidateCassandraQuery (cc_queries c) of
           Inl e \<Rightarrow> Inl e
         | Inr _ \<Rightarrow>
             (case single_index ''single_result out of bounds'' (cc_single c) (cc_queries c) of
                Inl e \<Rightarrow> Inl e
              | Inr i \<Rightarrow> Inr (c\<lparr>cc_index := i\<rparr>))))"

abbreviation zero_cassandra_config :: cassandra_config where
  "zero_cassandra_config \<equiv> \<lparr>cc_queries = [], cc_return_queries = False, cc_single = None, cc_index = 0\<rparr>"

definition CassandraFactory :: "json option \<Rightarrow> cassandra_config result" where
  "CassandraFactory raw =
     (case unmarshal_raw cassandra_fields raw zero_cassandra_config of
        Inl e \<Rightarrow> Inl e
      | Inr config \<Rightarrow> ValidateCassandra config)"

text \<open>One turn of the loop of \<open>Run\<close>.  The session is made before the arguments are rendered.\<close>

definition run_cassandra_query ::
  "('t, 'w) sys \<Rightarrow> cassandra_config \<Rightarrow> gval \<Rightarrow> cassandra_query \<Rightarrow> 'w \<Rightarrow> response \<times> 'w" where
  "run_cassandra_query S c data q w =
     (case mapM_result (\<lambda>i. Interpolate S i data) (cq_cluster q) of
        Inl e \<Rightarrow> (Error (VErr e) item_response, w)
      | Inr chosts \<Rightarrow>
          (case Interpolate S (cq_keyspace q) data of
             Inl e \<Rightarrow> (Error (VErr e) item_response, w)
           | Inr keyspace \<Rightarrow>
               (case cql_session S chosts keyspace w of
                  (Inl e, w1) \<Rightarrow> (Error (VErr e) item_response, w1)
                | (Inr session, w1) \<Rightarrow>
                    (let r1 = (if cc_return_queries c
                               then AddValue ''query'' (VStr (cq_query q)) item_response
                               else item_response)
                     in case mapM_result (\<lambda>arg. Interpolate S arg data) (cq_args q) of
                          Inl e \<Rightarrow> (Error (VErr e) r1, w1)
                        | Inr args \<Rightarrow>
                            (let r2 = (if cc_return_queries c
                                       then AddValue ''args'' (string_list args) r1 else r1)
                             in case cql_slice_map S session (cq_query q) args w1 of
                                  (Inl e, w2) \<Rightarrow> (Error (VErr e) r2, w2)
                                | (Inr rows, w2) \<Rightarrow> (Result (row_list rows) r2, w2))))))"

definition run_cassandra ::
  "('t, 'w) sys \<Rightarrow> cassandra_config \<Rightarrow> gval \<Rightarrow> 'w \<Rightarrow> (response \<times> 'w) outcome" where
  "run_cassandra S c data w =
     (case run_each (run_cassandra_query S c data) (cc_queries c) w of
        (queries, w1) \<Rightarrow>
          bind_outcome (select_result (cc_index c) queries (NewResponse StatusOK))
            (\<lambda>response. Returns (response, w1)))"

section \<open>The contract\<close>

lemma ValidateRedis_Inr:
  assumes "ValidateRedis c = Inr c'"
  shows "rc_queries c' = rc_queries c" and "rc_queries c \<noteq> []"
    and "single_index ''single_result out of bounds'' (rc_single c) (rc_queries c) = Inr (rc_index c')"
    and "list_all (\<lambda>q. rd_type q \<in> set redisunderstands) (rc_queries c')"
proof -
  from assms obtain qs where qs: "mapM_result ValidateRedisQuery (rc_queries c) = Inr qs"
    by (auto simp: ValidateRedis_def split: if_splits sum.splits)
  from assms show "rc_queries c' = rc_queries c" "rc_queries c \<noteq> []"
    "single_index ''single_result out of bounds'' (rc_single c) (rc_queries c) = Inr (rc_index c')"
    by (auto simp: ValidateRedis_def split: if_splits sum.splits)
  moreover have "\<forall>q \<in> set (rc_queries c). rd_type q \<in> set redisunderstands"
    using mapM_result_ex [OF qs] by (fastforce simp: ValidateRedisQuery_def list_ex_iff split: if_splits)
  ultimately show "list_all (\<lambda>q. rd_type q \<in> set redisunderstands) (rc_queries c')"
    by (simp add: list_all_iff)
qed

interpretation redis: indexed_config ValidateRedis rc_queries rc_single rc_index
proof
  fix c c' assume v: "ValidateRedis c = Inr c'"
  note s = ValidateRedis_Inr [OF v]
  show "length (rc_queries c') = length (rc_queries c) \<and> rc_queries c \<noteq> []" using s by simp
  show "rc_index c' = (case rc_single c of None \<Rightarrow> - 1 | Some i \<Rightarrow> i) \<and>
      rc_index c' < int (length (rc_queries c'))"
    using s by (auto simp: single_index_Inr split: option.splits)
qed

lemma ValidateCassandra_Inr:
  assumes "ValidateCassandra c = Inr c'"
  shows "cc_queries c' = cc_queries c" and "cc_queries c \<noteq> []"
    and "single_index ''single_result out of bounds'' (cc_single c) (cc_queries c) = Inr (cc_index c')"
  using assms by (auto simp: ValidateCassandra_def split: if_splits sum.splits)

interpretation cassandra: item_task ValidateCassandra "\<lambda>c. map Some (cc_queries c)" cc_single cc_index
  "\<lambda>c. run_cassandra_query S c data" "\<lambda>c. run_cassandra S c data"
proof
  fix c c' assume v: "ValidateCassandra c = Inr c'"
  note s = ValidateCassandra_Inr [OF v]
  show "length (map Some (cc_queries c')) = length (map Some (cc_queries c)) \<and> map Some (cc_queries c) \<noteq> []"
    using s by simp
  show "cc_index c' = (case cc_single c of None \<Rightarrow> - 1 | Some i \<Rightarrow> i) \<and>
      cc_index c' < int (length (map Some (cc_queries c')))"
    using s by (auto simp: single_index_Inr split: option.splits)
qed (simp add: run_cassandra_def case_prod_unfold)

section \<open>Two settings that have no effect\<close>

text \<open>
  The database number of a Redis task is never used: tasks that differ only in it do the
  same, on whatever database a fresh connection selects.
\<close>

theorem redis_database_ignored:
  "run_redis S (c\<lparr>rc_database := n\<rparr>) data w = run_redis S c data w"
proof -
  have s: "rc_return_queries (c\<lparr>rc_database := n\<rparr>) = rc_return_queries c"
    "rc_address (c\<lparr>rc_database := n\<rparr>) = rc_address c" "rc_network (c\<lparr>rc_database := n\<rparr>) = rc_network c"
    "rc_queries (c\<lparr>rc_database := n\<rparr>) = rc_queries c" "rc_index (c\<lparr>rc_database := n\<rparr>) = rc_index c"
    by simp_all
  have q: "run_redis_query S (c\<lparr>rc_database := n\<rparr>) data conn = run_redis_query S c data conn" for conn
    by (intro ext) (simp only: run_redis_query_def s)
  show ?thesis unfolding run_redis_def s q ..
qed

text \<open>
  The white space around a Cassandra keyspace is not removed: validation accepts a query
  exactly when it has hosts and a keyspace that is not blank, and keeps the query as it was,
  so the session is opened with the keyspace as written.
\<close>

theorem cassandra_queries_kept:
  "ValidateCassandra c = Inr c' \<longleftrightarrow>
     cc_queries c \<noteq> [] \<and>
     list_all (\<lambda>q. cq_cluster q \<noteq> [] \<and> TrimSpace (cq_keyspace q) \<noteq> []) (cc_queries c) \<and>
     single_index ''single_result out of bounds'' (cc_single c) (cc_queries c) = Inr (cc_index c') \<and>
     c' = c\<lparr>cc_index := cc_index c'\<rparr>"
proof -
  have q: "(\<exists>q1. ValidateCassandraQuery q = Inr q1) \<longleftrightarrow>
      cq_cluster q \<noteq> [] \<and> TrimSpace (cq_keyspace q) \<noteq> []" for q
    by (simp add: ValidateCassandraQuery_def Let_def)
  have qs: "(\<exists>ys. mapM_result ValidateCassandraQuery xs = Inr ys) \<longleftrightarrow>
      list_all (\<lambda>q. cq_cluster q \<noteq> [] \<and> TrimSpace (cq_keyspace q) \<noteq> []) xs" for xs
  proof (induction xs)
    case Nil
    then show ?case by simp
  next
    case (Cons x xs)
    then show ?case using q [of x]
      by (cases "ValidateCassandraQuery x"; cases "mapM_result ValidateCassandraQuery xs") auto
  qed
  have "ValidateCassandra c = Inr c' \<longleftrightarrow>
      cc_queries c \<noteq> [] \<and> (\<exists>ys. mapM_result ValidateCassandraQuery (cc_queries c) = Inr ys) \<and>
      (\<exists>i. single_index ''single_result out of bounds'' (cc_single c) (cc_queries c) = Inr i \<and>
           c' = c\<lparr>cc_index := i\<rparr>)"
    by (auto simp: ValidateCassandra_def split: sum.splits if_splits)
  also have "\<dots> \<longleftrightarrow> cc_queries c \<noteq> [] \<and>
      (\<exists>ys. mapM_result ValidateCassandraQuery (cc_queries c) = Inr ys) \<and>
      single_index ''single_result out of bounds'' (cc_single c) (cc_queries c) = Inr (cc_index c') \<and>
      c' = c\<lparr>cc_index := cc_index c'\<rparr>" (is "?A \<and> ?B \<and> ?C \<longleftrightarrow> ?A \<and> ?B \<and> ?D \<and> ?E")
  proof -
    have "?C \<longleftrightarrow> ?D \<and> ?E" by (rule iffI, erule exE, simp) blast
    then show ?thesis by blast
  qed
  finally show ?thesis unfolding qs .
qed

end
