(* ===== verification/Task_Filesystem.thy ===== *)
theory Task_Filesystem
  imports Task_Common
begin

text \<open>The filesystem task of \<open>tasks.go\<close>: serving one file, or the list of a directory.\<close>

record fs_config =
  fc_file :: string
  fc_output :: string
  fc_directory :: string
  fc_index :: bool

definition fs_fields :: "fs_config fields" where
  "fs_fields =
     [(''file'', field fc_file (\<lambda>v. fc_file_update (\<lambda>_. v)) dec_string),
      (''output'', field fc_output (\<lambda>v. fc_output_update (\<lambda>_. v)) dec_string),
      (''directory'', field fc_directory (\<lambda>v. fc_directory_update (\<lambda>_. v)) dec_string),
      (''index'', field fc_index (\<lambda>v. fc_index_update (\<lambda>_. v)) dec_bool)]"

definition NewFilesystemConfig :: fs_config where
  "NewFilesystemConfig = \<lparr>fc_file = [], fc_output = [], fc_directory = [], fc_index = False\<rparr>"

definition ValidateFilesystem :: "fs_config \<Rightarrow> fs_config" where
  "ValidateFilesystem c =
     c\<lparr>fc_file := TrimSpace (fc_file c), fc_directory := TrimSpace (fc_directory c)\<rparr>"

definition FilesystemTaskFactory :: "json option \<Rightarrow> fs_config result" where
  "FilesystemTaskFactory raw =
     (case unmarshal_raw fs_fields raw NewFilesystemConfig of
        Inl e \<Rightarrow> Inl e
      | Inr config \<Rightarrow> Inr (ValidateFilesystem config))"

definition failed_500 :: "go_error \<Rightarrow> response \<Rightarrow> response" where
  "failed_500 e response = Error (VErr e) (Status StatusInternalServerError response)"

text \<open>The entry of one item of a directory.\<close>

definition dir_item :: "string \<Rightarrow> file_info \<Rightarrow> response" where
  "dir_item full item =
     AddValue ''is_dir'' (VBool (fi_is_dir item))
       (Result (VStr (Join full (fi_name item))) item_response)"

definition list_directory :: "('t, 'w) sys \<Rightarrow> fs_config \<Rightarrow> string \<Rightarrow> 'w \<Rightarrow> response \<Rightarrow> response" where
  "list_directory S c full w response =
     (if \<not> fc_index c then Status StatusNotFound response
      else
        (case fs_read_dir S full w of
           Inl e \<Rightarrow> failed_500 e response
         | Inr items \<Rightarrow> Result (VList (map (\<lambda>item. embed (dir_item full item)) items)) response))"

definition serve_file ::
  "('t, 'w) sys \<Rightarrow> fs_config \<Rightarrow> gval \<Rightarrow> string \<Rightarrow> 'w \<Rightarrow> response \<Rightarrow> response" where
  "serve_file S c data full w response =
     (case fs_read_file S full w of
        Inl e \<Rightarrow> failed_500 e response
      | Inr contents \<Rightarrow>
          (case Interpolate S (fc_output c) data of
             Inl e \<Rightarrow> Status StatusInternalServerError (Error (VErr e) response)
           | Inr out \<Rightarrow>
               (if TrimSpace (ToLower (uni_lower S) out) = ''raw''
                then Raw (RawBytes contents) response
                else
                  AddValue ''filename'' (VStr (snd (Split full)))
                    (Result (VStr (b64_encode contents)) response))))"

definition run_filesystem :: "('t, 'w) sys \<Rightarrow> fs_config \<Rightarrow> gval \<Rightarrow> 'w \<Rightarrow> response" where
  "run_filesystem S c data w =
     (let response = NewResponse StatusOK in
      case Interpolate S (fc_file c) data of
        Inl e \<Rightarrow> failed_500 e response
      | Inr filename \<Rightarrow>
          (case Interpolate S (fc_directory c) data of
             Inl e \<Rightarrow> failed_500 e response
           | Inr directory \<Rightarrow>
               (let full = Join directory filename in
                case fs_stat S full w of
                  Inl e \<Rightarrow> Status StatusNotFound response
                | Inr finfo \<Rightarrow>
                    (if fi_is_dir finfo then list_directory S c full w response
                     else serve_file S c data full w response))))"

section \<open>What is served\<close>

lemma run_filesystem_path:
  assumes "Interpolate S (fc_file c) data = Inr f" and "Interpolate S (fc_directory c) data = Inr d"
  shows "run_filesystem S c data w =
     (case fs_stat S (Join d f) w of
        Inl e \<Rightarrow> Status StatusNotFound (NewResponse StatusOK)
      | Inr finfo \<Rightarrow>
          (if fi_is_dir finfo then list_directory S c (Join d f) w (NewResponse StatusOK)
           else serve_file S c data (Join d f) w (NewResponse StatusOK)))"
  using assms by (simp add: run_filesystem_def Let_def)

text \<open>
  C29: A readable file is served whole: with output "raw" its bytes are the body, otherwise the
  result is base64 text that decodes to exactly its bytes, with the last element of the path as
  its name; the status is 200.
\<close>

theorem fs_serves_file:
  assumes "Interpolate S (fc_file c) data = Inr f" and "Interpolate S (fc_directory c) data = Inr d"
    and "fs_stat S (Join d f) w = Inr finfo" and "\<not> fi_is_dir finfo"
    and "fs_read_file S (Join d f) w = Inr contents" and "Interpolate S (fc_output c) data = Inr out"
  shows "rs_status (run_filesystem S c data w) = 200 \<and>
     (if TrimSpace (ToLower (uni_lower S) out) = ''raw''
      then rs_raw (run_filesystem S c data w) = Some contents
      else rs_raw (run_filesystem S c data w) = None \<and>
           (\<exists>t. value_of (run_filesystem S c data w) ''result'' = Some (VStr t) \<and>
                b64_decode t = Some contents) \<and>
           value_of (run_filesystem S c data w) ''filename'' = Some (VStr (snd (Split (Join d f)))))"
  using assms(3-6) b64.decode_encode
  by (simp add: run_filesystem_path [OF assms(1,2)] serve_file_def)

text \<open>
  C30: A rendered file name without ".." elements is served from below the rendered directory,
  when that is not empty: the path looked up is the cleaned one that starts at the root exactly
  if the directory does and has the elements of the directory, followed by the name's.
\<close>

theorem fs_confined:
  assumes "Interpolate S (fc_file c) data = Inr f" and "Interpolate S (fc_directory c) data = Inr d"
    and "d \<noteq> []" and "''..'' \<notin> set (split_on slash f)"
  shows "\<exists>p. Clean p = p \<and> is_rooted p = is_rooted d \<and>
           path_elems p = path_elems d @ filter (\<lambda>e. e \<noteq> [] \<and> e \<noteq> ''.'') (split_on slash f) \<and>
           run_filesystem S c data w =
             (case fs_stat S p w of
                Inl e \<Rightarrow> Status StatusNotFound (NewResponse StatusOK)
              | Inr finfo \<Rightarrow>
                  (if fi_is_dir finfo then list_directory S c p w (NewResponse StatusOK)
                   else serve_file S c data p w (NewResponse StatusOK)))"
  using path_elems_Join_below [OF assms(3,4)] path_elems_Join(2) [OF assms(3)] Clean_Join [OF assms(3)]
    run_filesystem_path [OF assms(1,2), of w] by blast

text \<open>
  C31: Nothing removes ".." from a rendered file name: each one at its front takes one element
  off the rooted directory it is joined to, so that the path looked up has only what is left of
  the directory, followed by the rest of the name.
\<close>

theorem fs_escapes:
  assumes "Interpolate S (fc_file c) data = Inr f" and "Interpolate S (fc_directory c) data = Inr d"
    and "is_rooted d" and "split_on slash f = replicate n ''..'' @ fs" and "''..'' \<notin> set fs"
  shows "\<exists>p. Clean p = p \<and> is_rooted p \<and>
           path_elems p = take (length (path_elems d) - n) (path_elems d) @ filter (\<lambda>e. e \<noteq> [] \<and> e \<noteq> ''.'') fs \<and>
           run_filesystem S c data w =
             (case fs_stat S p w of
                Inl e \<Rightarrow> Status StatusNotFound (NewResponse StatusOK)
              | Inr finfo \<Rightarrow>
                  (if fi_is_dir finfo then list_directory S c p w (NewResponse StatusOK)
                   else serve_file S c data p w (NewResponse StatusOK)))"
proof -
  from assms(3) have d: "d \<noteq> []" by (auto simp: is_rooted_def)
  show ?thesis
    using path_elems_Join_climb [OF assms(3-5)] path_elems_Join(2) [OF d] Clean_Join [OF d] assms(3)
      run_filesystem_path [OF assms(1,2), of w] by blast
qed

definition file_task :: "string \<Rightarrow> string \<Rightarrow> fs_config" where
  "file_task d f = \<lparr>fc_file = f, fc_output = [], fc_directory = d, fc_index = False\<rparr>"

lemma file_task_renders [simp]:
  "Interpolate sample_sys (fc_file (file_task d f)) data = Inr f"
  "Interpolate sample_sys (fc_directory (file_task d f)) data = Inr d"
  "Interpolate sample_sys (fc_output (file_task d f)) data = Inr []"
  "fs_stat sample_sys p w = Inr \<lparr>fi_name = p, fi_is_dir = False\<rparr>"
  "fs_read_file sample_sys p w = Inr p"
  by (simp_all add: file_task_def sample_sys_def Interpolate_def RenderTemplate_def)

theorem fs_serves_file_witness:
  "value_of (run_filesystem sample_sys (file_task ''/srv'' ''a.txt'') VNil 0) ''filename'' = Some (VStr ''a.txt'') \<and>
   rs_status (run_filesystem sample_sys (file_task ''/srv'' ''a.txt'') VNil 0) = 200"
proof -
  have "Join ''/srv'' ''a.txt'' = ''/srv/a.txt''" "Split ''/srv/a.txt'' = (''/srv/'', ''a.txt'')"
    by (simp_all add: Join_def Clean_def path_elems_def is_rooted_def Split_def Let_def)
  moreover have "TrimSpace (ToLower (uni_lower sample_sys) []) \<noteq> ''raw''"
    by (simp add: ToLower_def ascii_def)
  ultimately show ?thesis
    using fs_serves_file [of sample_sys "file_task ''/srv'' ''a.txt''" VNil "''a.txt''" "''/srv''" 0
        "\<lparr>fi_name = ''/srv/a.txt'', fi_is_dir = False\<rparr>" "''/srv/a.txt''" "[]"]
    by simp
qed

theorem fs_confined_witness:
  "\<exists>p. Clean p = p \<and> is_rooted p \<and> path_elems p = [''srv'', ''a'', ''b''] \<and>
     run_filesystem sample_sys (file_task ''/srv'' ''a/./b'') VNil 0 =
       serve_file sample_sys (file_task ''/srv'' ''a/./b'') VNil p 0 (NewResponse StatusOK)"
proof -
  have "path_elems ''/srv'' @ filter (\<lambda>e. e \<noteq> [] \<and> e \<noteq> ''.'') (split_on slash ''a/./b'') = [''srv'', ''a'', ''b'']"
    and "is_rooted ''/srv''"
    by (simp_all add: path_elems_def is_rooted_def)
  moreover have "''..'' \<notin> set (split_on slash ''a/./b'')" by simp
  ultimately show ?thesis
    using fs_confined [of sample_sys "file_task ''/srv'' ''a/./b''" VNil "''a/./b''" "''/srv''" 0] by simp
qed

theorem fs_escapes_witness:
  "\<exists>p. Clean p = p \<and> is_rooted p \<and> path_elems p = [''etc'', ''passwd''] \<and>
     run_filesystem sample_sys (file_task ''/srv/www'' ''../../etc/passwd'') VNil 0 =
       serve_file sample_sys (file_task ''/srv/www'' ''../../etc/passwd'') VNil p 0 (NewResponse StatusOK)"
proof -
  have "path_elems ''/srv/www'' = [''srv'', ''www'']" and "is_rooted ''/srv/www''"
    by (simp_all add: path_elems_def is_rooted_def)
  moreover have "split_on slash ''../../etc/passwd'' = replicate 2 ''..'' @ [''etc'', ''passwd'']"
    by (simp add: numeral_2_eq_2)
  ultimately show ?thesis
    using fs_escapes [of sample_sys "file_task ''/srv/www'' ''../../etc/passwd''" VNil "''../../etc/passwd''"
        "''/srv/www''" 2 "[''etc'', ''passwd'']" 0]
    by simp
qed

end
