(* ===== verification/Tasks.thy ===== *)
theory Tasks
  imports Auth Task_Shell Task_Http Task_Sql Task_Store Task_Filesystem
begin

text \<open>
  All tasks of \<open>tasks.go\<close> as one type, the info and the multi task, and running a task.  An
  info task holds the routes it reports, and a route holds the task it runs, so the two types
  are declared together.
\<close>

section \<open>Tasks and routes\<close>

record multi_config =
  mc_tasks :: "task_config option list"
  mc_single :: "int option"
  mc_index :: int

datatype task =
    ShellTask shell_config
  | HttpTask http_config
  | PostgresTask sql_config
  | MySQLTask sql_config
  | RedisTask redis_config
  | CassandraTask cassandra_config
  | FilesystemTask fs_config
  | InfoTask string "route list"
  | MultiTask multi_config "task list"
and route =
    Route (rt_authorizers: authorizers) (rt_method: string) (rt_path: string)
      (rt_task_config: task_config) (rt_endpoint: endpoint_config) (rt_task: task)

text \<open>\<open>Path\<close> of the embedded \<open>Task\<close>, which no task overrides.\<close>

definition Path :: "task \<Rightarrow> string" where
  "Path t = []"

section \<open>The multi task's configuration\<close>

definition multi_fields :: "multi_config fields" where
  "multi_fields =
     [(''tasks'', field mc_tasks (\<lambda>v. mc_tasks_update (\<lambda>_. v))
         (dec_slice (dec_ptr task_config_fields zero_task_config) None)),
      (''single_result'', field mc_single (\<lambda>v. mc_single_update (\<lambda>_. v)) dec_int_ptr)]"

definition ValidateMulti :: "multi_config \<Rightarrow> multi_config result" where
  "ValidateMulti c =
     (if mc_tasks c = [] then Inl (ErrNew ''multi task must have at least one task'')
      else
        (case single_index ''multi task single_result out of bounds'' (mc_single c) (mc_tasks c) of
           Inl e \<Rightarrow> Inl e
         | Inr i \<Rightarrow> Inr (c\<lparr>mc_index := i\<rparr>)))"

definition multi_config_of :: "json option \<Rightarrow> multi_config result" where
  "multi_config_of raw =
     (case unmarshal_raw multi_fields raw \<lparr>mc_tasks = [], mc_single = None, mc_index = 0\<rparr> of
        Inl e \<Rightarrow> Inl e
      | Inr config \<Rightarrow> ValidateMulti config)"

interpretation multi: indexed_config ValidateMulti mc_tasks mc_single mc_index
  by unfold_locales
    (auto simp: ValidateMulti_def single_index_Inr split: if_splits sum.splits option.splits)

section \<open>Info\<close>

definition info_endpoint :: "route \<Rightarrow> response" where
  "info_endpoint rt =
     (let tc = rt_task_config rt;
          r1 = AddValue ''method'' (VStr (rt_method rt))
                 (AddValue ''path'' (VStr (rt_path rt)) (NewResponse StatusOK));
          r2 = (if tc_authorizers tc \<noteq> []
                then AddValue ''authorizers'' (string_list (tc_authorizers tc)) r1 else r1);
          r3 = AddValue ''type'' (VStr (tc_type tc)) r2;
          r4 = (if tc_description tc \<noteq> []
                then AddValue ''description'' (VStr (tc_description tc)) r3 else r3)
      in StripStatusData r4)"

definition run_info :: "string \<Rightarrow> route list \<Rightarrow> response" where
  "run_info version routes =
     Result (VMap [(''version'', VStr version),
                   (''endpoints'', VList (map (\<lambda>rt. embed (info_endpoint rt)) routes))])
       (NewResponse StatusOK)"

section \<open>Running a task\<close>

text \<open>
  Every task gets the request, the data for its templates, and the state: what is left of the
  request's body, and the world.
\<close>

type_synonym 'w run_state = "reader option \<times> 'w"

definition on_world ::
  "('w \<Rightarrow> (response \<times> 'w) outcome) \<Rightarrow> 'w run_state \<Rightarrow> (response \<times> 'w run_state) outcome" where
  "on_world f st =
     bind_outcome (f (snd st)) (\<lambda>(response, w1). Returns (response, (fst st, w1)))"

fun run_task ::
  "('t, 'w) sys \<Rightarrow> task \<Rightarrow> request \<Rightarrow> gval \<Rightarrow> 'w run_state \<Rightarrow> (response \<times> 'w run_state) outcome"
  and run_tasks ::
  "('t, 'w) sys \<Rightarrow> task list \<Rightarrow> request \<Rightarrow> gval \<Rightarrow> 'w run_state
     \<Rightarrow> (response list \<times> 'w run_state) outcome"
where
  "run_task S (ShellTask c) r data st = on_world (run_shell S c data) st"
| "run_task S (HttpTask c) r data st = run_http S c r data st"
| "run_task S (PostgresTask c) r data st = on_world (run_postgres S c data) st"
| "run_task S (MySQLTask c) r data st = on_world (run_mysql S c data) st"
| "run_task S (RedisTask c) r data st = on_world (run_redis S c data) st"
| "run_task S (CassandraTask c) r data st = on_world (run_cassandra S c data) st"
| "run_task S (FilesystemTask c) r data st = Returns (run_filesystem S c data (snd st), st)"
| "run_task S (InfoTask version routes) r data st = Returns (run_info version routes, st)"
| "run_task S (MultiTask c ts) r data st =
     bind_outcome (run_tasks S ts r data st) (\<lambda>(results, st1).
       bind_outcome (select_result (mc_index c) results (NewResponse StatusOK))
         (\<lambda>response. Returns (response, st1)))"
| "run_tasks S [] r data st = Returns ([], st)"
| "run_tasks S (t # ts) r data st =
     bind_outcome (run_task S t r data st) (\<lambda>(tr, st1).
       bind_outcome (run_tasks S ts r data st1) (\<lambda>(results, st2). Returns (tr # results, st2)))"

lemma on_world_Returns:
  "on_world f st = Returns (r, st') \<longleftrightarrow> fst st' = fst st \<and> f (snd st) = Returns (r, snd st')"
  by (cases "f (snd st)"; cases st') (auto simp: on_world_def)

lemma run_tasks_length:
  "run_tasks S ts r data st = Returns (rs, st') \<Longrightarrow> length rs = length ts"
  by (induction ts arbitrary: st rs) (auto simp: bind_outcome_Returns_iff)

section \<open>What all tasks have in common\<close>

text \<open>The response of an item shows a result or an error.\<close>

definition decided :: "response \<Rightarrow> bool" where
  "decided r \<longleftrightarrow> (value_of r ''result'' = None) \<noteq> (value_of r ''error'' = None)"

lemma decided_simps [simp]:
  "decided (Error v item_response)" "decided (Result v item_response)"
  by (simp_all add: decided_def)

text \<open>
  C15: Every item of every task, a command, a URL, a query of one of the four databases, ends in
  exactly one of a result and an error, whatever fails on the way.
\<close>

theorem items_decided:
  "decided (fst (run_command S c1 data cmd w)) \<and>
   decided (fst (run_url S r data url st)) \<and>
   decided (fst (run_pg_query S c2 data q2 w)) \<and>
   decided (fst (run_mysql_query S c3 data q3 w)) \<and>
   decided (fst (run_redis_query S c4 data conn q4 w)) \<and>
   decided (fst (run_cassandra_query S c5 data q5 w))"
  (is "?sh \<and> ?http \<and> ?pg \<and> ?my \<and> ?rd \<and> ?cq")
proof (intro conjI)
  show ?sh
    by (simp add: run_command_def decided_def Let_def split: sum.splits prod.splits option.splits)
  show ?http
    by (simp add: run_url_def upstream_response_def decided_def Let_def
        split: sum.splits prod.splits option.splits)
  show ?pg
    by (simp add: run_pg_query_def pq_failed_def decided_def Let_def
        split: sum.splits prod.splits option.splits)
  show ?my
    by (simp add: run_mysql_query_def add_number_def decided_def Let_def
        split: sum.splits prod.splits option.splits)
  show ?rd
    by (simp add: run_redis_query_def decided_def Let_def split: sum.splits prod.splits option.splits)
  show ?cq
    by (simp add: run_cassandra_query_def decided_def Let_def split: sum.splits prod.splits option.splits)
qed

lemma select_result_status:
  "select_result i rs r = Returns r' \<Longrightarrow> rs_status r' = rs_status r"
  by (auto simp: select_result_def go_simps split: if_splits)

text \<open>
  Every task but the filesystem task answers with status 200 when it returns, whatever
  failed: a refused connection, a failed command, an upstream error are visible in the body
  only.
\<close>

theorem tasks_report_200:
  assumes "run_task S t r data st = Returns (resp, st')" and "\<And>c. t \<noteq> FilesystemTask c"
  shows "rs_status resp = 200"
proof (cases t)
  case (InfoTask v rts)
  with assms(1) show ?thesis by (auto simp: run_info_def)
next
  case (RedisTask c)
  with assms(1) show ?thesis
    by (auto simp: run_redis_def on_world_Returns Let_def go_simps case_prod_unfold
        dest!: select_result_status split: sum.splits prod.splits)
qed (use assms in \<open>auto simp: on_world_Returns go_simps case_prod_unfold run_shell_def run_http_def
       run_postgres_def run_mysql_def run_cassandra_def run_ptrs_Returns dest!: select_result_status\<close>)

lemma run_url_method: "rq_method r1 = rq_method r2 \<Longrightarrow> run_url S r1 = run_url S r2"
  by (intro ext) (simp add: run_url_def)

lemma run_task_method:
  "rq_method r1 = rq_method r2 \<Longrightarrow> run_task S t r1 data st = run_task S t r2 data st"
  "rq_method r1 = rq_method r2 \<Longrightarrow> run_tasks S ts r1 data st = run_tasks S ts r2 data st"
proof (induction S t r1 data st and S ts r1 data st rule: run_task_run_tasks.induct)
  case (2 S c r data st)
  from run_url_method [OF this, of S] show ?case by (simp add: run_http_def)
qed simp_all

text \<open>
  Apart from its method, a task reads nothing of the request itself, only the data prepared
  for its templates.  In particular the Content-Type header, from which the HTTP task is meant
  to guess JSON, has no effect on any task.
\<close>

theorem task_reads_method_only:
  assumes "rq_method r1 = rq_method r2"
  shows "run_task S t r1 data st = run_task S t r2 data st"
  using assms by (rule run_task_method)

theorem task_reads_method_only_witness:
  "run_task sample_sys (ShellTask two_commands) sample_request VNil (None, 0) =
   run_task sample_sys (ShellTask two_commands)
     (sample_request\<lparr>rq_header := [(''Content-Type'', [''application/json''])]\<rparr>) VNil (None, 0)"
  by (rule task_reads_method_only) simp

theorem tasks_report_200_witness:
  "rs_status (Error (VErr sample_error) (NewResponse 200)) = 200"
proof -
  let ?c = "\<lparr>rc_address = '':6379'', rc_database = 1, rc_network = ''tcp'', rc_queries = [],
              rc_return_queries = False, rc_single = None, rc_index = 0\<rparr>"
  let ?S = "sample_sys\<lparr>redis_dial := (\<lambda>_ _ w. (Inl sample_error, Suc w))\<rparr>"
  have "run_task ?S (RedisTask ?c) sample_request VNil (None, 0) =
      Returns (Error (VErr sample_error) (NewResponse 200), (None, 1))"
    by (simp add: run_redis_def on_world_def Interpolate_def RenderTemplate_def sample_sys_def Let_def)
  then show ?thesis by (rule tasks_report_200) simp
qed

section \<open>Negative indices\<close>

text \<open>
  C20: Validation bounds \<open>single_result\<close> from above only.  A validated shell, HTTP, Postgres or
  Cassandra task answers if the option is absent, -1 or more, and panics on every request, after
  running all its items, if it is below -1.  A Postgres task also panics if one of its queries
  is null, which validation does not look for; the others do not start with a null item.
\<close>

theorem single_result_panics_iff:
  assumes "ValidateShell formats c1 = Inr d1" and "ValidateHttp formats c2 = Inr d2"
    and "ValidatePostgres c3 = Inr d3" and "ValidateCassandra c4 = Inr d4"
  shows "((\<exists>p. run_shell S d1 data w = Panics p) \<longleftrightarrow> (\<exists>i. sh_single c1 = Some i \<and> i < -1)) \<and>
         ((\<exists>p. run_http S d2 r data st = Panics p) \<longleftrightarrow> (\<exists>i. ht_single c2 = Some i \<and> i < -1)) \<and>
         ((\<exists>p. run_postgres S d3 data w = Panics p) \<longleftrightarrow>
            None \<in> set (sl_queries c3) \<or> (\<exists>i. sl_single c3 = Some i \<and> i < -1)) \<and>
         ((\<exists>p. run_cassandra S d4 data w = Panics p) \<longleftrightarrow> (\<exists>i. cc_single c4 = Some i \<and> i < -1))"
  using shell.panics_iff [OF assms(1)] shell_no_nil [OF assms(1)] http.panics_iff [OF assms(2)]
    http_no_nil [OF assms(2)] postgres.panics_iff [OF assms(3)] ValidatePostgres_Inr(1) [OF assms(3)]
    cassandra.panics_iff [OF assms(4)]
  by (intro conjI) simp_all

definition sample_http :: http_config where
  "sample_http =
     \<lparr>ht_urls = [Some \<lparr>hu_url = ''/x'', hu_method = [], hu_post_body = True, hu_format = ''text'',
                       hu_return_headers = False\<rparr>],
      ht_single = Some (-2), ht_index = -2\<rparr>"

definition sample_sql :: sql_config where
  "sample_sql = zero_sql_config\<lparr>sl_queries := [Some \<lparr>sq_url = [], sq_query = [], sq_args = []\<rparr>], sl_index := -1\<rparr>"

definition sample_cassandra :: cassandra_config where
  "sample_cassandra =
     \<lparr>cc_queries = [\<lparr>cq_cluster = [''h''], cq_keyspace = '' id'', cq_query = [], cq_args = []\<rparr>],
      cc_return_queries = False, cc_single = None, cc_index = -1\<rparr>"

lemma sample_configs_valid:
  "ValidateHttp (format_table ft) sample_http = Inr sample_http"
  "ValidatePostgres sample_sql = Inr sample_sql"
  "ValidateCassandra sample_cassandra = Inr sample_cassandra"
proof -
  have "TrimSpace ''/x'' = ''/x''" by code_simp
  then show "ValidateHttp (format_table ft) sample_http = Inr sample_http"
    by (simp add: ValidateHttp_def deref_def sample_http_def validate_http_url_def VerifyFormat_def
        format_table_lookup format_registrations_def single_index_def)
  show "ValidatePostgres sample_sql = Inr sample_sql"
    by (simp add: ValidatePostgres_def sample_sql_def zero_sql_config_def single_index_def)
  show "ValidateCassandra sample_cassandra = Inr sample_cassandra"
    by (simp add: ValidateCassandra_def ValidateCassandraQuery_def sample_cassandra_def single_index_def)
qed

theorem single_result_panics_iff_witness:
  "\<exists>p. run_http sample_sys sample_http sample_request VNil (None, 0) = Panics p"
  using single_result_panics_iff [OF two_commands_valid sample_configs_valid,
      of sample_sys VNil 0 sample_request "(None, 0)"]
  by (simp add: sample_http_def)

end
