(* ===== verification/Routes.thy ===== *)
theory Routes
  imports Tasks
begin

text \<open>
  Building the routes of a server (\<open>routes\<close> of \<open>server.go\<close> and the task factories of
  \<open>tasks.go\<close>).  The two call each other: the info factory asks the server for its routes, and a
  multi task calls the factories of its own tasks.  The code does not bound this recursion, so
  the model takes fuel; \<open>None\<close> means that the fuel ran out.
\<close>

section \<open>Factories\<close>

definition VERSION :: string where
  "VERSION = ''1.0.0''"

text \<open>The error of a factory gets the type of the task; a panic of a factory is not stopped.\<close>

fun task_failed :: "string \<Rightarrow> failure \<Rightarrow> failure" where
  "task_failed t (Fails e) = Fails (ErrNew (''task '' @ t @ '' returned error: '' @ err_msg e))"
| "task_failed t (Crashes p) = Crashes p"

definition no_task :: "string \<Rightarrow> failure" where
  "no_task t = Fails (ErrNew (''task '' @ t @ '' doesn'' @ [CHR 0x27] @ ''t exist''))"

text \<open>What calling a factory yields; \<open>None\<close> when it does not return within the fuel.\<close>

type_synonym factory_call = "task_factory \<Rightarrow> json option \<Rightarrow> task list attempt option"

text \<open>The loop of \<open>MultiTaskFactory\<close> over the configured tasks.\<close>

fun build_multi :: "('t, 'w) sys \<Rightarrow> factory_call \<Rightarrow> task_config option list \<Rightarrow> task list
     \<Rightarrow> task list attempt option"
where
  "build_multi S factory [] tasks = Some (Inr tasks)"
| "build_multi S factory (None # rest) tasks = Some (Inl (Crashes nil_panic))"
| "build_multi S factory (Some mtc # rest) tasks =
     (if tc_type mtc = ''multi''
      then Some (Inl (Fails (ErrNew ''multi task does not support embedded multi tasks'')))
      else
        (case ValidateTask S mtc of
           Inl e \<Rightarrow> Some (Inl e)
         | Inr tc \<Rightarrow>
             (case getTaskFactory taskregistry (tc_type tc) of
                None \<Rightarrow> Some (Inl (no_task (tc_type tc)))
              | Some f \<Rightarrow>
                  (case factory f (tc_config tc) of
                     None \<Rightarrow> None
                   | Some (Inl e) \<Rightarrow> Some (Inl (task_failed (tc_type tc) e))
                   | Some (Inr ts) \<Rightarrow> build_multi S factory rest (tasks @ ts)))))"

definition MultiFactory :: "('t, 'w) sys \<Rightarrow> factory_call \<Rightarrow> json option \<Rightarrow> task list attempt option" where
  "MultiFactory S factory raw =
     (case multi_config_of raw of
        Inl e \<Rightarrow> Some (Inl (Fails e))
      | Inr config \<Rightarrow>
          (case build_multi S factory (mc_tasks config) [] of
             None \<Rightarrow> None
           | Some (Inl e) \<Rightarrow> Some (Inl e)
           | Some (Inr ts) \<Rightarrow> Some (Inr [MultiTask config ts])))"

definition one_task :: "('c \<Rightarrow> task) \<Rightarrow> 'c attempt \<Rightarrow> task list attempt option" where
  "one_task con res = Some (case res of Inl e \<Rightarrow> Inl e | Inr c \<Rightarrow> Inr [con c])"

text \<open>The info factory, given what the server returned when it was asked for its routes.\<close>

definition InfoFactory :: "route list attempt option \<Rightarrow> task list attempt option" where
  [simp]: "InfoFactory built =
     (case built of
        None \<Rightarrow> None
      | Some (Inl e) \<Rightarrow> Some (Inl e)
      | Some (Inr rs) \<Rightarrow> Some (Inr [InfoTask VERSION rs]))"

section \<open>Routes\<close>

text \<open>
  The loop over the methods of an endpoint.  It returns the endpoint, the value its loop
  variable has at the end, and the tasks with their methods.  A method whose type is ignored
  ends the loop.  Validating the query parameters of a method changes what the endpoint's own
  map points to.
\<close>

fun method_loop ::
  "factory_call \<Rightarrow> ('t, 'w) sys \<Rightarrow> string list \<Rightarrow> (string \<times> task_config) list
     \<Rightarrow> endpoint_config \<Rightarrow> task_config \<Rightarrow> (string \<times> task) list
     \<Rightarrow> (endpoint_config \<times> task_config \<times> (string \<times> task) list) attempt option"
where
  "method_loop factory S ignored [] e tc0 acc = Some (Inr (e, tc0, acc))"
| "method_loop factory S ignored ((method, taskconf) # ms) e tc0 acc =
     (if list_ex (\<lambda>it. tc_type taskconf = it) ignored then Some (Inr (e, taskconf, acc))
      else
        (case ValidateTask S taskconf of
           Inl err \<Rightarrow> Some (Inl err)
         | Inr tc \<Rightarrow>
             (let e1 = e\<lparr>ec_methods :=
                  AList.map_entry method
                    (tc_query_params_update (\<lambda>_. tc_query_params tc)) (ec_methods e)\<rparr>
              in case getTaskFactory taskregistry (tc_type tc) of
                   None \<Rightarrow> Some (Inl (no_task (tc_type tc)))
                 | Some f \<Rightarrow>
                     (case factory f (tc_config tc) of
                        None \<Rightarrow> None
                      | Some (Inl err) \<Rightarrow> Some (Inl (task_failed (tc_type tc) err))
                      | Some (Inr tasks) \<Rightarrow>
                          method_loop factory S ignored ms e1 tc
                            (acc @ map (\<lambda>t. (method, t)) tasks)))))"

text \<open>
  The routes of an endpoint: all of them hold the pointer to the one loop variable, so all of
  them see its last value.
\<close>

definition endpoint_routes ::
  "authorizers \<Rightarrow> endpoint_config \<times> task_config \<times> (string \<times> task) list \<Rightarrow> route list" where
  "endpoint_routes authorizers res =
     (case res of (e, tc0, acc) \<Rightarrow>
        map (\<lambda>(method, t). Route authorizers method (ec_path e @ Path t) tc0 e t) acc)"

fun endpoint_loop ::
  "factory_call \<Rightarrow> ('t, 'w) sys \<Rightarrow> authorizers \<Rightarrow> string list \<Rightarrow> endpoint_config option list
     \<Rightarrow> route list attempt option"
where
  "endpoint_loop factory S authorizers ignored [] = Some (Inr [])"
| "endpoint_loop factory S authorizers ignored (None # es) = Some (Inl (Crashes nil_panic))"
| "endpoint_loop factory S authorizers ignored (Some econfig # es) =
     (case ValidateEndpoint S econfig of
        Inl err \<Rightarrow> Some (Inl err)
      | Inr e \<Rightarrow>
          (case method_loop factory S ignored (ec_methods e) e zero_task_config [] of
             None \<Rightarrow> None
           | Some (Inl err) \<Rightarrow> Some (Inl err)
           | Some (Inr res) \<Rightarrow>
               (case endpoint_loop factory S authorizers ignored es of
                  None \<Rightarrow> None
                | Some (Inl err) \<Rightarrow> Some (Inl err)
                | Some (Inr rs) \<Rightarrow> Some (Inr (endpoint_routes authorizers res @ rs)))))"

definition routes_with ::
  "factory_call \<Rightarrow> ('t, 'w) sys \<Rightarrow> config \<Rightarrow> string list \<Rightarrow> route list attempt option" where
  "routes_with factory S config ignored =
     (case GetAuthorizers S authorizer_table config of
        Inl e \<Rightarrow> Some (Inl e)
      | Inr authorizers \<Rightarrow> endpoint_loop factory S authorizers ignored (cf_endpoints config))"

fun call_factory :: "nat \<Rightarrow> ('t, 'w) sys \<Rightarrow> config \<Rightarrow> factory_call"
  and routes :: "nat \<Rightarrow> ('t, 'w) sys \<Rightarrow> config \<Rightarrow> string list \<Rightarrow> route list attempt option"
where
  "call_factory 0 S config f raw = None"
| "call_factory (Suc n) S config f raw =
     (let formats = format_table (float_text S) in
      case f of
        CassandraTaskFactory \<Rightarrow> one_task CassandraTask (attempt (CassandraFactory raw))
      | HttpTaskFactory \<Rightarrow> one_task HttpTask (HttpFactory formats raw)
      | InfoTaskFactory \<Rightarrow> InfoFactory (routes n S config [''info''])
      | MySQLTaskFactory \<Rightarrow> one_task MySQLTask (attempt (MySQLFactory raw))
      | PostgresTaskFactory \<Rightarrow> one_task PostgresTask (attempt (PostgresFactory raw))
      | RedisTaskFactory \<Rightarrow> one_task RedisTask (attempt (RedisFactory raw))
      | ShellTaskFactory \<Rightarrow> one_task ShellTask (ShellFactory formats raw)
      | MultiTaskFactory \<Rightarrow> MultiFactory S (call_factory n S config) raw
      | FilesystemFactory \<Rightarrow> one_task FilesystemTask (attempt (FilesystemTaskFactory raw)))"
| "routes 0 S config ignored = None"
| "routes (Suc n) S config ignored = routes_with (call_factory n S config) S config ignored"

section \<open>More fuel changes nothing\<close>

definition extends_call :: "factory_call \<Rightarrow> factory_call \<Rightarrow> bool" where
  "extends_call G F \<longleftrightarrow> (\<forall>f raw x. F f raw = Some x \<longrightarrow> G f raw = Some x)"

lemma extends_callD: "extends_call G F \<Longrightarrow> F f raw = Some x \<Longrightarrow> G f raw = Some x"
  by (simp add: extends_call_def)

lemma extends_call_cases:
  assumes "extends_call G F"
  obtains "F f raw = None" | x where "F f raw = Some x" "G f raw = Some x"
  using assms by (cases "F f raw") (auto dest: extends_callD)

lemma build_multi_mono:
  assumes "extends_call G F"
  shows "build_multi S F ts acc = Some x \<Longrightarrow> build_multi S G ts acc = Some x"
proof (induction ts arbitrary: acc rule: ptrs_induct)
  case (ptr t ts)
  show ?case
  proof (cases "\<exists>tc f. ValidateTask S t = Inr tc \<and> getTaskFactory taskregistry (tc_type tc) = Some f")
    case False
    with ptr.prems show ?thesis by (auto split: if_splits sum.splits option.splits)
  next
    case True
    then obtain tc f where "ValidateTask S t = Inr tc" "getTaskFactory taskregistry (tc_type tc) = Some f"
      by blast
    with ptr show ?thesis
      by (rule_tac extends_call_cases [OF assms, of f "tc_config tc"]) (auto split: if_splits sum.splits)
  qed
qed simp_all

lemma MultiFactory_mono:
  "extends_call G F \<Longrightarrow> MultiFactory S F raw = Some x \<Longrightarrow> MultiFactory S G raw = Some x"
  by (auto simp: MultiFactory_def split: sum.splits option.splits dest: build_multi_mono)

lemma method_loop_mono:
  assumes "extends_call G F"
  shows "method_loop F S ign ms e tc0 acc = Some x \<Longrightarrow> method_loop G S ign ms e tc0 acc = Some x"
proof (induction ms arbitrary: e tc0 acc)
  case Nil
  then show ?case by simp
next
  case (Cons y ms)
  obtain m t where y: "y = (m, t)" by (cases y)
  show ?case
  proof (cases "\<exists>tc f. ValidateTask S t = Inr tc \<and> getTaskFactory taskregistry (tc_type tc) = Some f")
    case False
    with Cons.prems y show ?thesis by (auto simp: Let_def split: if_splits sum.splits option.splits)
  next
    case True
    then obtain tc f where "ValidateTask S t = Inr tc" "getTaskFactory taskregistry (tc_type tc) = Some f"
      by blast
    with Cons y show ?thesis
      by (rule_tac extends_call_cases [OF assms, of f "tc_config tc"])
        (auto simp: Let_def split: if_splits sum.splits)
  qed
qed

lemma endpoint_loop_mono:
  assumes "extends_call G F"
  shows "endpoint_loop F S a ign es = Some x \<Longrightarrow> endpoint_loop G S a ign es = Some x"
proof (induction es arbitrary: x rule: ptrs_induct)
  case (ptr econfig es)
  show ?case
  proof (cases "ValidateEndpoint S econfig")
    case (Inl err)
    with ptr.prems show ?thesis by simp
  next
    case (Inr e)
    with ptr.prems obtain y
      where y: "method_loop F S ign (ec_methods e) e zero_task_config [] = Some y"
      by (auto split: option.splits)
    from method_loop_mono [OF assms y] y Inr ptr show ?thesis
      by (auto split: sum.splits option.splits)
  qed
qed simp_all

lemma routes_with_mono:
  "extends_call G F \<Longrightarrow> routes_with F S config ign = Some x \<Longrightarrow> routes_with G S config ign = Some x"
  by (auto simp: routes_with_def split: sum.splits intro: endpoint_loop_mono)

lemma fuel_mono_step:
  "extends_call (call_factory (Suc n) S config) (call_factory n S config) \<and>
   (\<forall>ign x. routes n S config ign = Some x \<longrightarrow> routes (Suc n) S config ign = Some x)"
proof (induction n)
  case 0
  then show ?case by (simp add: extends_call_def)
next
  case (Suc n)
  then have ext: "extends_call (call_factory (Suc n) S config) (call_factory n S config)"
    and rts: "\<And>ign x. routes n S config ign = Some x \<Longrightarrow> routes (Suc n) S config ign = Some x"
    by blast+
  have "call_factory (Suc n) S config f raw = Some x \<Longrightarrow>
      call_factory (Suc (Suc n)) S config f raw = Some x" for f raw x
  proof (cases f)
    case InfoTaskFactory
    assume "call_factory (Suc n) S config f raw = Some x"
    with InfoTaskFactory obtain y where y: "routes n S config [''info''] = Some y"
      by (auto simp: Let_def split: option.splits)
    from rts [OF y] y show "call_factory (Suc n) S config f raw = Some x \<Longrightarrow> ?thesis"
      using InfoTaskFactory by (simp add: Let_def)
  next
    case MultiTaskFactory
    then show "call_factory (Suc n) S config f raw = Some x \<Longrightarrow> ?thesis"
      using MultiFactory_mono [OF ext, of S raw x] by (simp add: Let_def)
  qed (simp_all add: Let_def)
  then have "extends_call (call_factory (Suc (Suc n)) S config) (call_factory (Suc n) S config)"
    unfolding extends_call_def by blast
  moreover have "routes (Suc n) S config ign = Some x \<Longrightarrow> routes (Suc (Suc n)) S config ign = Some x"
    for ign x
    unfolding routes.simps(2) by (rule routes_with_mono [OF ext])
  ultimately show ?case by blast
qed

lemma routes_more_fuel:
  assumes "routes n S config ign = Some x" and "n \<le> k"
  shows "routes k S config ign = Some x"
  using assms(2,1) by (induction k rule: dec_induct) (use fuel_mono_step in blast)+

section \<open>When building the routes returns\<close>

lemma taskregistry_special:
  "getTaskFactory taskregistry t = Some InfoTaskFactory \<longleftrightarrow> t = ''info''"
  "getTaskFactory taskregistry t = Some MultiTaskFactory \<longleftrightarrow> t = ''multi''"
  by (auto simp: taskregistry_lookup task_registrations_def split: if_splits)

lemma taskregistry_types [simp]:
  "getTaskFactory taskregistry ''info'' = Some InfoTaskFactory"
  "getTaskFactory taskregistry ''multi'' = Some MultiTaskFactory"
  "getTaskFactory taskregistry ''shell'' = Some ShellTaskFactory"
  by (simp_all add: taskregistry_lookup task_registrations_def)

text \<open>
  No info task among the tasks of a multi task, at any depth; \<open>d\<close> bounds how deep multi tasks
  are nested in each other.
\<close>

fun info_free :: "nat \<Rightarrow> json option \<Rightarrow> bool" where
  "info_free 0 raw = False"
| "info_free (Suc d) raw =
     (case multi_config_of raw of
        Inl e \<Rightarrow> True
      | Inr c \<Rightarrow>
          list_all (pred_option (\<lambda>t. TrimSpace (tc_type t) \<noteq> ''info'' \<and>
                        (if TrimSpace (tc_type t) = ''multi'' then info_free d (tc_config t) else True)))
            (mc_tasks c))"

text \<open>
  What a configuration needs so that its routes can be built: the info task is written
  "info" without white space, and never inside a multi task.
\<close>

definition info_safe :: "nat \<Rightarrow> config \<Rightarrow> bool" where
  "info_safe d config =
     list_all (pred_option (\<lambda>e. list_all (\<lambda>(m, t).
         (TrimSpace (tc_type t) = ''info'' \<longrightarrow> tc_type t = ''info'') \<and>
         (TrimSpace (tc_type t) = ''multi'' \<longrightarrow> info_free d (tc_config t))) (ec_methods e)))
       (cf_endpoints config)"

lemma call_factory_plain:
  "0 < n \<Longrightarrow> f \<noteq> InfoTaskFactory \<Longrightarrow> f \<noteq> MultiTaskFactory \<Longrightarrow> call_factory n S config f raw \<noteq> None"
  by (cases n; cases f) (simp_all add: Let_def one_task_def)

text \<open>The factory of a task configuration returns.\<close>

definition factory_returns :: "factory_call \<Rightarrow> task_config \<Rightarrow> bool" where
  "factory_returns F t \<longleftrightarrow>
     (\<forall>f. getTaskFactory taskregistry (TrimSpace (tc_type t)) = Some f \<longrightarrow> F f (tc_config t) \<noteq> None)"

lemma factory_returnsD:
  assumes "factory_returns F t" and "ValidateTask S t = Inr tc"
    and "getTaskFactory taskregistry (tc_type tc) = Some f"
  obtains res where "F f (tc_config tc) = Some res"
  using assms ValidateTask_Inr(1,4) [OF assms(2)] by (auto simp: factory_returns_def)

lemma build_multi_returns:
  assumes "\<And>t. Some t \<in> set ts \<Longrightarrow> factory_returns F t"
  shows "build_multi S F ts acc \<noteq> None"
  using assms
proof (induction ts arbitrary: acc rule: ptrs_induct)
  case (ptr t ts)
  then have "factory_returns F t" and "\<And>acc. build_multi S F ts acc \<noteq> None" by simp_all
  then show ?case by (auto split: sum.splits option.splits elim: factory_returnsD)
qed simp_all

lemma method_loop_returns:
  assumes "\<forall>(m, t) \<in> set ms. tc_type t \<in> set ign \<or> factory_returns F t"
  shows "method_loop F S ign ms e tc0 acc \<noteq> None"
  using assms
proof (induction ms arbitrary: e tc0 acc)
  case Nil
  then show ?case by simp
next
  case (Cons x ms)
  then show ?case
    by (cases x) (auto simp: Let_def list_ex_iff split: sum.splits option.splits elim: factory_returnsD)
qed

lemma endpoint_loop_returns:
  assumes "\<And>e m t. Some e \<in> set es \<Longrightarrow> (m, t) \<in> set (ec_methods e) \<Longrightarrow> tc_type t \<in> set ign \<or> factory_returns F t"
  shows "endpoint_loop F S a ign es \<noteq> None"
  using assms
proof (induction es rule: ptrs_induct)
  case (ptr e es)
  have "method_loop F S ign (ec_methods e') e' zero_task_config [] \<noteq> None"
    if "ValidateEndpoint S e = Inr e'" for e'
    using ptr.prems ValidateEndpoint_Inr(1) [OF that] by (intro method_loop_returns) auto
  moreover have "endpoint_loop F S a ign es \<noteq> None"
    by (rule ptr.IH) (rule ptr.prems, auto)
  ultimately show ?case by (auto split: sum.splits option.splits)
qed simp_all

lemma call_factory_multi_returns:
  "info_free d raw \<Longrightarrow> d < n \<Longrightarrow> call_factory n S config MultiTaskFactory raw \<noteq> None"
proof (induction d arbitrary: n raw)
  case 0
  then show ?case by simp
next
  case (Suc d)
  then obtain n' where n: "n = Suc n'" "d < n'" by (cases n) auto
  have "build_multi S (call_factory n' S config) (mc_tasks c) [] \<noteq> None"
    if "multi_config_of raw = Inr c" for c
  proof (rule build_multi_returns)
    fix t assume t: "Some t \<in> set (mc_tasks c)"
    from Suc.prems(1) that t have i: "TrimSpace (tc_type t) \<noteq> ''info''"
      and m: "TrimSpace (tc_type t) = ''multi'' \<Longrightarrow> info_free d (tc_config t)"
      by (force simp: list_all_iff)+
    have "call_factory n' S config f (tc_config t) \<noteq> None"
      if "getTaskFactory taskregistry (TrimSpace (tc_type t)) = Some f" for f
      using that i m Suc.IH [OF _ n(2)] n(2) call_factory_plain [of n' f S config]
      by (cases "f = MultiTaskFactory"; cases "f = InfoTaskFactory") (auto simp: taskregistry_special)
    then show "factory_returns (call_factory n' S config) t" by (simp add: factory_returns_def)
  qed
  then show ?case by (auto simp: n(1) Let_def MultiFactory_def split: sum.splits option.splits)
qed

lemma routes_return_step:
  assumes safe: "info_safe d config" and n: "d < n"
    and info: "\<And>raw. ''info'' \<notin> set ign \<Longrightarrow> call_factory n S config InfoTaskFactory raw \<noteq> None"
  shows "routes (Suc n) S config ign \<noteq> None"
proof -
  have "tc_type t \<in> set ign \<or> factory_returns (call_factory n S config) t"
    if t: "Some e \<in> set (cf_endpoints config)" "(m, t) \<in> set (ec_methods e)" for e m t
  proof -
    from safe t have s: "TrimSpace (tc_type t) = ''info'' \<Longrightarrow> tc_type t = ''info''"
      "TrimSpace (tc_type t) = ''multi'' \<Longrightarrow> info_free d (tc_config t)"
      by (fastforce simp: info_safe_def list_all_iff)+
    have "call_factory n S config f (tc_config t) \<noteq> None"
      if "getTaskFactory taskregistry (TrimSpace (tc_type t)) = Some f" "tc_type t \<notin> set ign" for f
      using that s info call_factory_multi_returns [of d "tc_config t" n S config] n
        call_factory_plain [of n f S config "tc_config t"]
      by (cases "f = MultiTaskFactory"; cases "f = InfoTaskFactory") (auto simp: taskregistry_special)
    then show ?thesis by (auto simp: factory_returns_def)
  qed
  then have "endpoint_loop (call_factory n S config) S a ign (cf_endpoints config) \<noteq> None" for a
    by (rule endpoint_loop_returns)
  then show ?thesis by (auto simp: routes_with_def split: sum.splits)
qed

lemma routes_return_fuel:
  assumes "info_safe d config"
  shows "\<exists>res. routes (d + 4) S config ign = Some res"
proof -
  have "routes (Suc (Suc d)) S config [''info''] \<noteq> None"
    using assms by (rule routes_return_step) simp_all
  then have "call_factory (Suc (Suc (Suc d))) S config InfoTaskFactory raw \<noteq> None" for raw
    by (auto simp: Let_def simp del: routes.simps split: option.splits sum.splits)
  then have "routes (Suc (Suc (Suc (Suc d)))) S config ign \<noteq> None"
    by (intro routes_return_step [OF assms]) auto
  then show ?thesis by (auto simp: numeral_eq_Suc)
qed

text \<open>
  C14: Building the routes of a server returns (with routes or an error) when no info task is
  inside a multi task and no info task's type is written with white space around it: fuel
  four above the nesting depth of multi tasks is enough, and more fuel gives the same answer.
\<close>

theorem routes_return:
  assumes "info_safe d config" and "d + 4 \<le> n"
  shows "\<exists>res. routes n S config ign = Some res \<and>
           routes (d + 4) S config ign = Some res"
  using routes_return_fuel [OF assms(1)] routes_more_fuel [OF _ assms(2)] by blast

section \<open>An info task inside a multi task\<close>

lemma trim_task_types [simp]:
  "TrimSpace ''multi'' = ''multi''" "TrimSpace ''info'' = ''info''" "TrimSpace ''mysql'' = ''mysql''"
  by code_simp+

lemma build_multi_info_first:
  assumes "tc_type i = ''info''" and "ValidateTask S i = Inr i'"
    and "F InfoTaskFactory (tc_config i') = None"
  shows "build_multi S F (Some i # is) acc = None"
  using assms ValidateTask_Inr(1) [OF assms(2)] by (simp add: taskregistry_special)

lemma method_loop_multi_first:
  assumes "tc_type t = ''multi''" and "''multi'' \<notin> set ign" and "ValidateTask S t = Inr t'"
    and "F MultiTaskFactory (tc_config t) = None"
  shows "method_loop F S ign ((m, t) # ms) e tc0 acc = None"
  using assms ValidateTask_Inr(1,4) [OF assms(3)]
  by (simp add: taskregistry_special Let_def list_ex_iff)

text \<open>
  When the multi task is the first task of the server and the info task the first one inside it,
  nothing comes before the recursion, and no amount of fuel ends it: the info factory asks for
  the routes again, which builds the multi task again.  (The process dies of stack overflow at
  start.)
\<close>

lemma info_in_multi_diverges:
  assumes "GetAuthorizers S authorizer_table config = Inr a" and "cf_endpoints config = Some e # es"
    and "ValidateEndpoint S e = Inr e'" and "ec_methods e = (m, t) # ms"
    and "tc_type t = ''multi''" and "ValidateTask S t = Inr t'"
    and "multi_config_of (tc_config t) = Inr c" and "mc_tasks c = Some i # is"
    and "tc_type i = ''info''" and "ValidateTask S i = Inr i'"
  shows "routes n S config [] = None"
proof -
  have "ign \<in> {[], [''info'']} \<Longrightarrow> routes n S config ign = None" for ign
  proof (induction n arbitrary: ign rule: less_induct)
    case (less n)
    show ?case
    proof (cases n)
      case (Suc k)
      have "call_factory j S config InfoTaskFactory (tc_config i') = None" if "j \<le> k" for j
        using less.IH [of "j - 1" "[''info'']"] Suc that by (cases j) (auto simp: Let_def)
      then have "build_multi S (call_factory j S config) (Some i # is) [] = None" if "j \<le> k" for j
        using that assms(9,10) by (intro build_multi_info_first)
      then have "call_factory k S config MultiTaskFactory (tc_config t) = None"
        using assms(7,8) by (cases k) (auto simp: MultiFactory_def Let_def simp del: build_multi.simps)
      then have "method_loop (call_factory k S config) S ign ((m, t) # ms) e' zero_task_config [] = None"
        using assms(5,6) less.prems by (intro method_loop_multi_first) auto
      moreover have "ec_methods e' = (m, t) # ms" using ValidateEndpoint_Inr(1) [OF assms(3)] assms(4) by simp
      ultimately show ?thesis
        using assms(1-3) by (simp add: Suc routes_with_def del: method_loop.simps)
    qed simp
  qed
  then show ?thesis by simp
qed

section \<open>The routes that are built\<close>

lemma call_factory_one:
  "call_factory n S config f raw = Some (Inr ts) \<Longrightarrow> length ts = 1"
  by (cases n; cases f)
    (auto simp: Let_def one_task_def MultiFactory_def split: sum.splits option.splits)

definition one_each :: "factory_call \<Rightarrow> bool" where
  "one_each F \<longleftrightarrow> (\<forall>f raw ts. F f raw = Some (Inr ts) \<longrightarrow> length ts = 1)"

lemma one_each_call_factory: "one_each (call_factory n S config)"
  unfolding one_each_def by (intro allI impI) (rule call_factory_one)

lemma one_eachE:
  assumes "one_each F" and "F f raw = Some (Inr ts)"
  obtains t where "ts = [t]"
  using assms by (fastforce simp: one_each_def length_Suc_conv)

text \<open>A turn of the method loop that goes on to the next method.\<close>

lemma method_loop_turn:
  assumes "one_each F"
    and "method_loop F S ign ((m, t) # ms) e tc0 acc = Some (Inr res)" and "tc_type t \<notin> set ign"
  obtains tc tk e1 where "ValidateTask S t = Inr tc" and "ec_path e1 = ec_path e"
    and "method_loop F S ign ms e1 tc (acc @ [(m, tk)]) = Some (Inr res)"
proof -
  from assms(2,3) obtain tc f where v: "ValidateTask S t = Inr tc"
    and f: "getTaskFactory taskregistry (tc_type tc) = Some f"
    by (auto simp: list_ex_iff Let_def split: sum.splits option.splits)
  with assms(2,3) obtain ts where ts: "F f (tc_config tc) = Some (Inr ts)"
    by (auto simp: list_ex_iff Let_def split: sum.splits option.splits)
  from one_eachE [OF assms(1) ts] obtain tk where "ts = [tk]" .
  with assms(2,3) v f ts show ?thesis
    by (intro that [OF v, of "e\<lparr>ec_methods := AList.map_entry m
          (tc_query_params_update (\<lambda>_. tc_query_params tc)) (ec_methods e)\<rparr>" tk])
      (auto simp: list_ex_iff Let_def)
qed

lemma method_loop_shape:
  assumes "one_each F"
    and "method_loop F S ign ms e tc0 acc = Some (Inr (e', tc', acc'))"
    and "\<forall>(m, t) \<in> set ms. tc_type t \<notin> set ign"
  shows "map fst acc' = map fst acc @ map fst ms \<and> ec_path e' = ec_path e \<and>
         (if ms = [] then tc' = tc0 else ValidateTask S (snd (last ms)) = Inr tc')"
  using assms(2,3)
proof (induction ms arbitrary: e tc0 acc)
  case Nil
  then show ?case by simp
next
  case (Cons x ms)
  obtain m t where x: "x = (m, t)" by (cases x)
  with Cons.prems have ign: "tc_type t \<notin> set ign" by simp
  from method_loop_turn [OF assms(1) Cons.prems(1) [unfolded x] ign] obtain tc tk e1
    where v: "ValidateTask S t = Inr tc" and p: "ec_path e1 = ec_path e"
    and r: "method_loop F S ign ms e1 tc (acc @ [(m, tk)]) = Some (Inr (e', tc', acc'))" .
  from Cons.IH [OF r] Cons.prems(2) x v p show ?case by (auto split: if_splits)
qed

lemma method_loop_cut:
  assumes "one_each F"
    and "method_loop F S ign (ms1 @ (m, t) # ms2) e tc0 acc = Some (Inr (e', tc', acc'))"
    and "\<forall>(m, t) \<in> set ms1. tc_type t \<notin> set ign" and "tc_type t \<in> set ign"
  shows "map fst acc' = map fst acc @ map fst ms1 \<and> tc' = t"
  using assms(2,3)
proof (induction ms1 arbitrary: e tc0 acc)
  case Nil
  then show ?case using assms(4) by (auto simp: list_ex_iff)
next
  case (Cons x ms1)
  obtain n u where x: "x = (n, u)" by (cases x)
  with Cons.prems have ign: "tc_type u \<notin> set ign" by simp
  from method_loop_turn [OF assms(1) Cons.prems(1) [unfolded x append_Cons] ign] obtain tc tk e1
    where r: "method_loop F S ign (ms1 @ (m, t) # ms2) e1 tc (acc @ [(n, tk)]) = Some (Inr (e', tc', acc'))" .
  from Cons.IH [OF r] Cons.prems(2) x show ?case by simp
qed

lemma method_loop_path:
  "method_loop F S ign ms e tc0 acc = Some (Inr (e', tc', acc')) \<Longrightarrow> ec_path e' = ec_path e"
  by (induction ms arbitrary: e tc0 acc)
    (auto simp: Let_def split: if_splits sum.splits option.splits)

section \<open>No routes with an info task inside a multi task\<close>

text \<open>When a loop succeeds, so did the factory of every task it came to.\<close>

definition built_by :: "factory_call \<Rightarrow> ('t, 'w) sys \<Rightarrow> task_config \<Rightarrow> bool" where
  "built_by F S t \<longleftrightarrow>
     (\<exists>f ts. getTaskFactory taskregistry (TrimSpace (tc_type t)) = Some f \<and> F f (tc_config t) = Some (Inr ts))"

lemma build_multi_built:
  "build_multi S F ts acc = Some (Inr res) \<Longrightarrow> Some t \<in> set ts \<Longrightarrow> built_by F S t"
proof (induction ts arbitrary: acc rule: ptrs_induct)
  case (ptr u ts)
  from ptr.prems(1) obtain tc f x where v: "ValidateTask S u = Inr tc"
    and f: "getTaskFactory taskregistry (tc_type tc) = Some f" "F f (tc_config tc) = Some (Inr x)"
    and rest: "build_multi S F ts (acc @ x) = Some (Inr res)"
    by (auto split: if_splits sum.splits option.splits)
  from v f have "built_by F S u" using ValidateTask_Inr(1,4) [OF v] by (auto simp: built_by_def)
  with ptr.IH [OF rest] ptr.prems(2) show ?case by auto
qed simp_all

lemma method_loop_built:
  assumes "one_each F"
    and "method_loop F S ign (ms1 @ (m, t) # ms2) e tc0 acc = Some (Inr res)"
    and "\<forall>(m', t') \<in> set ms1. tc_type t' \<notin> set ign" and "tc_type t \<notin> set ign"
  shows "built_by F S t"
  using assms(2,3)
proof (induction ms1 arbitrary: e tc0 acc)
  case Nil
  then obtain tc f x where v: "ValidateTask S t = Inr tc"
    and f: "getTaskFactory taskregistry (tc_type tc) = Some f" "F f (tc_config tc) = Some (Inr x)"
    using assms(4) by (auto simp: list_ex_iff Let_def split: sum.splits option.splits)
  then show ?case using ValidateTask_Inr(1,4) [OF v] by (auto simp: built_by_def)
next
  case (Cons x ms1)
  obtain n u where x: "x = (n, u)" by (cases x)
  with Cons.prems have ign: "tc_type u \<notin> set ign" by simp
  obtain e' tc' acc' where res: "res = (e', tc', acc')" by (cases res)
  from method_loop_turn [OF assms(1) Cons.prems(1) [unfolded x append_Cons] ign] obtain tc tk e1
    where "method_loop F S ign (ms1 @ (m, t) # ms2) e1 tc (acc @ [(n, tk)]) = Some (Inr res)" .
  from Cons.IH [OF this] Cons.prems(2) show ?case by simp
qed

lemma endpoint_loop_method_loop:
  "endpoint_loop F S a ign es = Some (Inr rs) \<Longrightarrow> Some e \<in> set es \<Longrightarrow>
     \<exists>e1 res. ValidateEndpoint S e = Inr e1 \<and>
       method_loop F S ign (ec_methods e) e1 zero_task_config [] = Some (Inr res)"
proof (induction es arbitrary: rs rule: ptrs_induct)
  case (ptr u es)
  from ptr.prems(1) obtain u1 res rs1 where v: "ValidateEndpoint S u = Inr u1"
    and m: "method_loop F S ign (ec_methods u1) u1 zero_task_config [] = Some (Inr res)"
    and rest: "endpoint_loop F S a ign es = Some (Inr rs1)"
    by (auto split: sum.splits option.splits)
  from m have "method_loop F S ign (ec_methods u) u1 zero_task_config [] = Some (Inr res)"
    by (simp only: ValidateEndpoint_Inr(1) [OF v])
  with v have "\<exists>e1 res. ValidateEndpoint S u = Inr e1 \<and>
      method_loop F S ign (ec_methods u) e1 zero_task_config [] = Some (Inr res)" by blast
  with ptr.IH [OF rest] ptr.prems(2) show ?case by (cases "e = u") simp_all
qed simp_all


section \<open>The shape of the routes\<close>

text \<open>What the routes of one endpoint look like.\<close>

definition endpoint_shape :: "('t, 'w) sys \<Rightarrow> authorizers \<Rightarrow> endpoint_config \<Rightarrow> route list \<Rightarrow> bool" where
  "endpoint_shape S a e rs \<longleftrightarrow>
     map rt_method rs = map fst (ec_methods e) \<and>
     list_all (\<lambda>r. rt_path r = ec_path e \<and> rt_authorizers r = a \<and>
                   ValidateTask S (snd (last (ec_methods e))) = Inr (rt_task_config r)) rs"

lemma endpoint_loop_shape:
  assumes "one_each F"
  shows "endpoint_loop F S a [] es = Some (Inr rs) \<Longrightarrow>
           \<exists>ecs rss. es = map Some ecs \<and> rs = concat rss \<and> list_all2 (endpoint_shape S a) ecs rss"
proof (induction es arbitrary: rs rule: ptrs_induct)
  case empty
  then show ?case by (intro exI [of _ "[]"]) simp
next
  case (nil es)
  then show ?case by simp
next
  case (ptr econfig es)
  from ptr.prems obtain e e' tc' acc' rs'
    where v: "ValidateEndpoint S econfig = Inr e"
      and m: "method_loop F S [] (ec_methods e) e zero_task_config [] = Some (Inr (e', tc', acc'))"
      and l: "endpoint_loop F S a [] es = Some (Inr rs')"
      and rs: "rs = endpoint_routes a (e', tc', acc') @ rs'"
    by (auto split: sum.splits option.splits)
  from ptr.IH [OF l] obtain ecs rss where rss: "es = map Some ecs" "rs' = concat rss"
    "list_all2 (endpoint_shape S a) ecs rss" by blast
  note sh = method_loop_shape [OF assms m]
  have "endpoint_shape S a econfig (endpoint_routes a (e', tc', acc'))"
    using sh ValidateEndpoint_Inr(1,2) [OF v]
    by (auto simp: endpoint_shape_def endpoint_routes_def list_all_iff Path_def o_def case_prod_unfold
        split: if_splits)
  with rss rs show ?case
    by (intro exI [of _ "econfig # ecs"] exI [of _ "endpoint_routes a (e', tc', acc') # rss"]) simp
qed

lemma routes_concat:
  assumes "routes n S config [] = Some (Inr rs)"
  shows "\<exists>a es rss. GetAuthorizers S authorizer_table config = Inr a \<and>
           cf_endpoints config = map Some es \<and> rs = concat rss \<and> list_all2 (endpoint_shape S a) es rss"
proof -
  from assms obtain k a where a: "GetAuthorizers S authorizer_table config = Inr a"
    and l: "endpoint_loop (call_factory k S config) S a [] (cf_endpoints config) = Some (Inr rs)"
    by (cases n) (auto simp: routes_with_def split: sum.splits)
  with endpoint_loop_shape [OF one_each_call_factory l] show ?thesis by blast
qed

text \<open>
  C9: When the routes of a server are built, no endpoint is null, and each endpoint contributes exactly one route per
  configured method, in the order of the map, with the endpoint's path and the server's
  authorizers; and every route of an endpoint holds the same task configuration, the validated
  one of the last method, because they all point to the loop variable.
\<close>

theorem routes_shape:
  assumes "routes n S config [] = Some (Inr rs)"
  shows "\<exists>a es rss. GetAuthorizers S authorizer_table config = Inr a \<and>
           cf_endpoints config = map Some es \<and> rs = concat rss \<and> list_all2 (endpoint_shape S a) es rss"
  using assms by (rule routes_concat)

text \<open>
  What the info task is shown of one endpoint: the methods up to the first info method, in the
  order of the map, all with the configuration of that info method.  Without an info method it
  is every method, with the configuration of the last one.
\<close>

definition info_shape :: "('t, 'w) sys \<Rightarrow> endpoint_config \<Rightarrow> route list \<Rightarrow> bool" where
  "info_shape S e rs \<longleftrightarrow>
     map rt_method rs = map fst (takeWhile (\<lambda>m. tc_type (snd m) \<noteq> ''info'') (ec_methods e)) \<and>
     list_all (\<lambda>r. rt_path r = ec_path e \<and>
        (case dropWhile (\<lambda>m. tc_type (snd m) \<noteq> ''info'') (ec_methods e) of
           [] \<Rightarrow> ValidateTask S (snd (last (ec_methods e))) = Inr (rt_task_config r)
         | (m, t) # ms \<Rightarrow> rt_task_config r = t)) rs"

lemma method_loop_info:
  assumes "one_each F" and "method_loop F S [''info''] (ec_methods e) e0 zero_task_config [] = Some (Inr (e', tc', acc'))"
    and "ec_path e0 = ec_path e"
  shows "info_shape S e (endpoint_routes a (e', tc', acc'))"
proof (cases "dropWhile (\<lambda>m. tc_type (snd m) \<noteq> ''info'') (ec_methods e)")
  case Nil
  then have all: "\<forall>(m, t) \<in> set (ec_methods e). tc_type t \<notin> set [''info'']"
    by (auto simp: dropWhile_eq_Nil_conv)
  from method_loop_shape [OF assms(1,2) this] assms(3) have "map fst acc' = map fst (ec_methods e)"
    "ec_path e' = ec_path e"
    "ec_methods e = [] \<or> ValidateTask S (snd (last (ec_methods e))) = Inr tc'"
    by (auto split: if_splits)
  moreover have tw: "takeWhile (\<lambda>m. tc_type (snd m) \<noteq> ''info'') (ec_methods e) = ec_methods e"
    using all by (auto simp: takeWhile_eq_all_conv)
  ultimately show ?thesis
    unfolding info_shape_def Nil tw by (auto simp: endpoint_routes_def Path_def o_def case_prod_unfold list_all_iff)
next
  case (Cons x ms2)
  obtain m t where x: "x = (m, t)" by (cases x)
  obtain ms1 where ms1: "takeWhile (\<lambda>m. tc_type (snd m) \<noteq> ''info'') (ec_methods e) = ms1" by blast
  then have l: "ec_methods e = ms1 @ (m, t) # ms2" using Cons x by (metis takeWhile_dropWhile_id)
  have t: "tc_type t = ''info''" using hd_dropWhile [of "\<lambda>m. tc_type (snd m) \<noteq> ''info''" "ec_methods e"] Cons x by auto
  have "\<forall>(m, t) \<in> set ms1. tc_type t \<notin> set [''info'']" using ms1 by (auto dest: set_takeWhileD)
  from method_loop_cut [OF assms(1) assms(2) [unfolded l] this] method_loop_path [OF assms(2)] t assms(3)
  have "map fst acc' = map fst ms1" "tc' = t" "ec_path e' = ec_path e" by simp_all
  then show ?thesis
    unfolding info_shape_def Cons x ms1 by (auto simp: endpoint_routes_def Path_def o_def case_prod_unfold list_all_iff)
qed

lemma endpoint_loop_info:
  assumes "one_each F"
  shows "endpoint_loop F S a [''info''] es = Some (Inr rs) \<Longrightarrow>
           \<exists>ecs rss. es = map Some ecs \<and> rs = concat rss \<and> list_all2 (info_shape S) ecs rss"
proof (induction es arbitrary: rs rule: ptrs_induct)
  case empty
  then show ?case by (intro exI [of _ "[]"]) simp
next
  case (ptr econfig es)
  from ptr.prems obtain e e' tc' acc' rs'
    where v: "ValidateEndpoint S econfig = Inr e"
      and m: "method_loop F S [''info''] (ec_methods e) e zero_task_config [] = Some (Inr (e', tc', acc'))"
      and l: "endpoint_loop F S a [''info''] es = Some (Inr rs')"
      and rs: "rs = endpoint_routes a (e', tc', acc') @ rs'"
    by (auto split: sum.splits option.splits)
  from ptr.IH [OF l] obtain ecs rss where rss: "es = map Some ecs" "rs' = concat rss"
    "list_all2 (info_shape S) ecs rss" by blast
  have "info_shape S econfig (endpoint_routes a (e', tc', acc'))"
    by (rule method_loop_info [OF assms m [unfolded ValidateEndpoint_Inr(1) [OF v]] ValidateEndpoint_Inr(2) [OF v]])
  with rss rs show ?case
    by (intro exI [of _ "econfig # ecs"] exI [of _ "endpoint_routes a (e', tc', acc') # rss"]) simp
qed simp

text \<open>
  C33: What the info task is given to report leaves routes out and mislabels others: of every
  endpoint with an info method it has only the methods before the first one (in the order of
  the map), and every one of them with the type, description and authorizers of the info
  method.
\<close>

theorem info_cuts_endpoint:
  assumes "routes n S config [''info''] = Some (Inr rs)"
  shows "\<exists>es rss. cf_endpoints config = map Some es \<and> rs = concat rss \<and> list_all2 (info_shape S) es rss"
proof -
  from assms obtain k a where
    "endpoint_loop (call_factory k S config) S a [''info''] (cf_endpoints config) = Some (Inr rs)"
    by (cases n) (auto simp: routes_with_def split: sum.splits)
  from endpoint_loop_info [OF one_each_call_factory this] show ?thesis .
qed

section \<open>Concrete servers\<close>

text \<open>One endpoint with the given methods, and tasks to put there.\<close>

definition shell_doc :: json where
  "shell_doc = JObj [(''commands'', JArr [JObj [(''command'', JStr ''id'')]])]"

definition shell_method :: task_config where
  "shell_method = zero_task_config\<lparr>tc_type := ''shell'', tc_config := Some shell_doc\<rparr>"

definition info_method :: task_config where
  "info_method = zero_task_config\<lparr>tc_type := ''info''\<rparr>"

definition multi_method :: task_config where
  "multi_method = zero_task_config\<lparr>tc_type := ''multi'',
     tc_config := Some (JObj [(''tasks'', JArr [JObj [(''type'', JStr ''info'')]])])\<rparr>"

definition site :: "(string \<times> task_config) list \<Rightarrow> config" where
  "site ms = NewConfig\<lparr>cf_endpoints := [Some (zero_endpoint\<lparr>ec_path := ''/x'', ec_methods := ms\<rparr>)]\<rparr>"

lemma shell_doc_factory:
  "ShellFactory (format_table ft) (Some shell_doc) =
     Inr (NewShellTaskConfig\<lparr>sh_commands := [Some \<lparr>sc_command = ''id'', sc_chdir = [], sc_format = ''text'',
        sc_return_command = False\<rparr>], sh_index := -1\<rparr>)"
  by (simp add: ShellFactory_def unmarshal_raw_def decode_value_def shell_doc_def find_field_def shell_fields_def
    shell_command_fields_def field_def dec_string_def dec_slice_def dec_ptr_def NewShellTaskConfig_def
    ValidateShell_def deref_def ValidateShellCommand_def VerifyFormat_def single_index_def)

definition shell_route :: "(string \<times> task_config) list \<Rightarrow> task_config \<Rightarrow> string \<Rightarrow> route" where
  "shell_route ms tc m =
     Route [] m ''/x'' tc (zero_endpoint\<lparr>ec_path := ''/x'', ec_methods := ms\<rparr>)
       (ShellTask (NewShellTaskConfig\<lparr>sh_commands := [Some \<lparr>sc_command = ''id'', sc_chdir = [],
          sc_format = ''text'', sc_return_command = False\<rparr>], sh_index := -1\<rparr>))"

lemmas site_defs = numeral_eq_Suc site_def shell_method_def info_method_def routes_with_def
  GetAuthorizers_def NewConfig_def ValidateEndpoint_def zero_endpoint_def zero_task_config_def
  validate_opt_params_def ValidateTask_def one_task_def endpoint_routes_def Path_def shell_route_def

lemma site_routes:
  "routes 2 sample_sys (site [(''GET'', shell_method), (''PUT'', shell_method)]) [] =
     Some (Inr (map (shell_route [(''GET'', shell_method), (''PUT'', shell_method)] shell_method)
       [''GET'', ''PUT'']))"
  by (simp add: site_defs) (simp add: sample_sys_def shell_doc_factory site_defs)

lemma site_info_routes:
  "routes 2 sample_sys (site [(''GET'', shell_method), (''POST'', info_method)]) [''info''] =
     Some (Inr [shell_route [(''GET'', shell_method), (''POST'', info_method)] info_method ''GET''])"
  by (simp add: site_defs) (simp add: sample_sys_def shell_doc_factory site_defs)

theorem routes_shape_witness:
  "\<exists>a es rss. GetAuthorizers sample_sys authorizer_table
              (site [(''GET'', shell_method), (''PUT'', shell_method)]) = Inr a \<and>
     cf_endpoints (site [(''GET'', shell_method), (''PUT'', shell_method)]) = map Some es \<and>
     map (shell_route [(''GET'', shell_method), (''PUT'', shell_method)] shell_method)
       [''GET'', ''PUT''] = concat rss \<and>
     list_all2 (endpoint_shape sample_sys a) es rss"
  by (rule routes_shape [OF site_routes])

theorem info_cuts_endpoint_witness:
  "\<exists>es rss. cf_endpoints (site [(''GET'', shell_method), (''POST'', info_method)]) = map Some es \<and>
     [shell_route [(''GET'', shell_method), (''POST'', info_method)] info_method ''GET''] = concat rss \<and>
     list_all2 (info_shape sample_sys) es rss"
  by (rule info_cuts_endpoint [OF site_info_routes])

theorem routes_return_witness:
  "\<exists>res. routes 7 sample_sys (site [(''GET'', shell_method), (''POST'', info_method)]) [] = Some res \<and>
     routes (0 + 4) sample_sys (site [(''GET'', shell_method), (''POST'', info_method)]) [] = Some res"
  by (rule routes_return)
    (simp_all add: info_safe_def site_def shell_method_def info_method_def zero_endpoint_def)

definition multi_method_config :: multi_config where
  "multi_method_config = \<lparr>mc_tasks = [Some info_method], mc_single = None, mc_index = -1\<rparr>"

lemma multi_method_decoded: "multi_config_of (tc_config multi_method) = Inr multi_method_config"
  by (simp add: site_defs multi_method_def multi_config_of_def unmarshal_raw_def decode_value_def
      find_field_def multi_fields_def field_def dec_slice_def dec_ptr_def
      task_config_fields_def dec_string_def ValidateMulti_def single_index_def multi_method_config_def)

lemma multi_site_diverges:
  "routes n sample_sys (site [(''GET'', multi_method)]) [] = None"
proof (rule info_in_multi_diverges)
  let ?e = "zero_endpoint\<lparr>ec_path := ''/x'', ec_methods := [(''GET'', multi_method)]\<rparr>"
  show "GetAuthorizers sample_sys authorizer_table (site [(''GET'', multi_method)]) = Inr []"
    by (simp add: site_defs multi_method_def)
  show "cf_endpoints (site [(''GET'', multi_method)]) = Some ?e # []" by (simp add: site_def)
  show "ValidateEndpoint sample_sys ?e = Inr ?e" by (simp add: site_defs)
  show "ec_methods ?e = (''GET'', multi_method) # []" by simp
  show "ValidateTask sample_sys multi_method = Inr multi_method"
    "ValidateTask sample_sys info_method = Inr info_method"
    by (simp_all add: site_defs multi_method_def)
  show "tc_type multi_method = ''multi''" "tc_type info_method = ''info''"
    by (simp_all add: site_defs multi_method_def)
  show "multi_config_of (tc_config multi_method) = Inr multi_method_config" by (rule multi_method_decoded)
  show "mc_tasks multi_method_config = Some info_method # []" by (simp add: multi_method_config_def)
qed


end
