(* ===== verification/Server.thy ===== *)
theory Server
  imports Routes
begin

text \<open>
  \<open>server.go\<close> and the main program: query parameters and environment of a request, the handler
  of a route, the dispatch of a request to a route, and the start of the server.
\<close>

section \<open>Environment and query parameters\<close>

abbreviation equals_sign :: char where "equals_sign \<equiv> CHR ''=''"

definition GetEnv :: "('t, 'w) sys \<Rightarrow> 'w \<Rightarrow> (string \<times> string) list" where
  "GetEnv S w =
     fold (\<lambda>v result.
        (case split_n2 equals_sign v of
           [key, val] \<Rightarrow> AList.update (TrimSpace key) (TrimSpace val) result
         | _ \<Rightarrow> result)) (os_environ S w) []"

definition GetQueryParams ::
  "('t, 'w) sys \<Rightarrow> request \<Rightarrow> endpoint_config \<Rightarrow> (string \<times> string) list outcome" where
  "GetQueryParams S r ec =
     (if ec_query_params ec \<noteq> None then GetParams S (ec_query_params ec) r
      else
        bind_outcome (GetParams S (tc_query_params (method_config ec (rq_method r))) r)
          (\<lambda>params. Returns (fold (\<lambda>(k, v). AList.update k v) params [])))"

section \<open>The handler of a route\<close>

text \<open>
  Reading the request's body: the text the templates get, and the reader afterwards.  The
  code keeps the bytes only when the read fails.  A body read to its end yields nothing more,
  and a failed one keeps failing.
\<close>

definition read_body :: "request \<Rightarrow> string \<times> reader option" where
  "read_body r =
     (case rq_body r of
        None \<Rightarrow> ([], None)
      | Some (b, err) \<Rightarrow> (if err \<noteq> None then b else [], Some ([], err)))"

definition request_params ::
  "('t, 'w) sys \<Rightarrow> (string \<times> string) list \<Rightarrow> request \<Rightarrow> endpoint_config \<Rightarrow> string \<Rightarrow> gval outcome" where
  "request_params S env r ec body =
     bind_outcome (GetQueryParams S r ec) (\<lambda>query.
       Returns
         (VMap [(''url'', string_map (rq_vars r)),
                (''query'', string_map query),
                (''request'', VMap [(''method'', VStr (rq_method r)), (''body'', VStr body)]),
                (''env'', string_map env)]))"

text \<open>Whether the parameters are shown in the response.\<close>

definition add_params :: "request \<Rightarrow> endpoint_config \<Rightarrow> gval \<Rightarrow> response \<Rightarrow> response" where
  "add_params r ec params response =
     (let r1 = (case ec_query_params ec of
                  None \<Rightarrow> response
                | Some q \<Rightarrow> (if qs_return_params q then AddValue ''params'' params response else response))
      in case tc_query_params (method_config ec (rq_method r)) of
           None \<Rightarrow> r1
         | Some mqp \<Rightarrow>
             (if qs_return_params mqp \<and> \<not> HasValue ''params'' r1
              then AddValue ''params'' params r1 else r1))"

text \<open>What the handler does before the response is written, up to a panic.\<close>

definition respond ::
  "('t, 'w) sys \<Rightarrow> config \<Rightarrow> authorizers \<Rightarrow> endpoint_config \<Rightarrow> (string \<times> string) list \<Rightarrow> task
     \<Rightarrow> request \<Rightarrow> 'w \<Rightarrow> (response \<times> 'w) outcome" where
  "respond S config authorizers ec env t r w =
     bind_outcome (Authorize S authorizers r ec w) (\<lambda>(refused, w1).
       (case refused of
          Some e \<Rightarrow> Returns (NewResponse StatusUnauthorized, w1)
        | None \<Rightarrow>
            (case read_body r of
               (body, rest) \<Rightarrow>
                 bind_outcome
                   (request_params S (if cf_reload_env config then GetEnv S w1 else env) r ec body)
                   (\<lambda>params.
                     bind_outcome (run_task S t r params (rest, w1)) (\<lambda>(response, st).
                       Returns (add_params r ec params response, snd st))))))"

fun panic_value :: "go_panic \<Rightarrow> gval" where
  "panic_value (RuntimePanic m) = VErr (ErrRuntime m)"
| "panic_value (StringPanic s) = VStr s"

text \<open>
  The handler: a panic is recovered and answered with status 500.  What it leaves the world in
  is not known then, so the world is returned for the other cases only.  \<open>env\<close> is the
  environment read when the route was registered.
\<close>

definition Handle ::
  "('t, 'w) sys \<Rightarrow> config \<Rightarrow> authorizers \<Rightarrow> endpoint_config \<Rightarrow> (string \<times> string) list \<Rightarrow> task
     \<Rightarrow> request \<Rightarrow> 'w \<Rightarrow> writer \<times> 'w option" where
  "Handle S config authorizers ec env t r w =
     (case respond S config authorizers ec env t r w of
        Returns (response, w1) \<Rightarrow> (snd (Write response fresh_writer), Some w1)
      | Panics e \<Rightarrow>
          (snd (Write
             (Error (panic_value e)
               (Pretty (cf_pretty_json config) (NewResponse StatusInternalServerError)))
             fresh_writer), None))"

definition NotFoundHandler :: writer where
  "NotFoundHandler = snd (Write (NewResponse StatusNotFound) fresh_writer)"

section \<open>Dispatch\<close>

text \<open>
  A route matches when its path template does and the request's method is the registered one in
  upper case (\<open>Methods\<close> of gorilla/mux converts it).  Routes are tried in order.
\<close>

definition route_match :: "('t, 'w) sys \<Rightarrow> request \<Rightarrow> route \<Rightarrow> (string \<times> string) list option" where
  "route_match S r rt =
     (if rq_method r = ToUpper (uni_upper S) (rt_method rt) then mux_path S (rt_path rt) (rq_path r)
      else None)"

fun find_route ::
  "('t, 'w) sys \<Rightarrow> request \<Rightarrow> route list \<Rightarrow> (route \<times> (string \<times> string) list) option" where
  "find_route S r [] = None"
| "find_route S r (rt # rts) =
     (case route_match S r rt of Some vars \<Rightarrow> Some (rt, vars) | None \<Rightarrow> find_route S r rts)"

text \<open>
  What a client gets for a request: gorilla/mux first sends it to the canonical form of its path
  (\<open>redirect_url\<close> is the text of the request's URL with another path), and calls the handler
  of the first route that matches.
\<close>

definition Redirect :: "('t, 'w) sys \<Rightarrow> request \<Rightarrow> writer" where
  "Redirect S r =
     WriteHeader StatusMovedPermanently
       (add_header ''Location'' (redirect_url S r (cleanPath (rq_path r))) fresh_writer)"

definition serve ::
  "('t, 'w) sys \<Rightarrow> config \<Rightarrow> (string \<times> string) list \<Rightarrow> route list \<Rightarrow> request \<Rightarrow> 'w
     \<Rightarrow> writer \<times> 'w option" where
  "serve S config env rts r w =
     (if cleanPath (rq_path r) \<noteq> rq_path r then (Redirect S r, Some w)
      else
        (case find_route S r rts of
           None \<Rightarrow> (NotFoundHandler, Some w)
         | Some (rt, vars) \<Rightarrow>
             Handle S config (rt_authorizers rt) (rt_endpoint rt) env (rt_task rt)
               (r\<lparr>rq_vars := vars\<rparr>) w))"

section \<open>Starting\<close>

record server =
  sv_config :: config
  sv_version :: string
  sv_router :: "route list"

definition NewServer :: "config \<Rightarrow> server result" where
  "NewServer config = Inr \<lparr>sv_config = config, sv_version = VERSION, sv_router = []\<rparr>"

text \<open>What \<open>Run\<close> asks \<open>net/http\<close> to do: listen on an address, with a certificate or without.\<close>

record listening =
  ls_address :: string
  ls_tls :: "(string \<times> string) option"
  ls_server :: server

definition Run :: "nat \<Rightarrow> ('t, 'w) sys \<Rightarrow> server \<Rightarrow> listening attempt option" where
  "Run n S s =
     (case routes n S (sv_config s) [] of
        None \<Rightarrow> None
      | Some (Inl e) \<Rightarrow> Some (Inl e)
      | Some (Inr rs) \<Rightarrow>
          Some (Inr \<lparr>ls_address = cf_host (sv_config s) @ '':'' @ int_dec (cf_port (sv_config s)),
                     ls_tls = map_option (\<lambda>c. (ssl_cert c, ssl_key c)) (cf_ssl (sv_config s)),
                     ls_server = s\<lparr>sv_router := rs\<rparr>\<rparr>))"

text \<open>
  The end of \<open>main\<close>: the exit status 1, a panic that nothing recovers, or the server that
  listens.
\<close>

datatype main_result = Exits nat | Crashed go_panic | Listens listening

definition main_program ::
  "nat \<Rightarrow> ('t, 'w) sys \<Rightarrow> string \<Rightarrow> string \<Rightarrow> 'w \<Rightarrow> main_result option" where
  "main_program n S configVar formatVar w =
     (case NewConfigFromFilename S configVar formatVar w of
        Inl e \<Rightarrow> Some (Exits 1)
      | Inr config \<Rightarrow>
          (case os_chdir S (cf_directory config) w of
             (Some e, w1) \<Rightarrow> Some (Exits 1)
           | (None, w1) \<Rightarrow>
               (case NewServer config of
                  Inl e \<Rightarrow> Some (Exits 1)
                | Inr s \<Rightarrow>
                    (case Run n S s of
                       None \<Rightarrow> None
                     | Some (Inl (Fails e)) \<Rightarrow> Some (Exits 1)
                     | Some (Inl (Crashes p)) \<Rightarrow> Some (Crashed p)
                     | Some (Inr l) \<Rightarrow> Some (Listens l)))))"

section \<open>What the handler sends\<close>

lemma WriteHeader_fresh [simp]:
  "wr_status (WriteHeader n w) = (case wr_status w of None \<Rightarrow> Some n | Some m \<Rightarrow> Some m)"
  "wr_header (WriteHeader n w) = wr_header w" "wr_body (WriteHeader n w) = wr_body w"
  by (simp_all add: WriteHeader_def split: option.splits)

lemma Write_fresh:
  "wr_status (snd (Write resp fresh_writer)) = Some (rs_status resp)"
  "wr_header (snd (Write resp fresh_writer)) = [(''Content-Type'', ''application/json'')]"
  by (simp_all add: Write_def write_body_def add_header_def fresh_writer_def Let_def split: option.splits)

lemma Redirect_eq:
  "Redirect S r =
     \<lparr>wr_header = [(''Location'', redirect_url S r (cleanPath (rq_path r)))], wr_status = Some 301, wr_body = []\<rparr>"
  by (simp add: Redirect_def WriteHeader_def add_header_def fresh_writer_def)

lemma add_params_status [simp]: "rs_status (add_params r ec params resp) = rs_status resp"
  by (simp add: add_params_def Let_def split: option.splits)

lemma add_params_raw [simp]: "rs_raw (add_params r ec params resp) = rs_raw resp"
  by (simp add: add_params_def Let_def split: option.splits)

text \<open>The data a task's templates get for a request, when its body was read.\<close>

definition handler_params ::
  "('t, 'w) sys \<Rightarrow> config \<Rightarrow> endpoint_config \<Rightarrow> (string \<times> string) list \<Rightarrow> request \<Rightarrow> 'w \<Rightarrow> gval outcome" where
  "handler_params S config ec env r w =
     request_params S (if cf_reload_env config then GetEnv S w else env) r ec (fst (read_body r))"

text \<open>
  C3: Every request to a route is answered once, as JSON by its Content-Type.  The authorizers
  come first: when one refuses, the answer is the one of 401, the same for every reason, and
  the world is left as the authorizers left it, so nothing else has run.  When they accept, the
  parameters are collected and the task runs in the world they left; the answer has the
  status of the task's response, and the world is the one the task left.  A panic of the check,
  the collection or the task is answered 500.
\<close>

theorem handler_status:
  "wr_header (fst (Handle S config a ec env t r w)) = [(''Content-Type'', ''application/json'')] \<and>
   (case Authorize S a r ec w of
      Panics p \<Rightarrow> wr_status (fst (Handle S config a ec env t r w)) = Some 500
    | Returns (Some e, w1) \<Rightarrow>
        Handle S config a ec env t r w = (snd (Write (NewResponse 401) fresh_writer), Some w1)
    | Returns (None, w1) \<Rightarrow>
        (wr_status (fst (Handle S config a ec env t r w)), snd (Handle S config a ec env t r w)) =
        (case handler_params S config ec env r w1 of
           Panics p \<Rightarrow> (Some 500, None)
         | Returns params \<Rightarrow>
             (case run_task S t r params (snd (read_body r), w1) of
                Panics p \<Rightarrow> (Some 500, None)
              | Returns (resp, st) \<Rightarrow> (Some (rs_status resp), Some (snd st)))))"
proof (cases "Authorize S a r ec w")
  case (Panics p)
  then show ?thesis by (simp add: Handle_def respond_def Write_fresh Pretty_def)
next
  case (Returns x)
  obtain refused w1 where x: "x = (refused, w1)" by (cases x)
  show ?thesis
  proof (cases refused)
    case None
    obtain body rest where rb: "read_body r = (body, rest)" by (cases "read_body r")
    have h: "respond S config a ec env t r w =
        bind_outcome (handler_params S config ec env r w1) (\<lambda>params.
          bind_outcome (run_task S t r params (rest, w1)) (\<lambda>(response, st).
            Returns (add_params r ec params response, snd st)))"
      by (simp add: respond_def Returns x None rb handler_params_def)
    show ?thesis
    proof (cases "handler_params S config ec env r w1")
      case (Panics p)
      with h show ?thesis by (simp add: Handle_def Write_fresh Pretty_def Returns x None)
    next
      case p: (Returns params)
      with h show ?thesis
        by (cases "run_task S t r params (rest, w1)")
          (auto simp: Handle_def Write_fresh Pretty_def Returns x None rb)
    qed
  next
    case (Some e)
    with Returns x show ?thesis by (simp add: Handle_def respond_def Write_fresh)
  qed
qed

text \<open>
  A refused request is answered 401 with nothing about the reason, the world is left as the
  authorizers left it, and none of it depends on the task or the configuration of the server.
\<close>

theorem refused_request:
  assumes "Authorize S a r ec w = Returns (Some e, w1)"
  shows "Handle S config a ec env t r w =
           (snd (Write (NewResponse 401) fresh_writer), Some w1)"
  using assms by (simp add: Handle_def respond_def)

lemma map_of_copied:
  "wf_map m \<Longrightarrow>
     map_of (fold (\<lambda>(k, v). AList.update k v) m acc) x = (case map_of m x of None \<Rightarrow> map_of acc x | v \<Rightarrow> v)"
proof (induction m arbitrary: acc)
  case (Cons y m)
  obtain k v where y: "y = (k, v)" by (cases y)
  with Cons.prems have "wf_map m" and "map_of m k = None" by (simp_all add: map_of_eq_None_iff)
  with Cons.IH [of "AList.update k v acc"] y show ?case by (simp add: update_conv' split: option.splits)
qed simp

text \<open>
  C25: Nothing acceptable is lost on the way to a task: of the query parameters in force, which
  are the endpoint's own, or those of the request's method when the endpoint has none, one whose
  name no other has is under "query" in the data of the templates, with the request's
  trimmed value if that is non-empty and passes the pattern, and otherwise with its default, if
  it has one.
\<close>

theorem query_reaches_task:
  assumes "(case ec_query_params ec of
              None \<Rightarrow> tc_query_params (method_config ec (rq_method r)) | Some q0 \<Rightarrow> Some q0) = Some q"
    and "qs_params q = map Some (ps1 @ p # ps2)"
    and "\<forall>p' \<in> set (ps1 @ ps2). qp_name p' \<noteq> qp_name p"
  shows "\<exists>query. request_params S env r ec body =
           Returns
             (VMap [(''url'', string_map (rq_vars r)), (''query'', string_map query),
                    (''request'', VMap [(''method'', VStr (rq_method r)), (''body'', VStr body)]),
                    (''env'', string_map env)]) \<and>
         map_of query (qp_name p) =
           (let v = TrimSpace (first_value (rq_query r) (qp_name p));
                accepted = (v \<noteq> [] \<and> (case qp_compiled p of None \<Rightarrow> True | Some re \<Rightarrow> re_match S re v))
            in if accepted then Some v else if qp_default p \<noteq> [] then Some (qp_default p) else None)"
proof -
  from get_params_complete [OF assms(2,3), of S r] obtain m where m: "GetParams S (Some q) r = Returns m"
    and v: "map_of m (qp_name p) =
      (let v = TrimSpace (first_value (rq_query r) (qp_name p));
           accepted = (v \<noteq> [] \<and> (case qp_compiled p of None \<Rightarrow> True | Some re \<Rightarrow> re_match S re v))
       in if accepted then Some v else if qp_default p \<noteq> [] then Some (qp_default p) else None)" by blast
  obtain query where g: "GetQueryParams S r ec = Returns query"
    and l: "map_of query (qp_name p) = map_of m (qp_name p)"
  proof (cases "ec_query_params ec")
    case None
    with assms(1) m that [of "fold (\<lambda>(k, v). AList.update k v) m []"] show ?thesis
      by (simp add: GetQueryParams_def map_of_copied [OF wf_GetParams [OF m]] split: option.splits)
  next
    case (Some q0)
    with assms(1) m that [of m] show ?thesis by (simp add: GetQueryParams_def)
  qed
  from v show ?thesis by (intro exI [of _ query]) (simp only: request_params_def g l bind_outcome.simps simp_thms)
qed

text \<open>
  C34: The body of a request that can be read to its end never reaches a task: two requests that
  differ only in the bytes of such a body are answered alike.  The handler keeps the bytes only
  if reading them failed (then the templates see what came before the error), and it has
  emptied the reader before a task could post it on.
\<close>

theorem body_never_seen:
  assumes "rq_body r = Some (b, None)"
  shows "Handle S config a ec env t (r\<lparr>rq_body := Some (b', None)\<rparr>) w = Handle S config a ec env t r w"
proof -
  let ?r = "r\<lparr>rq_body := Some (b', None)\<rparr>"
  have au: "Authorize S a ?r ec w = Authorize S a r ec w" by (rule Authorize_cong) simp_all
  have rb: "read_body ?r = read_body r" using assms by (simp add: read_body_def)
  have gp: "GetParams S qo ?r = GetParams S qo r" for qo
  proof -
    have "get_param S ?r = get_param S r" by (intro ext) (simp add: get_param_def)
    then have "get_params_loop S ?r ps m = get_params_loop S r ps m" for ps m
      by (induction ps arbitrary: m rule: ptrs_induct) simp_all
    then show ?thesis unfolding GetParams_def by (cases qo) simp_all
  qed
  have rp: "request_params S env' ?r ec body = request_params S env' r ec body" for env' body
    by (simp add: request_params_def GetQueryParams_def gp)
  have rt: "run_task S t ?r data st = run_task S t r data st" for data st
    by (rule run_task_method) simp
  have ap: "add_params ?r ec params resp = add_params r ec params resp" for params resp
    by (simp add: add_params_def)
  show ?thesis unfolding Handle_def respond_def au rb rp rt ap ..
qed

section \<open>Concrete requests\<close>

lemma sample_path_clean: "cleanPath (rq_path sample_request) = rq_path sample_request"
  by (rule cleanPath_fixed [of "[''x'']"]) (simp add: sample_request_def canonical_path_def plain_elem_def)

definition shell_site :: config where
  "shell_site = site [(''get'', shell_method\<lparr>tc_authorizers := [''b'']\<rparr>)]"

definition params_endpoint :: endpoint_config where
  "params_endpoint =
     zero_endpoint\<lparr>ec_methods := [(''GET'', zero_task_config\<lparr>tc_query_params := Some checked_params\<rparr>)]\<rparr>"

theorem query_reaches_task_witness:
  "\<exists>query rest. request_params sample_sys [] sample_request params_endpoint [] = Returns (VMap rest) \<and>
     map_of rest ''query'' = Some (string_map query) \<and> map_of query ''id'' = Some ''42''"
  using query_reaches_task [of params_endpoint sample_request checked_params "[]"
      "the (hd (qs_params checked_params))" "[]" sample_sys "[]" "[]"]
  by (auto simp: checked_params_def sample_request_def sample_sys_def first_value_def is_digit_def byte_def
      params_endpoint_def method_config_def zero_endpoint_def)

theorem refused_request_witness:
  "Handle sample_sys shell_site sample_authorizers (sample_endpoint\<lparr>ec_authorizers := [''b'']\<rparr>) []
     (ShellTask two_commands) sample_request (0::nat) =
   (snd (Write (NewResponse 401) fresh_writer), Some 0)"
proof (rule refused_request)
  show "Authorize sample_sys sample_authorizers sample_request (sample_endpoint\<lparr>ec_authorizers := [''b'']\<rparr>) 0
      = Returns (Some ErrInvalidAuthorizationHeader, 0)"
    by (simp add: Authorize_def sample_authorizers_def authorize_basic_def GetBasicAuth_def sample_request_def
        first_value_def split_n2_def method_config_def sample_endpoint_def zero_endpoint_def zero_task_config_def)
qed

theorem body_never_seen_witness:
  "Handle sample_sys shell_site [] zero_endpoint [] (ShellTask two_commands)
     (sample_request\<lparr>rq_body := Some (''a'', None)\<rparr>\<lparr>rq_body := Some (''b'', None)\<rparr>) (0::nat) =
   Handle sample_sys shell_site [] zero_endpoint [] (ShellTask two_commands)
     (sample_request\<lparr>rq_body := Some (''a'', None)\<rparr>) (0::nat)"
  by (rule body_never_seen) simp

end
