(* ===== verification/Json_Strings.thy ===== *)
theory Json_Strings
  imports Go_Json
begin

text \<open>
  String and number literals of JSON: what the encoder writes is what the scanner reads.  The
  encoder escapes a string piece by piece, so each fact is stated for a piece and then for the
  whole by induction.
\<close>

section \<open>Pieces\<close>

declare byte_less [simp]

lemma byte_eq_iff: "byte c = byte d \<longleftrightarrow> c = d"
  by (metis char_of_byte)

lemma byte_special [simp]:
  "byte DQ = 34" "byte BS = 92" "byte (CHR ''<'') = 60" "byte (CHR ''>'') = 62" "byte (CHR ''&'') = 38"
  "byte (CHR ''u'') = 117" "byte (CHR 0xE2) = 226"
  by (simp_all add: byte_def)

lemma hexd_is_hex: "n < 16 \<Longrightarrow> hex_val (hexd n) = Some n"
proof -
  assume "n < 16"
  then have "n \<in> {0..<16}" by simp
  then have "n \<in> {0,1,2,3,4,5,6,7,8,9,10,11,12,13,14,15}" by (simp add: atLeastLessThan_nat_numeral) auto
  then show ?thesis by (auto simp: hexd_def hex_val_def byte_def Let_def)
qed

lemma byte_hex [simp]: "byte c div 16 < 16"
  using byte_less [of c] by (simp add: less_mult_imp_div_less)

lemma hex_val_zero [simp]: "hex_val (CHR ''0'') = Some 0" "hex_val (CHR ''2'') = Some 2"
  "hex_val (CHR ''f'') = Some 15" "hex_val (CHR ''d'') = Some 13"
  by (simp_all add: hex_val_def byte_def)

text \<open>
  The kinds of pieces: a plain byte, an escape with a letter, a \<open>\u\<close> escape with four digits.
\<close>

definition plain :: "char \<Rightarrow> bool" where
  "plain c \<longleftrightarrow> 32 \<le> byte c \<and> c \<noteq> DQ \<and> c \<noteq> BS \<and> \<not> html_char c"

lemma is_hex_plain: "is_hex x \<Longrightarrow> plain x \<and> byte x < 128"
  by (auto simp: is_hex_def hex_val_def plain_def html_char_def byte_def Let_def split: if_splits)

inductive piece :: "string \<Rightarrow> bool" where
  piece_plain: "plain c \<Longrightarrow> piece [c]"
| piece_letter: "simple_escape e \<Longrightarrow> piece [BS, e]"
| piece_u: "is_hex a \<Longrightarrow> is_hex b \<Longrightarrow> is_hex c \<Longrightarrow> is_hex d \<Longrightarrow> piece [BS, CHR ''u'', a, b, c, d]"

inductive pieces :: "string \<Rightarrow> bool" where
  pieces_Nil: "pieces []"
| pieces_Cons: "piece p \<Longrightarrow> pieces ps \<Longrightarrow> pieces (p @ ps)"

lemma pieces_append: "pieces p \<Longrightarrow> pieces q \<Longrightarrow> pieces (p @ q)"
  by (induction rule: pieces.induct) (auto intro: pieces.intros)

lemma piece_pieces: "piece p \<Longrightarrow> pieces p"
  using pieces_Cons [OF _ pieces_Nil] by simp

lemma piece_u00: "piece (u00 c)"
  unfolding u00_def by (rule piece_u) (simp_all add: is_hex_def hexd_is_hex)

lemma piece_esc_ascii: "piece (esc_ascii c)"
proof -
  consider "c = BS \<or> c = DQ" | "c = CHR 0x0A \<or> c = CHR 0x0D \<or> c = CHR 0x09"
    | "byte c < 32 \<or> html_char c" "c \<notin> {BS, DQ, CHR 0x0A, CHR 0x0D, CHR 0x09}"
    | "plain c" "c \<notin> {BS, DQ, CHR 0x0A, CHR 0x0D, CHR 0x09}"
    unfolding plain_def by fastforce
  then show ?thesis
  proof cases
    case 1
    then have "esc_ascii c = [BS, c]" "simple_escape c" by (auto simp: esc_ascii_def simple_escape_def)
    then show ?thesis by (simp add: piece_letter)
  next
    case 2
    then show ?thesis
      by (auto simp: esc_ascii_def simple_escape_def intro!: piece_letter)
  next
    case 3
    then have "esc_ascii c = u00 c" by (simp add: esc_ascii_def)
    then show ?thesis by (simp add: piece_u00)
  next
    case 4
    then have "esc_ascii c = [c]" by (simp add: esc_ascii_def plain_def)
    with 4 show ?thesis by (simp add: piece_plain)
  qed
qed

lemma plain_high: "128 \<le> byte c \<Longrightarrow> plain c"
  by (auto simp: plain_def html_char_def)

lemma pieces_plain: "list_all plain w \<Longrightarrow> pieces w"
proof (induction w)
  case Nil
  then show ?case by (simp add: pieces_Nil)
next
  case (Cons c w)
  then show ?case using pieces_Cons [OF piece_plain [of c], of w] by simp
qed

lemma utf8_width_high:
  assumes "utf8_width (c # r) = w" and "w \<noteq> 0" and "128 \<le> byte c"
  shows "list_all (\<lambda>c. 128 \<le> byte c) (take w (c # r))"
  using assms
  by (auto simp: utf8_width_def cont_def Let_def split: if_splits list.splits)

lemma pieces_esc_wide:
  assumes "list_all (\<lambda>c. 128 \<le> byte c) w"
  shows "pieces (esc_wide w)"
proof (cases "line_sep w")
  case True
  then have "is_hex (hexd (byte (last w) mod 16))" by (simp add: is_hex_def hexd_is_hex)
  then show ?thesis using True
    by (auto simp: esc_wide_def is_hex_def intro!: piece_pieces piece_u)
next
  case False
  with assms show ?thesis
    by (auto simp: esc_wide_def list_all_iff intro!: pieces_plain plain_high)
qed

lemma pieces_enc_chars: "pieces (enc_chars s)"
proof (induction s rule: enc_chars.induct)
  case 1
  then show ?case by (simp add: pieces_Nil)
next
  case (2 c r)
  have bad: "pieces [BS, CHR ''u'', CHR ''f'', CHR ''f'', CHR ''f'', CHR ''d'']"
    by (rule piece_pieces) (rule piece_u; simp add: is_hex_def)
  show ?case
  proof (cases "byte c < 128")
    case True
    with 2 show ?thesis by (simp add: pieces_Cons piece_esc_ascii)
  next
    case False
    then have c: "128 \<le> byte c" by simp
    show ?thesis
    proof (cases "utf8_width (c # r) = 0")
      case True
      with False 2(2) pieces_append [OF bad] show ?thesis by (simp add: Let_def)
    next
      case w: False
      with pieces_esc_wide [OF utf8_width_high [OF refl w c]] 2(3) [OF False refl w] False
      show ?thesis by (simp add: Let_def pieces_append)
    qed
  qed
qed

section \<open>Scanning\<close>

lemma scan_piece:
  assumes "piece p"
  shows "scan_string (p @ t) = map_option (apfst ((@) p)) (scan_string t)"
  using assms
proof cases
  case (piece_plain c)
  moreover have "(@) [c] = (#) c" by (rule ext) simp
  ultimately show ?thesis by (auto simp: plain_def)
next
  case (piece_letter e)
  moreover have "(@) [BS, e] = (\<lambda>t. BS # e # t)" by (rule ext) simp
  ultimately show ?thesis by simp
next
  case (piece_u a b c d)
  moreover have "(@) [BS, CHR ''u'', a, b, c, d] = (\<lambda>t. BS # CHR ''u'' # a # b # c # d # t)"
    by (rule ext) simp
  ultimately show ?thesis by (simp add: simple_escape_def)
qed

lemma scan_pieces:
  assumes "pieces p"
  shows "scan_string (p @ t) = map_option (apfst ((@) p)) (scan_string t)"
  using assms
  by (induction rule: pieces.induct) (simp_all add: scan_piece option.map_comp o_def apfst_def map_prod_def case_prod_unfold option.map_ident)

lemma scan_enc_string [simp]: "scan_string (enc_chars s @ DQ # r) = Some (enc_chars s, r)"
  by (simp add: scan_pieces [OF pieces_enc_chars])

section \<open>Decoding\<close>

text \<open>What a string is after being encoded and decoded: invalid UTF-8 has become U+FFFD.\<close>

definition sanitize :: "string \<Rightarrow> string" where
  "sanitize s = unquote (enc_chars s)"

function valid_utf8 :: "string \<Rightarrow> bool" where
  "valid_utf8 [] = True"
| "valid_utf8 (c # r) =
     (let w = utf8_width (c # r) in if w = 0 then False else valid_utf8 (drop w (c # r)))"
  by pat_completeness auto
termination
  by (relation "measure length") auto

lemma byte_cases: "byte c < 128 \<Longrightarrow> utf8_width (c # r) = 1"
  by (simp add: utf8_width_def Let_def)

lemma utf8_width_cases:
  assumes "utf8_width s = w" and "w \<noteq> 0"
  obtains (one) a r where "s = a # r" "w = 1" "byte a < 128"
    | (two) a b r where "s = a # b # r" "w = 2" "194 \<le> byte a" "byte a < 224" "cont b"
    | (three) a b c r where "s = a # b # c # r" "w = 3" "224 \<le> byte a" "byte a < 240" "cont b" "cont c"
        "byte a = 224 \<longrightarrow> 160 \<le> byte b" "byte a = 237 \<longrightarrow> byte b < 160"
    | (four) a b c d r where "s = a # b # c # d # r" "w = 4" "240 \<le> byte a" "byte a < 245"
        "cont b" "cont c" "cont d" "byte a = 240 \<longrightarrow> 144 \<le> byte b" "byte a = 244 \<longrightarrow> byte b < 144"
proof -
  from assms have "(\<exists>a r. s = a # r \<and> w = 1 \<and> byte a < 128) \<or>
      (\<exists>a b r. s = a # b # r \<and> w = 2 \<and> 194 \<le> byte a \<and> byte a < 224 \<and> cont b) \<or>
      (\<exists>a b c r. s = a # b # c # r \<and> w = 3 \<and> 224 \<le> byte a \<and> byte a < 240 \<and> cont b \<and> cont c \<and>
        (byte a = 224 \<longrightarrow> 160 \<le> byte b) \<and> (byte a = 237 \<longrightarrow> byte b < 160)) \<or>
      (\<exists>a b c d r. s = a # b # c # d # r \<and> w = 4 \<and> 240 \<le> byte a \<and> byte a < 245 \<and>
        cont b \<and> cont c \<and> cont d \<and> (byte a = 240 \<longrightarrow> 144 \<le> byte b) \<and> (byte a = 244 \<longrightarrow> byte b < 144))"
    by (simp add: utf8_width_def Let_def split: if_splits list.splits)
  then show ?thesis
  proof (elim disjE exE conjE, goal_cases)
    case (1 a r)
    then show ?thesis by (rule one)
  next
    case (2 a b r)
    then show ?thesis by (rule two)
  next
    case (3 a b c r)
    then show ?thesis by (rule three)
  next
    case (4 a b c d r)
    then show ?thesis by (rule four)
  qed
qed

lemma utf8_width_take:
  assumes "utf8_width s = w" and "w \<noteq> 0"
  shows "utf8_width (take w s @ t) = w" and "w \<le> length s"
proof -
  from assms show "utf8_width (take w s @ t) = w"
    by (rule utf8_width_cases) (simp_all add: utf8_width_def Let_def)
  from assms show "w \<le> length s" by (rule utf8_width_cases) simp_all
qed

lemma char_of_line_sep [simp]:
  "char_of (226::nat) = CHR 0xE2" "char_of (128::nat) = CHR 0x80" "char_of (168::nat) = CHR 0xA8"
  "char_of (169::nat) = CHR 0xA9"
  by code_simp+

lemma getu4_00: "getu4 (CHR ''0'' # CHR ''0'' # hexd (byte c div 16) # hexd (byte c mod 16) # t) = byte c"
proof -
  have "16 * (byte c div 16) + byte c mod 16 = byte c" by presburger
  then show ?thesis by (simp add: hexd_is_hex)
qed

lemma unquote_esc_ascii: "byte c < 128 \<Longrightarrow> unquote (esc_ascii c @ t) = c # unquote t"
proof -
  assume c: "byte c < 128"
  have "\<not> high_surrogate (byte c)" "\<not> low_surrogate (byte c)"
    using c by (auto simp: high_surrogate_def low_surrogate_def)
  then have "unquote (u00 c @ t) = c # unquote t"
    using c by (subst u00_def, subst append_Cons, subst unquote.simps(2))
      (simp add: getu4_00 utf8_encode_def del: getu4.simps unquote.simps)
  then show ?thesis using c
    by (auto simp: esc_ascii_def unesc_def)
qed

lemma unquote_esc_wide:
  assumes "utf8_width (c # r) = w" and "w \<noteq> 0" and "128 \<le> byte c"
  shows "unquote (esc_wide (take w (c # r)) @ t) = take w (c # r) @ unquote t"
proof (cases "line_sep (take w (c # r))")
  case True
  then consider "take w (c # r) = [CHR 0xE2, CHR 0x80, CHR 0xA8]"
    | "take w (c # r) = [CHR 0xE2, CHR 0x80, CHR 0xA9]" by (auto simp: line_sep_def)
  then show ?thesis
    by cases (simp_all add: esc_wide_def line_sep_def hexd_def byte_def hex_val_def high_surrogate_def
        low_surrogate_def utf8_encode_def)
next
  case False
  have hd: "take w (c # r) @ t = c # (take (w - 1) r @ t)" using assms(2) by (cases w) auto
  have "utf8_width (take w (c # r) @ t) = w" using utf8_width_take [OF assms(1,2)] by simp
  moreover have "length (take w (c # r)) = w" using utf8_width_take(2) [OF assms(1,2)] by simp
  then have "take w (take w (c # r) @ t) = take w (c # r)" "drop w (take w (c # r) @ t) = t"
    by (simp_all add: take_all_iff)
  moreover have "c \<noteq> BS" using assms(3) by auto
  ultimately have "unquote (take w (c # r) @ t) = take w (c # r) @ unquote t"
    using assms(2,3) unfolding hd by (subst unquote.simps(2)) (simp add: Let_def del: unquote.simps)
  with False show ?thesis by (simp add: esc_wide_def del: unquote.simps)
qed

lemma sanitize_valid: "valid_utf8 s \<Longrightarrow> sanitize s = s"
  unfolding sanitize_def
proof (induction s rule: enc_chars.induct)
  case 1
  then show ?case by simp
next
  case (2 c r)
  show ?case
  proof (cases "byte c < 128")
    case True
    with "2.prems" have "valid_utf8 r" by (simp add: byte_cases)
    with 2(1) [OF True] True show ?thesis by (simp add: unquote_esc_ascii del: unquote.simps)
  next
    case False
    then have c: "128 \<le> byte c" by simp
    from "2.prems" have w: "utf8_width (c # r) \<noteq> 0" and v: "valid_utf8 (drop (utf8_width (c # r)) (c # r))"
      by (auto simp: Let_def split: if_splits)
    from 2(3) [OF False refl w v] False w show ?thesis
      by (simp add: Let_def unquote_esc_wide [OF refl w c] del: unquote.simps)
  qed
qed

lemma unquote_enc_chars [simp]: "unquote (enc_chars s) = sanitize s"
  by (simp add: sanitize_def)

section \<open>Compacting and indenting a string literal\<close>

lemma indent_plain: "plain c \<Longrightarrow> Indent ind True need d (c # t) = c # Indent ind True need d t"
  by (simp add: plain_def)

lemma indent_escape: "Indent ind True need d (BS # e # t) = BS # e # Indent ind True need d t"
  by simp

lemma indent_piece:
  assumes "piece p"
  shows "Indent ind True need d (p @ t) = p @ Indent ind True need d t"
  using assms by cases (simp_all add: indent_plain indent_escape is_hex_plain del: Indent.simps)

lemma indent_pieces: "pieces p \<Longrightarrow> Indent ind True need d (p @ t) = p @ Indent ind True need d t"
  by (induction rule: pieces.induct) (simp_all add: indent_piece)

lemma indent_enc_string [simp]:
  "Indent ind True need d (enc_chars s @ DQ # t) = enc_chars s @ DQ # Indent ind False need d t"
  by (simp add: indent_pieces [OF pieces_enc_chars])

text \<open>
  \<open>compact\<close> looks three bytes ahead for a line separator; only a byte E2 starts one, and in
  encoded text such a byte belongs to another character.
\<close>

definition e2 :: char where "e2 = CHR 0xE2"

lemma line_sep_hd: "line_sep (c # r) \<Longrightarrow> c = e2"
  by (auto simp: line_sep_def e2_def)

lemma compact_plain:
  assumes "plain c" and "c \<noteq> e2"
  shows "compact True (c # t) = c # compact True t"
  using assms line_sep_hd [of c] by (cases t; cases "tl t") (auto simp: plain_def)

lemma compact_plains:
  "list_all (\<lambda>c. plain c \<and> c \<noteq> e2) w \<Longrightarrow> compact True (w @ t) = w @ compact True t"
  by (induction w) (auto simp: compact_plain simp del: compact.simps)

lemma compact_piece:
  assumes "piece p" and "\<forall>c. p = [c] \<longrightarrow> c \<noteq> e2"
  shows "compact True (p @ t) = p @ compact True t"
  using assms(1)
proof cases
  case (piece_plain c)
  with assms(2) compact_plain [of c t] show ?thesis by simp
next
  case (piece_letter e)
  then show ?thesis by simp
next
  case (piece_u a b c d)
  have "plain x \<and> x \<noteq> e2" if "is_hex x" for x
    using is_hex_plain [OF that] by (auto simp: e2_def)
  with piece_u have "compact True ([a, b, c, d] @ t) = [a, b, c, d] @ compact True t"
    by (intro compact_plains) simp
  with piece_u show ?thesis by simp
qed

lemma compact_esc_wide:
  assumes "utf8_width s = w" and "w \<noteq> 0" and "128 \<le> byte (hd s)"
  shows "compact True (esc_wide (take w s) @ t) = esc_wide (take w s) @ compact True t"
proof (cases "line_sep (take w s)")
  case True
  then have "is_hex (hexd (byte (last (take w s)) mod 16))" by (simp add: is_hex_def hexd_is_hex)
  then have "piece (esc_wide (take w s))" using True by (auto simp: esc_wide_def is_hex_def intro!: piece_u)
  moreover have "esc_wide (take w s) \<noteq> [c]" for c using True by (simp add: esc_wide_def)
  ultimately show ?thesis by (intro compact_piece) auto
next
  case False
  have cont: "plain c \<and> c \<noteq> e2" if "cont c" for c
    using that plain_high [of c] by (auto simp: cont_def e2_def)
  from assms(1,2) have "compact True (take w s @ t) = take w s @ compact True t"
  proof (cases rule: utf8_width_cases)
    case (one a r)
    with assms(3) show ?thesis by simp
  next
    case (two a b r)
    then have "plain a \<and> a \<noteq> e2" using plain_high [of a] by (auto simp: e2_def)
    with two cont show ?thesis by (intro compact_plains) simp
  next
    case (three a b c r)
    have "compact True ([b, c] @ t) = [b, c] @ compact True t"
      using three cont by (intro compact_plains) simp
    moreover have "compact True (a # b # c # t) = a # compact True (b # c # t)"
      using False three plain_high [of a] by (auto simp: plain_def)
    ultimately show ?thesis using three by (simp del: compact.simps)
  next
    case (four a b c d r)
    then have "plain a \<and> a \<noteq> e2" using plain_high [of a] by (auto simp: e2_def)
    with four cont show ?thesis by (intro compact_plains) simp
  qed
  with False show ?thesis by (simp add: esc_wide_def del: compact.simps)
qed

lemma compact_enc_chars: "compact True (enc_chars s @ t) = enc_chars s @ compact True t"
proof (induction s rule: enc_chars.induct)
  case 1
  then show ?case by simp
next
  case (2 c r)
  have bad: "compact True ([BS, CHR ''u'', CHR ''f'', CHR ''f'', CHR ''f'', CHR ''d''] @ u) =
      [BS, CHR ''u'', CHR ''f'', CHR ''f'', CHR ''f'', CHR ''d''] @ compact True u" for u
    by (intro compact_piece piece_u) (simp_all add: is_hex_def)
  show ?case
  proof (cases "byte c < 128")
    case True
    have "x = c" if "esc_ascii c = [x]" for x
      using that by (simp add: esc_ascii_def u00_def split: if_splits)
    moreover have "c \<noteq> e2" using True by (auto simp: e2_def)
    ultimately have "esc_ascii c \<noteq> [e2]" by metis
    then have "compact True (esc_ascii c @ u) = esc_ascii c @ compact True u" for u
      by (intro compact_piece piece_esc_ascii) auto
    with 2(1) [OF True] True show ?thesis by (simp del: compact.simps)
  next
    case False
    then have c: "128 \<le> byte (hd (c # r))" by simp
    show ?thesis
    proof (cases "utf8_width (c # r) = 0")
      case True
      with False 2(2) [OF False refl] bad [of "enc_chars r @ t"] show ?thesis
        by (simp add: Let_def del: compact.simps)
    next
      case w: False
      with compact_esc_wide [OF refl w c] 2(3) [OF False refl w] False show ?thesis
        by (simp add: Let_def del: compact.simps)
    qed
  qed
qed

lemma compact_enc_string [simp]:
  "compact True (enc_chars s @ DQ # t) = enc_chars s @ DQ # compact False t"
  by (simp add: compact_enc_chars)

section \<open>Numbers\<close>

text \<open>A byte after which a number literal cannot go on.\<close>

definition num_char :: "char \<Rightarrow> bool" where
  "num_char c \<longleftrightarrow> is_digit c \<or> c \<in> {CHR ''.'', CHR ''e'', CHR ''E'', CHR ''+'', CHR ''-''}"

definition num_end :: "string \<Rightarrow> bool" where
  "num_end r \<longleftrightarrow> (case r of [] \<Rightarrow> True | c # _ \<Rightarrow> \<not> num_char c)"

text \<open>A number literal of the JSON grammar.\<close>

definition number :: "string \<Rightarrow> bool" where
  "number n \<longleftrightarrow> lex_number n = Some (n, [])"

lemma num_end_simps [simp]: "num_end []" "num_end (c # r) = (\<not> num_char c)"
  by (simp_all add: num_end_def)

lemma digits_end:
  assumes "num_end r"
  shows "takeWhile is_digit (s @ r) = takeWhile is_digit s" and "dropWhile is_digit (s @ r) = dropWhile is_digit s @ r"
  using assms by (induction s) (auto simp: num_end_def num_char_def split: list.splits)

lemma lex_int_append:
  assumes "lex_int s = Some (i, s')" and "num_end r"
  shows "lex_int (s @ r) = Some (i, s' @ r)"
  using assms(1) digits_end [OF assms(2), of "tl s"]
  by (auto simp: lex_int_def split: list.splits if_splits)

lemma lex_frac_append:
  assumes "lex_frac s = Some (f, s')" and "num_end r"
  shows "lex_frac (s @ r) = Some (f, s' @ r)"
  using assms digits_end [OF assms(2)]
  by (cases s; cases r) (auto simp: lex_frac_def num_char_def split: if_splits)

lemma lex_sign_append: "lex_sign s = (g, s') \<Longrightarrow> s \<noteq> [] \<Longrightarrow> lex_sign (s @ r) = (g, s' @ r)"
  by (auto simp: lex_sign_def split: list.splits if_splits)

lemma lex_exp_append:
  assumes "lex_exp s = Some (e, s')" and "num_end r"
  shows "lex_exp (s @ r) = Some (e, s' @ r)"
proof (cases s)
  case Nil
  with assms show ?thesis by (cases r) (auto simp: lex_exp_def num_char_def)
next
  case (Cons c u)
  show ?thesis
  proof (cases "c = CHR ''e'' \<or> c = CHR ''E''")
    case True
    obtain g v where g: "lex_sign u = (g, v)" by (cases "lex_sign u")
    with assms True Cons have "u \<noteq> []" by (auto simp: lex_exp_def lex_sign_def)
    from lex_sign_append [OF g this] assms(1) True Cons g digits_end [OF assms(2)]
    show ?thesis by (auto simp: lex_exp_def split: if_splits)
  next
    case False
    with assms(1) Cons show ?thesis by (auto simp: lex_exp_def)
  qed
qed

lemma lex_number_append:
  assumes "number n" and "num_end r"
  shows "lex_number (n @ r) = Some (n, r)"
proof -
  obtain m s1 where m: "lex_minus n = (m, s1)" by (cases "lex_minus n")
  from assms(1) m obtain i s2 f s3 e where p: "lex_int s1 = Some (i, s2)" "lex_frac s2 = Some (f, s3)"
    "lex_exp s3 = Some (e, [])" "n = m @ i @ f @ e"
    by (auto simp: number_def lex_number_def split: option.splits)
  have "s1 \<noteq> []" using p(1) by (auto simp: lex_int_def)
  then have "lex_minus (n @ r) = (m, s1 @ r)"
    using m by (auto simp: lex_minus_def split: list.splits if_splits)
  with lex_int_append [OF p(1) assms(2)] lex_frac_append [OF p(2) assms(2)] lex_exp_append [OF p(3) assms(2)] p(4)
  show ?thesis by (simp add: lex_number_def)
qed

end
