(* ===== verification/Json_Facts.thy ===== *)
theory Json_Facts
  imports Json_Strings
begin

text \<open>
  Documents: the parser reads what the printer writes, with any white space between the tokens;
  \<open>compact\<close> removes that white space and \<open>Indent\<close> puts it in.  The fuel \<open>parse_json\<close> takes is
  enough for every printed document.
\<close>

section \<open>Documents the encoder can print\<close>

fun numbers_ok :: "json \<Rightarrow> bool" where
  "numbers_ok (JNum n) = number n"
| "numbers_ok (JArr js) = list_all numbers_ok js"
| "numbers_ok (JObj ms) = list_all (\<lambda>m. numbers_ok (snd m)) ms"
| "numbers_ok _ = True"

text \<open>The document a decoder gets: strings and names have been through UTF-8.\<close>

fun sane :: "json \<Rightarrow> json" where
  "sane (JStr s) = JStr (sanitize s)"
| "sane (JArr js) = JArr (map sane js)"
| "sane (JObj ms) = JObj (map (\<lambda>m. (sanitize (fst m), sane (snd m))) ms)"
| "sane j = j"

fun valid_json :: "json \<Rightarrow> bool" where
  "valid_json (JStr s) = valid_utf8 s"
| "valid_json (JArr js) = list_all valid_json js"
| "valid_json (JObj ms) = list_all (\<lambda>m. valid_utf8 (fst m) \<and> valid_json (snd m)) ms"
| "valid_json _ = True"

lemma sane_valid: "valid_json j \<Longrightarrow> sane j = j"
proof (induction j)
  case (JArr js)
  then show ?case by (auto simp: list_all_iff intro: map_idI)
next
  case (JObj ms)
  have "(sanitize (fst m), sane (snd m)) = m" if "m \<in> set ms" for m
    using that JObj.prems JObj.IH [OF that, of "snd m"]
    by (auto simp: list_all_iff sanitize_valid snds.simps intro: prod_eqI)
  then show ?case by (auto intro: map_idI)
qed (simp_all add: sanitize_valid)

section \<open>White space and first bytes\<close>

definition all_ws :: "(nat \<Rightarrow> string) \<Rightarrow> string \<Rightarrow> bool" where
  "all_ws nl sp \<longleftrightarrow> (\<forall>d. list_all is_ws (nl d)) \<and> list_all is_ws sp"

lemma skip_ws_append: "list_all is_ws w \<Longrightarrow> skip_ws (w @ s) = skip_ws s"
  by (induction w) (auto simp: skip_ws_def)

lemma skip_ws_Cons [simp]: "\<not> is_ws c \<Longrightarrow> skip_ws (c # s) = c # s"
  by (simp add: skip_ws_def)

lemma is_ws_tokens [simp]:
  "\<not> is_ws (CHR ''['')" "\<not> is_ws (CHR '']'')" "\<not> is_ws (CHR ''{'')" "\<not> is_ws (CHR ''}'')"
  "\<not> is_ws (CHR '','')" "\<not> is_ws (CHR '':'')" "\<not> is_ws DQ" "\<not> is_ws (CHR ''t'')"
  "\<not> is_ws (CHR ''f'')" "\<not> is_ws (CHR ''n'')"
  by (simp_all add: is_ws_def)

lemma is_digit_byte: "is_digit c \<Longrightarrow> 48 \<le> byte c \<and> byte c \<le> 57"
  by (simp add: is_digit_def)

lemma num_char_tokens [simp]:
  "\<not> num_char (CHR '']'')" "\<not> num_char (CHR ''}'')" "\<not> num_char (CHR '','')"
  by (simp_all add: num_char_def is_digit_def byte_def)

lemma ws_not_num: "is_ws c \<Longrightarrow> \<not> num_char c"
  by (auto simp: is_ws_def num_char_def is_digit_def byte_def)

lemma num_end_ws: "list_all is_ws w \<Longrightarrow> num_end s \<Longrightarrow> num_end (w @ s)"
  by (cases w) (auto simp: ws_not_num)

text \<open>A number literal starts with a digit or a minus sign and has only bytes of numbers.\<close>

lemma number_head:
  assumes "number n"
  obtains c r where "n = c # r" "c = CHR ''-'' \<or> is_digit c"
proof (cases n)
  case Nil
  with assms show ?thesis by (simp add: number_def lex_number_def lex_minus_def lex_int_def)
next
  case (Cons c r)
  have "c = CHR ''-'' \<or> is_digit c"
  proof (cases "c = CHR ''-''")
    case False
    with assms Cons show ?thesis
      by (auto simp: number_def lex_number_def lex_minus_def lex_int_def is_digit_def byte_def
          split: if_splits)
  qed simp
  with Cons that show ?thesis by blast
qed

lemma number_start:
  "c = CHR ''-'' \<or> is_digit c \<Longrightarrow>
     \<not> is_ws c \<and> c \<noteq> CHR ''{'' \<and> c \<noteq> CHR ''['' \<and> c \<noteq> DQ \<and> c \<noteq> CHR ''t'' \<and> c \<noteq> CHR ''f'' \<and>
     c \<noteq> CHR ''n'' \<and> c \<noteq> CHR ''}'' \<and> c \<noteq> CHR '']''"
  by (auto simp: is_ws_def is_digit_def byte_def)

lemma num_char_digit: "is_digit c \<Longrightarrow> num_char c"
  by (simp add: num_char_def)

lemma num_char_marks [simp]:
  "num_char (CHR ''.'')" "num_char (CHR ''e'')" "num_char (CHR ''E'')" "num_char (CHR ''+'')"
  "num_char (CHR ''-'')" "num_char (CHR ''0'')"
  by (simp_all add: num_char_def is_digit_def byte_def)

lemma takeWhile_digit: "x \<in> set (takeWhile is_digit s) \<Longrightarrow> num_char x"
  by (auto dest: set_takeWhileD num_char_digit)

lemma number_chars:
  assumes "number n" and "c \<in> set n"
  shows "num_char c"
proof -
  have i: "set i \<subseteq> Collect num_char" if "lex_int s = Some (i, r)" for s i r
    using that by (auto simp: lex_int_def num_char_digit split: list.splits if_splits dest: takeWhile_digit)
  have f: "set i \<subseteq> Collect num_char" if "lex_frac s = Some (i, r)" for s i r
    using that by (auto simp: lex_frac_def split: list.splits if_splits dest: takeWhile_digit)
  have s: "set i \<subseteq> Collect num_char" if "lex_sign s = (i, r)" for s i r
    using that by (auto simp: lex_sign_def split: list.splits if_splits)
  have e: "set i \<subseteq> Collect num_char" if "lex_exp s = Some (i, r)" for s i r
    using that s by (fastforce simp: lex_exp_def split: list.splits if_splits prod.splits dest: takeWhile_digit)
  have m: "set i \<subseteq> Collect num_char" if "lex_minus s = (i, r)" for s i r
    using that by (auto simp: lex_minus_def split: list.splits if_splits)
  obtain m0 s1 where m0: "lex_minus n = (m0, s1)" by (cases "lex_minus n")
  from assms(1) m0 obtain i0 s2 f0 s3 e0 where "lex_int s1 = Some (i0, s2)" "lex_frac s2 = Some (f0, s3)"
    "lex_exp s3 = Some (e0, [])" "n = m0 @ i0 @ f0 @ e0"
    by (auto simp: number_def lex_number_def split: option.splits)
  with m [OF m0] i f e assms(2) show ?thesis by fastforce
qed

section \<open>Parsing what was printed\<close>

abbreviation (input) size_of :: "(nat \<Rightarrow> string) \<Rightarrow> string \<Rightarrow> nat \<Rightarrow> json \<Rightarrow> nat" where
  "size_of nl sp d j \<equiv> length (render nl sp d j)"

definition reads :: "(nat \<Rightarrow> string) \<Rightarrow> string \<Rightarrow> json \<Rightarrow> bool" where
  "reads nl sp j \<longleftrightarrow>
     (\<forall>d w rest n. list_all is_ws w \<longrightarrow> num_end rest \<longrightarrow> 2 * size_of nl sp d j \<le> n \<longrightarrow>
        parse_value n (w @ render nl sp d j @ rest) = Some (sane j, rest))"

lemma readsD:
  "reads nl sp j \<Longrightarrow> list_all is_ws w \<Longrightarrow> num_end rest \<Longrightarrow> 2 * size_of nl sp d j \<le> n \<Longrightarrow>
     parse_value n (w @ render nl sp d j @ rest) = Some (sane j, rest)"
  unfolding reads_def by blast

lemma read_elems:
  assumes "all_ws nl sp" and "\<forall>y \<in> set (x # xs). reads nl sp y \<and> numbers_ok y" and "list_all is_ws w"
    and "num_end rest"
    and "2 * (size_of nl sp (Suc d) x + length (render_elems nl sp d xs)) < n"
  shows "parse_elems n (w @ render nl sp (Suc d) x @ render_elems nl sp d xs @ rest) =
           Some (map sane (x # xs), rest)"
  using assms(2,3,5)
proof (induction xs arbitrary: x w n)
  case Nil
  then obtain m where n: "n = Suc m" "2 * size_of nl sp (Suc d) x \<le> m" by (cases n) auto
  have ws: "list_all is_ws (nl d)" using assms(1) by (simp add: all_ws_def)
  have "parse_value m (w @ render nl sp (Suc d) x @ (nl d @ CHR '']'' # rest)) =
      Some (sane x, nl d @ CHR '']'' # rest)"
    using Nil n ws by (intro readsD) (auto intro: num_end_ws)
  then show ?case using ws by (simp add: n(1) skip_ws_append)
next
  case (Cons y ys)
  then obtain m where n: "n = Suc m" by (cases n) auto
  have ws: "list_all is_ws (nl (Suc d))" using assms(1) by (simp add: all_ws_def)
  let ?tail = "nl (Suc d) @ render nl sp (Suc d) y @ render_elems nl sp d ys @ rest"
  have v: "parse_value m (w @ render nl sp (Suc d) x @ (CHR '','' # ?tail)) = Some (sane x, CHR '','' # ?tail)"
    using Cons.prems n by (intro readsD) auto
  have "parse_elems m ?tail = Some (map sane (y # ys), rest)"
    by (rule Cons.IH) (use Cons.prems n ws in auto)
  with v show ?case by (simp add: n)
qed

lemma read_members:
  assumes "all_ws nl sp" and "\<forall>p \<in> set ((k, x) # ms). reads nl sp (snd p) \<and> numbers_ok (snd p)"
    and "list_all is_ws w" and "num_end rest"
    and "2 * (length (enc_string k) + length sp + size_of nl sp (Suc d) x + length (render_members nl sp d ms)) < n"
  shows "parse_members n
           (w @ enc_string k @ CHR '':'' # sp @ render nl sp (Suc d) x @ render_members nl sp d ms @ rest) =
           Some (map (\<lambda>m. (sanitize (fst m), sane (snd m))) ((k, x) # ms), rest)"
  using assms(2,3,5)
proof (induction ms arbitrary: k x w n)
  case Nil
  then obtain m where n: "n = Suc m" "2 * size_of nl sp (Suc d) x \<le> m" by (cases n) auto
  have ws: "list_all is_ws (nl d)" "list_all is_ws sp" using assms(1) by (simp_all add: all_ws_def)
  have "parse_value m (sp @ render nl sp (Suc d) x @ (nl d @ CHR ''}'' # rest)) =
      Some (sane x, nl d @ CHR ''}'' # rest)"
    using Nil n ws by (intro readsD) (auto intro: num_end_ws)
  then show ?case using ws Nil.prems(2) by (simp add: n(1) skip_ws_append enc_string_def)
next
  case (Cons q ms)
  obtain l y where q: "q = (l, y)" by (cases q)
  from Cons.prems obtain m where n: "n = Suc m" by (cases n) auto
  have ws: "list_all is_ws (nl (Suc d))" "list_all is_ws sp" using assms(1) by (simp_all add: all_ws_def)
  let ?tail = "nl (Suc d) @ enc_string l @ CHR '':'' # sp @ render nl sp (Suc d) y @ render_members nl sp d ms @ rest"
  have v: "parse_value m (sp @ render nl sp (Suc d) x @ (CHR '','' # ?tail)) = Some (sane x, CHR '','' # ?tail)"
    using Cons.prems n ws by (intro readsD) auto
  have "parse_members m ?tail = Some (map (\<lambda>m. (sanitize (fst m), sane (snd m))) ((l, y) # ms), rest)"
    by (rule Cons.IH) (use Cons.prems n ws q in auto)
  with v ws Cons.prems(2) show ?case by (simp add: n q skip_ws_append enc_string_def)
qed

lemma render_first:
  assumes "numbers_ok j"
  obtains c r where "render nl sp d j = c # r" "\<not> is_ws c" "c \<noteq> CHR '']''" "c \<noteq> CHR ''}''"
proof (cases j)
  case (JBool b)
  with that show ?thesis by (cases b) auto
next
  case (JNum n)
  with assms obtain c r where "n = c # r" "c = CHR ''-'' \<or> is_digit c" by (auto elim: number_head)
  with JNum number_start [of c] that [of c r] show ?thesis by simp
next
  case (JArr js)
  with that show ?thesis by (cases js) auto
next
  case (JObj ms)
  with that show ?thesis by (cases ms) auto
qed (use that in \<open>auto simp: enc_string_def\<close>)

lemma skip_ws_render:
  assumes "numbers_ok j"
  shows "skip_ws (render nl sp d j @ s) = render nl sp d j @ s"
  using assms by (rule render_first [of j nl sp d]) simp

text \<open>The tokens that stand for themselves.\<close>

lemma reads_token:
  assumes "\<And>d. render nl sp d j = t" and "t \<noteq> []"
    and "\<And>w rest k. list_all is_ws w \<Longrightarrow> num_end rest \<Longrightarrow>
           parse_value (Suc k) (w @ t @ rest) = Some (sane j, rest)"
  shows "reads nl sp j"
  unfolding reads_def
proof (intro allI impI)
  fix d w rest n
  assume h: "list_all is_ws w" "num_end rest" "2 * size_of nl sp d j \<le> n"
  then obtain k where "n = Suc k" using assms(1,2) by (cases n) auto
  with assms(3) [OF h(1,2)] assms(1) show "parse_value n (w @ render nl sp d j @ rest) = Some (sane j, rest)"
    by simp
qed

lemma reads_all:
  assumes "all_ws nl sp"
  shows "numbers_ok j \<Longrightarrow> reads nl sp j"
proof (induction j)
  case JNull
  show ?case by (rule reads_token [where t = "''null''"]) (simp_all add: skip_ws_append lex_word_def)
next
  case (JBool b)
  show ?case
    by (rule reads_token [where t = "if b then ''true'' else ''false''"])
      (simp_all add: skip_ws_append lex_word_def)
next
  case (JNum m)
  then have m: "number m" by simp
  obtain c r where c: "m = c # r" "c = CHR ''-'' \<or> is_digit c" using number_head [OF m] .
  show ?case
    by (rule reads_token [where t = m])
      (use c number_start [OF c(2)] lex_number_append [OF m] in \<open>simp_all add: skip_ws_append\<close>)
next
  case (JStr s)
  show ?case
    by (rule reads_token [where t = "enc_string s"]) (simp_all add: skip_ws_append enc_string_def)
next
  case (JArr js)
  show ?case
  proof (cases js)
    case Nil
    then show ?thesis
      by (intro reads_token [where t = "''[]''"]) (simp_all add: skip_ws_append)
  next
    case (Cons x xs)
    with JArr have all: "\<forall>y \<in> set (x # xs). reads nl sp y \<and> numbers_ok y" by (auto simp: list_all_iff)
    show ?thesis unfolding reads_def
    proof (intro allI impI)
      fix d w rest n
      assume h: "list_all is_ws w" "num_end rest" "2 * size_of nl sp d (JArr js) \<le> n"
      then obtain k where k: "n = Suc k" using Cons by (cases n) auto
      have ws: "list_all is_ws (nl (Suc d))" using assms by (simp add: all_ws_def)
      let ?r = "nl (Suc d) @ render nl sp (Suc d) x @ render_elems nl sp d xs @ rest"
      have "parse_elems k ?r = Some (map sane (x # xs), rest)"
        using h k Cons ws by (intro read_elems [OF assms all]) auto
      moreover have "skip_ws ?r = render nl sp (Suc d) x @ render_elems nl sp d xs @ rest"
        using all ws by (simp add: skip_ws_append skip_ws_render)
      moreover obtain c u where "render nl sp (Suc d) x = c # u" "c \<noteq> CHR '']''"
        using all by (auto intro: render_first [of x nl sp "Suc d"])
      ultimately show "parse_value n (w @ render nl sp d (JArr js) @ rest) = Some (sane (JArr js), rest)"
        using h(1) by (simp add: k Cons skip_ws_append)
    qed
  qed
next
  case (JObj ms)
  show ?case
  proof (cases ms)
    case Nil
    then show ?thesis
      by (intro reads_token [where t = "''{}''"]) (simp_all add: skip_ws_append)
  next
    case (Cons q qs)
    obtain l x where q: "q = (l, x)" by (cases q)
    from JObj Cons q have all: "\<forall>p \<in> set ((l, x) # qs). reads nl sp (snd p) \<and> numbers_ok (snd p)"
      by (force simp: list_all_iff snds.simps)
    show ?thesis unfolding reads_def
    proof (intro allI impI)
      fix d w rest n
      assume h: "list_all is_ws w" "num_end rest" "2 * size_of nl sp d (JObj ms) \<le> n"
      then obtain k where k: "n = Suc k" using Cons q by (cases n) auto
      have ws: "list_all is_ws (nl (Suc d))" using assms by (simp add: all_ws_def)
      let ?r = "nl (Suc d) @ enc_string l @ CHR '':'' # sp @ render nl sp (Suc d) x @ render_members nl sp d qs @ rest"
      have "parse_members k ?r = Some (map (\<lambda>m. (sanitize (fst m), sane (snd m))) ((l, x) # qs), rest)"
        using h k Cons q ws by (intro read_members [OF assms all]) auto
      moreover have "skip_ws ?r = enc_string l @ CHR '':'' # sp @ render nl sp (Suc d) x @ render_members nl sp d qs @ rest"
        using ws by (simp add: skip_ws_append enc_string_def)
      ultimately show "parse_value n (w @ render nl sp d (JObj ms) @ rest) = Some (sane (JObj ms), rest)"
        using h(1) by (simp add: k Cons q skip_ws_append enc_string_def)
    qed
  qed
qed

lemma parse_render:
  assumes "all_ws nl sp" and "numbers_ok j"
  shows "parse_json (render nl sp d j) = Some (sane j)"
proof -
  have "parse_value (2 * length (render nl sp d j) + 2) ([] @ render nl sp d j @ []) = Some (sane j, [])"
    by (rule readsD [OF reads_all [OF assms]]) simp_all
  then show ?thesis by (simp add: parse_json_def skip_ws_def del: parse_value.simps)
qed

section \<open>Compacting and indenting documents\<close>

text \<open>Bytes that \<open>compact\<close> and \<open>Indent\<close> copy outside strings.\<close>

lemma num_char_copied:
  "num_char c \<Longrightarrow> \<not> is_ws c \<and> c \<noteq> DQ \<and> c \<noteq> CHR ''{'' \<and> c \<noteq> CHR ''['' \<and> c \<noteq> CHR ''}'' \<and>
     c \<noteq> CHR '']'' \<and> c \<noteq> CHR '','' \<and> c \<noteq> CHR '':''"
  by (auto simp: num_char_def is_digit_def byte_def is_ws_def)

lemma compact_ws: "list_all is_ws w \<Longrightarrow> compact False (w @ t) = compact False t"
  by (induction w) auto

lemma compact_chars: "list_all num_char w \<Longrightarrow> compact False (w @ t) = w @ compact False t"
  by (induction w) (auto dest: num_char_copied)

lemma print_depth:
  "render (\<lambda>_. []) [] d j = render (\<lambda>_. []) [] d' j"
  "render_elems (\<lambda>_. []) [] d js = render_elems (\<lambda>_. []) [] d' js"
  "render_members (\<lambda>_. []) [] d ms = render_members (\<lambda>_. []) [] d' ms"
  by (induction "\<lambda>_ :: nat. [] :: string" "[] :: string" d j
      and "\<lambda>_ :: nat. [] :: string" "[] :: string" d js
      and "\<lambda>_ :: nat. [] :: string" "[] :: string" d ms
      arbitrary: d' and d' and d' rule: render_render_elems_render_members.induct)
    (simp_all, metis+)

lemma compact_render':
  "all_ws nl sp \<Longrightarrow> numbers_ok j \<Longrightarrow>
     compact False (render nl sp d j @ t) = render (\<lambda>_. []) [] d j @ compact False t"
  "all_ws nl sp \<Longrightarrow> list_all numbers_ok js \<Longrightarrow>
     compact False (render_elems nl sp d js @ t) = render_elems (\<lambda>_. []) [] d js @ compact False t"
  "all_ws nl sp \<Longrightarrow> list_all (\<lambda>m. numbers_ok (snd m)) ms \<Longrightarrow>
     compact False (render_members nl sp d ms @ t) = render_members (\<lambda>_. []) [] d ms @ compact False t"
proof (induction nl sp d j and nl sp d js and nl sp d ms arbitrary: t and t and t
    rule: render_render_elems_render_members.induct)
  case (3 nl sp d n)
  then have "list_all num_char n" by (auto simp: list_all_iff intro: number_chars)
  then show ?case by (simp add: compact_chars)
qed (auto simp: enc_string_def compact_ws all_ws_def is_ws_def)

lemma compact_render:
  "all_ws nl sp \<Longrightarrow> numbers_ok j \<Longrightarrow> compact False (render nl sp d j @ t) = print_json j @ compact False t"
  using compact_render'(1) print_depth(1) by metis

text \<open>\<open>Indent\<close> on printed text, with the pending newline of a bracket just opened.\<close>

lemma indent_chars:
  "list_all num_char w \<Longrightarrow> w \<noteq> [] \<Longrightarrow>
     Indent ind False need d (w @ t) =
       (if need then newline ind (Suc d) else []) @ w @ Indent ind False False (if need then Suc d else d) t"
proof (induction w arbitrary: need d)
  case Nil
  then show ?case by simp
next
  case (Cons c w)
  then show ?case
    using num_char_copied [of c] by (cases "w = []") (auto simp: Let_def)
qed

lemma indent_render':
  "numbers_ok j \<Longrightarrow>
     Indent ind False need d (render (\<lambda>_. []) [] e j @ t) =
       (if need then newline ind (Suc d) else []) @
       render (newline ind) '' '' (if need then Suc d else d) j @
       Indent ind False False (if need then Suc d else d) t"
  "list_all numbers_ok js \<Longrightarrow>
     Indent ind False False (Suc d) (render_elems (\<lambda>_. []) [] e js @ t) =
       render_elems (newline ind) '' '' d js @ Indent ind False False d t"
  "list_all (\<lambda>m. numbers_ok (snd m)) ms \<Longrightarrow>
     Indent ind False False (Suc d) (render_members (\<lambda>_. []) [] e ms @ t) =
       render_members (newline ind) '' '' d ms @ Indent ind False False d t"
proof (induction "\<lambda>_ :: nat. [] :: string" "[] :: string" e j
      and "\<lambda>_ :: nat. [] :: string" "[] :: string" e js
      and "\<lambda>_ :: nat. [] :: string" "[] :: string" e ms
      arbitrary: t need d and t d and t d rule: render_render_elems_render_members.induct)
  case (3 e n)
  then have n: "list_all num_char n" "n \<noteq> []" by (auto simp: list_all_iff intro: number_chars elim: number_head)
  show ?case by (simp add: indent_chars [OF n])
qed (auto simp: enc_string_def is_ws_def Let_def)

lemma indent_render:
  "numbers_ok j \<Longrightarrow> Indent ind False False 0 (print_json j) = render (newline ind) '' '' 0 j"
  using indent_render'(1) [of j ind False 0 0 "[]"] by simp

lemma all_ws_newline: "list_all is_ws ind \<Longrightarrow> all_ws (newline ind) '' ''"
proof -
  assume "list_all is_ws ind"
  then have "list_all is_ws (concat (replicate d ind))" for d by (induction d) simp_all
  then show ?thesis by (simp add: all_ws_def newline_def is_ws_def)
qed

lemma all_ws_none [simp]: "all_ws (\<lambda>_. []) []"
  by (simp add: all_ws_def)

section \<open>What a marshaller returns\<close>

lemma parse_print: "numbers_ok j \<Longrightarrow> parse_json (print_json j) = Some (sane j)"
  by (simp add: parse_render)

lemma marshaler_print: "numbers_ok j \<Longrightarrow> marshaler_bytes (print_json j) = Some (print_json j)"
  using compact_render [of "\<lambda>_. []" "[]" j 0 "[]"] by (simp add: marshaler_bytes_def parse_print)

lemma marshaler_indent:
  assumes "numbers_ok j" and "list_all is_ws ind"
  shows "marshaler_bytes (Indent ind False False 0 (print_json j)) = Some (print_json j)"
  using compact_render [OF all_ws_newline [OF assms(2)] assms(1), of 0 "[]"]
  by (simp add: marshaler_bytes_def indent_render assms(1) parse_render [OF all_ws_newline [OF assms(2)] assms(1)])

end
