(* ===== verification/Response_Json.thy ===== *)
theory Response_Json
  imports Response Json_Facts
begin

text \<open>
  The JSON a response is sent as.  \<open>to_json\<close> says which document a dynamic value stands for;
  the encoder of \<open>Response\<close> prints exactly that document, and the parser reads it back.
\<close>

section \<open>The document of a value\<close>

fun to_json :: "gval \<Rightarrow> json option"
  and to_json_list :: "gval list \<Rightarrow> json list option"
  and to_json_members :: "(string \<times> gval) list \<Rightarrow> (string \<times> json) list option" where
  "to_json VNil = Some JNull"
| "to_json (VBool b) = Some (JBool b)"
| "to_json (VInt i) = Some (JNum (int_dec i))"
| "to_json (VStr s) = Some (JStr s)"
| "to_json (VBytes b) = Some (JStr (b64_encode b))"
| "to_json (VErr e) = err_json e"
| "to_json (VList vs) = map_option JArr (to_json_list vs)"
| "to_json (VMap ms) = map_option (\<lambda>js. JObj (sort_key fst js)) (to_json_members ms)"
| "to_json (VResp st p ms raw) = map_option (\<lambda>js. JObj (sort_key fst js)) (to_json_members ms)"
| "to_json (VExt d) = d"
| "to_json_list [] = Some []"
| "to_json_list (v # vs) =
     (case to_json v of None \<Rightarrow> None | Some j \<Rightarrow> map_option ((#) j) (to_json_list vs))"
| "to_json_members [] = Some []"
| "to_json_members ((k, v) # ms) =
     (case to_json v of None \<Rightarrow> None | Some j \<Rightarrow> map_option ((#) (k, j)) (to_json_members ms))"

text \<open>
  Values without a raw response inside, whose external parts have number literals of the JSON
  grammar.
\<close>

definition doc_ok :: "json option \<Rightarrow> bool" where
  "doc_ok d = (case d of None \<Rightarrow> True | Some j \<Rightarrow> numbers_ok j)"

fun gval_ok :: "gval \<Rightarrow> bool" where
  "gval_ok (VErr e) = doc_ok (err_json e)"
| "gval_ok (VExt d) = doc_ok d"
| "gval_ok (VList vs) = list_all gval_ok vs"
| "gval_ok (VMap ms) = list_all (\<lambda>m. gval_ok (snd m)) ms"
| "gval_ok (VResp st p ms raw) = (raw = None \<and> list_all (\<lambda>m. gval_ok (snd m)) ms)"
| "gval_ok _ = True"

text \<open>
  Values that hold something from outside that \<open>encoding/json\<close> refuses, at any depth: a value or
  an error whose encoding is an error.  They are exactly those that stand for no document.
\<close>

fun unencodable :: "gval \<Rightarrow> bool" where
  "unencodable (VErr e) = (\<exists>m. e = ErrExt m None)"
| "unencodable (VExt d) = (d = None)"
| "unencodable (VList vs) = list_ex unencodable vs"
| "unencodable (VMap ms) = list_ex (\<lambda>m. unencodable (snd m)) ms"
| "unencodable (VResp st p ms raw) = list_ex (\<lambda>m. unencodable (snd m)) ms"
| "unencodable _ = False"

lemma to_json_None:
  "to_json v = None \<longleftrightarrow> unencodable v"
  "to_json_list vs = None \<longleftrightarrow> list_ex unencodable vs"
  "to_json_members ms = None \<longleftrightarrow> list_ex (\<lambda>m. unencodable (snd m)) ms"
proof (induction v and vs and ms rule: to_json_to_json_list_to_json_members.induct)
  case (6 e)
  show ?case by (cases e) auto
qed (auto split: option.splits)

section \<open>Numbers and base64 text\<close>

lemma byte_digit: "n < 10 \<Longrightarrow> byte (char_of (48 + n)) = 48 + n"
  by simp

lemma nat_dec_shape:
  "\<exists>c ds. nat_dec n = c # ds \<and> is_digit c \<and> list_all is_digit ds \<and> (c = CHR ''0'' \<longrightarrow> ds = [])"
proof (induction n rule: nat_dec.induct)
  case (1 n)
  show ?case
  proof (cases "n < 10")
    case True
    then show ?thesis by (subst nat_dec.simps) (simp add: is_digit_def)
  next
    case False
    with 1 obtain c ds where s: "nat_dec (n div 10) = c # ds" "is_digit c" "list_all is_digit ds"
      "c = CHR ''0'' \<longrightarrow> ds = []" by blast
    have "c \<noteq> CHR ''0''"
    proof
      assume c: "c = CHR ''0''"
      with s have "nat_dec (n div 10) = ''0''" by simp
      moreover have "nat_dec m = ''0'' \<Longrightarrow> m = 0" for m
      proof -
        assume h: "nat_dec m = ''0''"
        have "m < 10"
        proof (rule ccontr)
          assume "\<not> m < 10"
          then have "nat_dec m = nat_dec (m div 10) @ [char_of (48 + m mod 10)]"
            by (subst nat_dec.simps) simp
          moreover have "nat_dec (m div 10) \<noteq> []" by (subst nat_dec.simps) simp
          ultimately show False using h by (cases "nat_dec (m div 10)") auto
        qed
        with h have "byte (char_of (48 + m)) = byte (CHR ''0'')" by (simp add: nat_dec.simps [of m])
        with \<open>m < 10\<close> show "m = 0" by (simp add: byte_def [of "CHR ''0''"])
      qed
      ultimately show False using False by fastforce
    qed
    with s False show ?thesis
      by (subst nat_dec.simps) (simp add: is_digit_def)
  qed
qed

lemma lex_int_digits:
  assumes "is_digit c" and "list_all is_digit ds" and "c = CHR ''0'' \<longrightarrow> ds = []"
  shows "lex_int (c # ds) = Some (c # ds, [])"
  using assms by (auto simp: lex_int_def takeWhile_eq_all_conv dropWhile_eq_Nil_conv list_all_iff)

lemma number_int_dec: "number (int_dec i)"
proof -
  have d: "lex_int (nat_dec n) = Some (nat_dec n, []) \<and> hd (nat_dec n) \<noteq> CHR ''-'' \<and> nat_dec n \<noteq> []" for n
  proof -
    obtain c ds where s: "nat_dec n = c # ds" "is_digit c" "list_all is_digit ds" "c = CHR ''0'' \<longrightarrow> ds = []"
      using nat_dec_shape [of n] by blast
    moreover from s(2) have "c \<noteq> CHR ''-''" by (auto simp: is_digit_def byte_def)
    ultimately show ?thesis by (simp add: lex_int_digits)
  qed
  show ?thesis
  proof (cases "i < 0")
    case True
    then show ?thesis using d [of "nat (- i)"]
      by (simp add: number_def int_dec_def lex_number_def lex_minus_def lex_frac_def lex_exp_def)
  next
    case False
    obtain c ds where s: "nat_dec (nat i) = c # ds" using d [of "nat i"] by (cases "nat_dec (nat i)") auto
    with False d [of "nat i"] show ?thesis
      by (simp add: number_def int_dec_def lex_number_def lex_minus_def lex_frac_def lex_exp_def)
  qed
qed

lemma esc_ascii_plain: "plain c \<Longrightarrow> esc_ascii c = [c]"
  by (auto simp: esc_ascii_def plain_def byte_def)

lemma enc_chars_plain: "list_all (\<lambda>c. plain c \<and> byte c < 128) s \<Longrightarrow> enc_chars s = s"
  by (induction s) (simp_all add: esc_ascii_plain)

lemma enc_b64: "enc_string (b64_encode b) = DQ # b64_encode b @ [DQ]"
proof -
  have "plain c \<and> byte c < 128" if "b64_alphabet c" for c
    using that
    by (auto simp: b64_alphabet_def plain_def html_char_def b64_val_def Let_def byte_def [of "CHR ''=''"]
        split: if_splits)
  then have "enc_chars (b64_encode b) = b64_encode b"
    using b64_encode_alphabet by (intro enc_chars_plain) (auto simp: list_all_iff)
  then show ?thesis by (simp add: enc_string_def)
qed

section \<open>The encoder prints the document\<close>

lemma join_with_Cons: "join_with c (x # xs) = x @ concat (map (\<lambda>y. c # y) xs)"
  by (induction xs arbitrary: x) simp_all

lemma render_elems_print:
  "render_elems (\<lambda>_. []) [] d xs = concat (map (\<lambda>x. CHR '','' # print_json x) xs) @ '']''"
proof (induction xs)
  case (Cons x xs)
  then show ?case using print_depth(1) [of "Suc d" x 0] by simp
qed simp

lemma print_arr: "print_json (JArr xs) = arr_text (map print_json xs)"
proof (cases xs)
  case (Cons x ys)
  then show ?thesis using print_depth(1) [of "Suc 0" x 0]
    by (simp add: arr_text_def join_with_Cons render_elems_print o_def del: join_with.simps)
qed (simp add: arr_text_def)

lemma render_members_print:
  "render_members (\<lambda>_. []) [] d ms =
     concat (map (\<lambda>m. CHR '','' # enc_string (fst m) @ CHR '':'' # print_json (snd m)) ms) @ ''}''"
proof (induction ms)
  case (Cons m ms)
  then show ?case using print_depth(1) [of "Suc d" "snd m" 0] by (cases m) simp
qed simp

lemma print_obj: "print_json (JObj ms) = obj_text (map (\<lambda>m. (fst m, print_json (snd m))) ms)"
proof (cases ms)
  case (Cons m ns)
  then show ?thesis using print_depth(1) [of "Suc 0" "snd m" 0]
    by (cases m)
      (simp add: obj_text_def join_with_Cons render_members_print o_def case_prod_unfold del: join_with.simps)
qed (simp add: obj_text_def)

lemma insort_key_map_snd:
  "insort_key fst (k, f v) (map (\<lambda>m. (fst m, f (snd m))) ms) =
     map (\<lambda>m. (fst m, f (snd m))) (insort_key fst (k, v) ms)"
  by (induction ms) auto

lemma sort_key_map_snd:
  "sort_key fst (map (\<lambda>m. (fst m, f (snd m))) ms) = map (\<lambda>m. (fst m, f (snd m))) (sort_key fst ms)"
  by (induction ms) (simp_all add: insort_key_map_snd)

lemma sorted_numbers:
  "list_all (\<lambda>m. numbers_ok (snd m)) (sort_key fst ms) = list_all (\<lambda>m. numbers_ok (snd m)) ms"
  by (simp add: list_all_iff)

text \<open>The text of the members, sorted, is the printed object.\<close>

lemma sorted_members_text:
  "obj_text (sort_key fst (map (\<lambda>m. (fst m, print_json (snd m))) js)) = print_json (JObj (sort_key fst js))"
  by (simp add: print_obj sort_key_map_snd)

lemma marshal_prints:
  "gval_ok v \<Longrightarrow>
     marshal v = map_option print_json (to_json v) \<and> (\<forall>j. to_json v = Some j \<longrightarrow> numbers_ok j)"
  "list_all gval_ok vs \<Longrightarrow>
     marshal_elems vs = map_option (map print_json) (to_json_list vs) \<and>
     (\<forall>js. to_json_list vs = Some js \<longrightarrow> list_all numbers_ok js)"
  "list_all (\<lambda>m. gval_ok (snd m)) ms \<Longrightarrow>
     marshal_members ms = map_option (map (\<lambda>m. (fst m, print_json (snd m)))) (to_json_members ms) \<and>
     (\<forall>js. to_json_members ms = Some js \<longrightarrow> list_all (\<lambda>m. numbers_ok (snd m)) js)"
proof (induction v and vs and ms rule: to_json_to_json_list_to_json_members.induct)
  case (3 i)
  show ?case by (simp add: number_int_dec)
next
  case (5 b)
  show ?case by (simp add: enc_b64)
next
  case (6 e)
  then show ?case by (auto simp: doc_ok_def)
next
  case (7 vs)
  then show ?case by (auto simp: print_arr option.map_comp o_def)
next
  case (8 ms)
  then have ih: "marshal_members ms = map_option (map (\<lambda>m. (fst m, print_json (snd m)))) (to_json_members ms)"
    and ok: "\<And>js. to_json_members ms = Some js \<Longrightarrow> list_all (\<lambda>m. numbers_ok (snd m)) js" by auto
  show ?case
    by (auto simp: ih option.map_comp o_def sorted_members_text sorted_numbers dest!: ok)
next
  case (9 st p ms raw)
  then have ih: "marshal_members ms = map_option (map (\<lambda>m. (fst m, print_json (snd m)))) (to_json_members ms)"
    and ok: "\<And>js. to_json_members ms = Some js \<Longrightarrow> list_all (\<lambda>m. numbers_ok (snd m)) js"
    and raw: "raw = None" by auto
  show ?case
  proof (cases "to_json_members ms")
    case None
    then show ?thesis by (simp add: ih raw)
  next
    case (Some js)
    let ?j = "JObj (sort_key fst js)"
    have n: "numbers_ok ?j" using ok [OF Some] by (simp add: sorted_numbers)
    have "list_all is_ws four_spaces" by (simp add: is_ws_def)
    from marshaler_indent [OF n this] marshaler_print [OF n] Some n
    show ?thesis by (simp add: ih raw Let_def sorted_members_text)
  qed
next
  case (10 d)
  then show ?case by (auto simp: doc_ok_def)
next
  case (12 v vs)
  then show ?case by (auto simp: option.map_comp o_def split: option.splits)
next
  case (14 k v ms)
  then show ?case by (auto simp: option.map_comp o_def split: option.splits)
qed simp_all

section \<open>What is written to the client\<close>

definition response_ok :: "response \<Rightarrow> bool" where
  "response_ok r \<longleftrightarrow> rs_raw r = None \<and> list_all (\<lambda>m. gval_ok (snd m)) (rs_data r)"

definition response_json :: "response \<Rightarrow> json option" where
  "response_json r = map_option (\<lambda>js. JObj (sort_key fst js)) (to_json_members (rs_data r))"

lemma marshal_response_prints:
  assumes "response_ok r"
  shows "marshal_response r = map_option print_json (response_json r)"
    and "response_json r = Some j \<Longrightarrow> numbers_ok j"
proof -
  from assms have ok: "gval_ok (embed r)" by (simp add: response_ok_def embed_def)
  have j: "response_json r = to_json (embed r)" by (simp add: response_json_def embed_def)
  from marshal_prints(1) [OF ok] show "marshal_response r = map_option print_json (response_json r)"
    by (simp add: j marshal_embed)
  from marshal_prints(1) [OF ok] show "response_json r = Some j \<Longrightarrow> numbers_ok j" by (simp add: j)
qed

lemma Write_body:
  "rs_raw r = None \<Longrightarrow>
     wr_body (snd (Write r fresh_writer)) = (case marshal_response r of None \<Rightarrow> [] | Some b \<Rightarrow> b)"
  by (simp add: Write_def write_body_def add_header_def fresh_writer_def WriteHeader_def Let_def
      split: option.splits)

lemma response_json_None: "response_json r = None \<longleftrightarrow> list_ex (\<lambda>m. unencodable (snd m)) (rs_data r)"
  by (simp add: response_json_def to_json_None)


lemma not_found_json:
  "response_json (NewResponse 404) =
     Some (JObj [(''message'', JStr ''Not Found''), (''status'', JNum ''404'')])"
proof -
  have "rs_data (NewResponse 404) = [(''status'', VInt 404), (''message'', VStr ''Not Found'')]"
    by (simp add: NewResponse_def Status_def AddValue_def Let_def)
  moreover have "int_dec 404 = ''404''" by code_simp
  moreover have "sort_key fst [(''status'', JNum ''404''), (''message'', JStr ''Not Found'')] =
      [(''message'', JStr ''Not Found''), (''status'', JNum ''404'')]" by code_simp
  ultimately show ?thesis by (simp add: response_json_def)
qed


text \<open>
  The message of an error the program makes itself never reaches the client: responses that
  differ only in the text of such an error are written alike, the error being shown as an empty
  object.
\<close>

theorem own_errors_hidden:
  "Write (Error (VErr (ErrNew m1)) r) w = Write (Error (VErr (ErrNew m2)) r) w"
proof -
  have upd: "marshal_members (AList.update k (VErr (ErrNew m1)) ms) =
      marshal_members (AList.update k (VErr (ErrNew m2)) ms)" for k ms
  proof (induction ms)
    case Nil
    then show ?case by simp
  next
    case (Cons m ms)
    then show ?case by (cases m; cases "marshal (snd m)") simp_all
  qed
  let ?r1 = "Error (VErr (ErrNew m1)) r" and ?r2 = "Error (VErr (ErrNew m2)) r"
  have members: "marshal_members (rs_data ?r1) = marshal_members (rs_data ?r2)"
    by (simp add: Error_def AddValue_def upd)
  have "rs_pretty ?r1 = rs_pretty ?r2" and "rs_raw ?r1 = rs_raw ?r2"
    and "rs_status ?r1 = rs_status ?r2"
    by (simp_all add: Error_def AddValue_def)
  moreover from members this have "marshal_response ?r1 = marshal_response ?r2"
    by (simp add: marshal_embed [symmetric] embed_def cong: option.case_cong)
  ultimately show ?thesis by (simp add: Write_def Let_def cong: option.case_cong)
qed

lemma marshal_elems_None: "v \<in> set vs \<Longrightarrow> marshal v = None \<Longrightarrow> marshal_elems vs = None"
  by (induction vs) (auto split: option.splits)

lemma marshal_members_None: "(k, v) \<in> set ms \<Longrightarrow> marshal v = None \<Longrightarrow> marshal_members ms = None"
  by (induction ms) (auto split: option.splits)

text \<open>
  C39: A raw response inside another one, as a multi task with a raw filesystem task makes it,
  is encoded as bare base64 text.  When that is not a JSON document by chance, the encoder
  gives up after the status has been sent, and the client gets an empty body.
\<close>

theorem raw_inside_empties_body:
  assumes "rs_raw x = Some b" and "parse_json (b64_encode b) = None"
    and "x \<in> set results" and "rs_raw r = None"
  shows "wr_body (snd (Write (Result (VList (map embed results)) r) fresh_writer)) = [] \<and>
         wr_status (snd (Write (Result (VList (map embed results)) r) fresh_writer)) = Some (rs_status r)"
proof -
  have "marshal (embed x) = None" using assms(1,2) by (simp add: embed_def marshaler_bytes_def)
  then have "marshal_elems (map embed results) = None" using assms(3) by (intro marshal_elems_None) auto
  then have v: "marshal (VList (map embed results)) = None" by simp
  let ?r = "Result (VList (map embed results)) r"
  have "(''result'', VList (map embed results)) \<in> set (rs_data ?r)"
    by (simp add: Result_def AddValue_def update_conv' map_of_SomeD)
  from marshal_members_None [OF this v] have "marshal_members (rs_data ?r) = None" .
  moreover have "rs_raw ?r = None" using assms(4) by (simp add: Result_def AddValue_def)
  ultimately have "marshal_response ?r = None"
    by (simp add: marshal_embed [symmetric] embed_def)
  with \<open>rs_raw ?r = None\<close> show ?thesis
    by (simp add: Write_def fresh_writer_def WriteHeader_def add_header_def Let_def) (simp add: Result_def AddValue_def)
qed

theorem raw_inside_empties_body_witness:
  "wr_body (snd (Write (Result (VList (map embed [Raw (RawString ''hello'') (NewResponse 200)])) (NewResponse 200))
     fresh_writer)) = []"
proof -
  let ?x = "Raw (RawString ''hello'') (NewResponse 200)"
  have "parse_json (b64_encode ''hello'') = None" by code_simp
  moreover have "rs_raw ?x = Some ''hello''" by simp
  moreover have "rs_raw (NewResponse 200) = None"
    by (simp add: NewResponse_def Status_def AddValue_def Let_def)
  ultimately show ?thesis using raw_inside_empties_body [of ?x "''hello''" "[?x]" "NewResponse 200"] by simp
qed

end
