(* ===== verification/Task_Items.thy ===== *)
theory Task_Items
  imports Tasks Response_Json
begin

text \<open>
  The typing of values and responses: everything in a typed response is a value the encoder
  prints as one JSON document.  Every operation of the builder keeps it, and so does every item
  of every task, in an environment whose own values are typed.
\<close>

named_theorems typed \<open>introduction rules of the typing of values and responses\<close>

section \<open>Typed values and responses\<close>

definition err_ok :: "go_error \<Rightarrow> bool" where
  "err_ok e = doc_ok (err_json e)"

lemma err_ok_New [simp]: "err_ok (ErrNew m)" "err_ok (ErrRuntime m)"
  by (simp_all add: err_ok_def doc_ok_def)

lemma gval_ok_VErr [simp]: "gval_ok (VErr e) = err_ok e"
  by (simp add: err_ok_def)

declare gval_ok.simps(1) [simp del]

lemma err_ok_decode [simp]: "err_ok syntax_error" "err_ok type_error"
  by (simp_all add: err_ok_def doc_ok_def number_def lex_number_def lex_minus_def lex_int_def
      lex_frac_def lex_exp_def is_digit_def)

abbreviation data_ok :: "response \<Rightarrow> bool" where
  "data_ok r \<equiv> list_all (\<lambda>m. gval_ok (snd m)) (rs_data r)"

lemma response_ok_iff: "response_ok r \<longleftrightarrow> rs_raw r = None \<and> data_ok r"
  by (simp add: response_ok_def)

lemma list_all_alist_update: "P (k, v) \<Longrightarrow> list_all P m \<Longrightarrow> list_all P (AList.update k v m)"
  by (induction m) auto

lemma list_all_alist_delete: "list_all P m \<Longrightarrow> list_all P (AList.delete k m)"
  by (auto simp: list_all_iff AList.delete_eq)

lemma data_ok_AddValue [typed]: "gval_ok v \<Longrightarrow> data_ok r \<Longrightarrow> data_ok (AddValue k v r)"
  by (simp add: AddValue_def list_all_alist_update)

lemma data_ok_Result [typed]: "gval_ok v \<Longrightarrow> data_ok r \<Longrightarrow> data_ok (Result v r)"
  by (simp add: Result_def data_ok_AddValue)

lemma data_ok_Error [typed]: "gval_ok v \<Longrightarrow> data_ok r \<Longrightarrow> data_ok (Error v r)"
  by (simp add: Error_def data_ok_AddValue)

lemma data_ok_Status [typed]: "data_ok r \<Longrightarrow> data_ok (Status n r)"
  by (simp add: Status_def Let_def data_ok_AddValue)

lemma data_ok_Strip [typed]: "data_ok r \<Longrightarrow> data_ok (StripStatusData r)"
  by (auto simp: StripStatusData_def Let_def list_all_alist_delete split: option.splits)

lemma data_ok_NewResponse [typed]: "data_ok (NewResponse n)"
  unfolding NewResponse_def by (rule data_ok_Status) simp

lemma data_ok_item_response [typed]: "data_ok item_response"
  by simp

lemma gval_ok_embed: "gval_ok (embed r) \<longleftrightarrow> response_ok r"
  by (simp add: embed_def response_ok_iff)

lemma gval_ok_embeds: "list_all response_ok rs \<Longrightarrow> gval_ok (VList (map embed rs))"
  by (simp add: list_all_iff gval_ok_embed)

lemma gval_ok_string_list [simp]: "gval_ok (string_list ss)"
  by (simp add: string_list_def list_all_iff)

lemma gval_ok_header_map [simp]: "gval_ok (header_map m)"
  by (auto simp: header_map_def list_all_iff)

lemma gval_ok_string_map [simp]: "gval_ok (string_map m)"
  by (auto simp: string_map_def list_all_iff)

definition row_ok :: "row \<Rightarrow> bool" where
  "row_ok row = list_all (\<lambda>m. gval_ok (snd m)) row"

lemma gval_ok_row_list [simp]: "gval_ok (row_list rows) = list_all row_ok rows"
  by (simp add: row_list_def list_all_iff row_ok_def)

section \<open>The environment\<close>

text \<open>
  What the typing relies on: the documents \<open>encoding/json\<close> makes of the errors, rows, replies
  and floating point numbers that come from outside contain only number literals of the JSON
  grammar, which is what \<open>encoding/json\<close> documents for every value it accepts.
\<close>

definition res_ok :: "('a \<Rightarrow> bool) \<Rightarrow> 'a result \<Rightarrow> bool" where
  "res_ok P x = (case x of Inl e \<Rightarrow> err_ok e | Inr v \<Rightarrow> P v)"

lemma res_ok_simps [simp]: "res_ok P (Inl e) = err_ok e" "res_ok P (Inr v) = P v"
  by (simp_all add: res_ok_def)

definition opt_ok :: "go_error option \<Rightarrow> bool" where
  "opt_ok x = (case x of None \<Rightarrow> True | Some e \<Rightarrow> err_ok e)"

lemma opt_ok_simps [simp]: "opt_ok None" "opt_ok (Some e) = err_ok e"
  by (simp_all add: opt_ok_def)

definition float_ok :: "(string \<Rightarrow> string option) \<Rightarrow> bool" where
  "float_ok ft \<longleftrightarrow> (\<forall>l t. ft l = Some t \<longrightarrow> number t)"

definition render_typed :: "('t, 'w) sys \<Rightarrow> bool" where
  "render_typed S \<longleftrightarrow>
     (\<forall>s. res_ok (\<lambda>_. True) (tpl_parse S s)) \<and>
     (\<forall>t d. res_ok (\<lambda>_. True) (tpl_exec S t d)) \<and>
     float_ok (float_text S)"

definition calls_typed :: "('t, 'w) sys \<Rightarrow> bool" where
  "calls_typed S \<longleftrightarrow>
     (\<forall>m u. opt_ok (new_request S m u)) \<and>
     (\<forall>c q w. res_ok (\<lambda>p. res_ok (\<lambda>_. True) (hp_body p)) (fst (fst (http_do S c q w)))) \<and>
     (\<forall>s f d env w. res_ok (\<lambda>_. True) (fst (exec_output S s f d env w)))"

definition stores_typed :: "('t, 'w) sys \<Rightarrow> bool" where
  "stores_typed S \<longleftrightarrow>
     (\<forall>d u w. res_ok (\<lambda>_. True) (fst (sql_connect S d u w))) \<and>
     (\<forall>d u w. res_ok (\<lambda>_. True) (fst (sql_open S d u w))) \<and>
     (\<forall>db q args w. res_ok (\<lambda>(rows, e). list_all row_ok rows \<and> opt_ok e) (fst (sql_queryx S db q args w))) \<and>
     (\<forall>n a w. res_ok (\<lambda>_. True) (fst (redis_dial S n a w))) \<and>
     (\<forall>c q args w. res_ok (\<lambda>_. True) (fst (redis_do S c q args w))) \<and>
     (\<forall>t reply. res_ok gval_ok (redis_convert S t reply)) \<and>
     (\<forall>hs k w. res_ok (\<lambda>_. True) (fst (cql_session S hs k w))) \<and>
     (\<forall>s q args w. res_ok (list_all row_ok) (fst (cql_slice_map S s q args w)))"

definition files_typed :: "('t, 'w) sys \<Rightarrow> bool" where
  "files_typed S \<longleftrightarrow>
     (\<forall>p w. res_ok (\<lambda>_. True) (fs_read_dir S p w)) \<and>
     (\<forall>p w. res_ok (\<lambda>_. True) (fs_read_file S p w))"

definition sys_typed :: "('t, 'w) sys \<Rightarrow> bool" where
  "sys_typed S \<longleftrightarrow> render_typed S \<and> calls_typed S \<and> stores_typed S \<and> files_typed S"

lemma sys_typedD:
  assumes "sys_typed S"
  shows "render_typed S" and "calls_typed S" and "stores_typed S" and "files_typed S"
  using assms by (simp_all add: sys_typed_def)

lemma res_ok_Inl: "res_ok P x \<Longrightarrow> x = Inl e \<Longrightarrow> err_ok e"
  by simp

lemma res_ok_Inr: "res_ok P x \<Longrightarrow> x = Inr v \<Longrightarrow> P v"
  by simp

lemma Interpolate_ok: "render_typed S \<Longrightarrow> Interpolate S s d = Inl e \<Longrightarrow> err_ok e"
  unfolding render_typed_def Interpolate_def RenderTemplate_def
  by (cases "tpl_parse S s") (metis res_ok_simps(1) old.sum.simps(5,6))+

lemma args_ok:
  "render_typed S \<Longrightarrow> mapM_result (\<lambda>arg. Interpolate S arg d) args = Inl e \<Longrightarrow> err_ok e"
  using mapM_result_Inl Interpolate_ok by fastforce

section \<open>Formats\<close>

lemma number_elems: "list_all numbers_ok js \<Longrightarrow> numbers_ok (JArr js)"
  by simp

lemma go_map_ok: "list_all (\<lambda>m. numbers_ok (snd m)) ms \<Longrightarrow> numbers_ok (JObj (go_map ms))"
proof -
  have "list_all (\<lambda>m. numbers_ok (snd m)) ms \<Longrightarrow> list_all (\<lambda>m. numbers_ok (snd m)) acc \<Longrightarrow>
      list_all (\<lambda>m. numbers_ok (snd m)) (foldl (\<lambda>m (k, v). AList.update k v m) acc ms)" for acc
    by (induction ms arbitrary: acc) (auto simp: list_all_alist_update)
  then show "list_all (\<lambda>m. numbers_ok (snd m)) ms \<Longrightarrow> numbers_ok (JObj (go_map ms))"
    by (simp add: go_map_def sorted_numbers)
qed

lemma decode_iface_ok:
  assumes "float_ok ft"
  shows "decode_iface ft j = Some v \<Longrightarrow> numbers_ok v"
    and "decode_elems ft js = Some vs \<Longrightarrow> list_all numbers_ok vs"
    and "decode_members ft ms = Some ns \<Longrightarrow> list_all (\<lambda>m. numbers_ok (snd m)) ns"
  using assms
proof (induction ft j and ft js and ft ms arbitrary: v and vs and ns
    rule: decode_iface_decode_elems_decode_members.induct)
  case (6 ft ms)
  then show ?case using go_map_ok by (auto simp del: numbers_ok.simps)
qed (auto simp: float_ok_def split: option.splits)

lemma unmarshal_map_ok:
  assumes "float_ok ft"
  shows "res_ok gval_ok (unmarshal_map ft body)"
proof (cases "parse_json body")
  case (Some j)
  show ?thesis
  proof (cases j)
    case (JObj ms)
    with Some show ?thesis using decode_iface_ok(1) [OF assms, where j = j]
      by (cases "decode_iface ft j") (simp_all add: unmarshal_map_def doc_ok_def del: decode_iface.simps)
  qed (use Some in \<open>simp_all add: unmarshal_map_def doc_ok_def\<close>)
qed (simp add: unmarshal_map_def)

lemma format_fun_ok:
  assumes "float_ok ft" and "map_of (format_table ft) p = Some fn"
  shows "res_ok gval_ok (fn body)"
proof -
  have "res_ok gval_ok (FormatJSONLines ft body)"
  proof (cases "mapM_result (unmarshal_map ft) (split_on (CHR 0x0A) body)")
    case (Inl e)
    then obtain l where "unmarshal_map ft l = Inl e" using mapM_result_Inl [OF Inl] by blast
    with unmarshal_map_ok [OF assms(1), where body = l] Inl show ?thesis
      by (simp add: FormatJSONLines_def)
  next
    case (Inr vs)
    have "gval_ok v" if v: "v \<in> set vs" for v
    proof -
      from mapM_result_set [OF Inr v] obtain l where "unmarshal_map ft l = Inr v" by blast
      with unmarshal_map_ok [OF assms(1), where body = l] show ?thesis by simp
    qed
    with Inr show ?thesis by (simp add: FormatJSONLines_def list_all_iff)
  qed
  moreover have "res_ok gval_ok (FormatJSON ft body)"
    using unmarshal_map_ok [OF assms(1), where body = body] by (simp add: FormatJSON_def)
  moreover have "res_ok gval_ok (FormatLines body)" "res_ok gval_ok (FormatText body)"
    by (auto simp: FormatLines_def FormatText_def list_all_iff)
  ultimately show ?thesis using assms(2)
    by (auto simp: format_table_lookup format_registrations_def split: if_splits)
qed

lemma format_loop_ok:
  assumes "float_ok ft"
  shows "gval_ok r0 \<Longrightarrow> opt_ok e0 \<Longrightarrow>
     format_loop (format_table ft) body parts r0 f0 e0 = (v, f, err) \<Longrightarrow> gval_ok v \<and> opt_ok err"
proof (induction parts arbitrary: r0 f0 e0)
  case Nil
  then show ?case by simp
next
  case (Cons p parts)
  show ?case
  proof (cases "map_of (format_table ft) p")
    case None
    with Cons.prems show ?thesis by (auto simp: unknown_format_def)
  next
    case (Some fn)
    note fn = format_fun_ok [OF assms Some, where body = body]
    show ?thesis
    proof (cases "fn body")
      case (Inl e)
      with Cons.prems Some fn show ?thesis by (intro Cons.IH [of VNil "Some e" p]) simp_all
    next
      case (Inr u)
      with Cons.prems Some fn show ?thesis by auto
    qed
  qed
qed

lemma Format_ok:
  assumes "render_typed S" and "Format (format_table (float_text S)) body f = (v, p, err)"
  shows "gval_ok v" and "opt_ok err"
  using format_loop_ok [of "float_text S" VNil None body "split_on bar f" "[]" v p err] assms
  by (simp_all add: Format_def render_typed_def)

section \<open>What a call may answer\<close>

lemma call_error:
  assumes "calls_typed S"
  shows "new_request S m u = Some e \<Longrightarrow> err_ok e"
    and "http_do S c q w = ((Inl e, l), w1) \<Longrightarrow> err_ok e"
    and "http_do S c q w = ((Inr p, l), w1) \<Longrightarrow> hp_body p = Inl e \<Longrightarrow> err_ok e"
    and "exec_output S s f d env w = (Inl e, w1) \<Longrightarrow> err_ok e"
  using assms unfolding calls_typed_def by (metis fst_conv res_ok_simps opt_ok_simps(2))+

lemma store_error:
  assumes "stores_typed S"
  shows "sql_connect S d u w = (Inl e, w1) \<Longrightarrow> err_ok e"
    and "sql_open S d u w = (Inl e, w1) \<Longrightarrow> err_ok e"
    and "sql_queryx S db q args w = (Inl e, w1) \<Longrightarrow> err_ok e"
    and "redis_dial S n a w = (Inl e, w1) \<Longrightarrow> err_ok e"
    and "redis_do S db q args w = (Inl e, w1) \<Longrightarrow> err_ok e"
    and "redis_convert S t reply = Inl e \<Longrightarrow> err_ok e"
    and "cql_session S hs k w = (Inl e, w1) \<Longrightarrow> err_ok e"
    and "cql_slice_map S db q args w = (Inl e, w1) \<Longrightarrow> err_ok e"
  using assms unfolding stores_typed_def by (metis fst_conv res_ok_simps(1))+

lemma store_value:
  assumes "stores_typed S"
  shows "redis_convert S t reply = Inr v \<Longrightarrow> gval_ok v"
    and "cql_slice_map S db q args w = (Inr rows, w1) \<Longrightarrow> list_all row_ok rows"
  using assms unfolding stores_typed_def by (metis fst_conv res_ok_simps(2))+

lemma store_scan:
  assumes "stores_typed S" and "sql_queryx S db q args w = (Inr (rows, e), w1)"
  shows "list_all row_ok rows \<and> opt_ok e"
proof -
  from assms(1) have "res_ok (\<lambda>(rows, e). list_all row_ok rows \<and> opt_ok e) (fst (sql_queryx S db q args w))"
    unfolding stores_typed_def by blast
  with assms(2) show ?thesis by simp
qed

lemma file_error:
  assumes "files_typed S"
  shows "fs_read_dir S p w = Inl e \<Longrightarrow> err_ok e" and "fs_read_file S p w = Inl e \<Longrightarrow> err_ok e"
  using assms unfolding files_typed_def by (metis res_ok_simps(1))+

section \<open>The items of the tasks\<close>

declare typed [simp]

lemma run_command_ok:
  assumes "render_typed S" and "calls_typed S"
  shows "response_ok (fst (run_command S c data cmd w))"
  by (auto simp: run_command_def response_ok_iff Let_def Format_ok(1) [OF assms(1)]
      dest!: Interpolate_ok [OF assms(1)] call_error(4) [OF assms(2)] Format_ok(2) [OF assms(1)]
      split: sum.splits prod.splits option.splits)

lemma upstream_response_ok:
  "render_typed S \<Longrightarrow> response_ok (upstream_response S url resp body)"
  by (auto simp: upstream_response_def response_ok_iff Let_def dest: Format_ok
      split: prod.splits option.splits)

lemma run_url_ok:
  assumes "render_typed S" and "calls_typed S"
  shows "response_ok (fst (run_url S r data url st))"
proof -
  note [simp] = upstream_response_ok [OF assms(1)] response_ok_iff [of "Error _ _"]
  show ?thesis
    unfolding run_url_def Let_def
    by (auto split: sum.split prod.split option.split split del: if_split
        dest!: Interpolate_ok [OF assms(1)] call_error(1-3) [OF assms(2)])
qed

lemma run_pg_query_ok:
  assumes "render_typed S" and "stores_typed S"
  shows "response_ok (fst (run_pg_query S c data q w))"
  by (auto simp: run_pg_query_def pq_failed_def response_ok_iff Let_def
      dest!: Interpolate_ok [OF assms(1)] args_ok [OF assms(1)] store_error(1-3) [OF assms(2)]
        store_scan [OF assms(2)]
      split: sum.splits prod.splits option.splits)

lemma run_mysql_query_ok:
  assumes "render_typed S" and "stores_typed S"
  shows "response_ok (fst (run_mysql_query S c data q w))"
  by (auto simp: run_mysql_query_def add_number_def response_ok_iff Let_def
      dest!: Interpolate_ok [OF assms(1)] args_ok [OF assms(1)] store_error(2,3) [OF assms(2)]
        store_scan [OF assms(2)]
      split: sum.splits prod.splits option.splits)

lemma GetReply_ok:
  assumes "stores_typed S"
  shows "GetReply S reply q = Inl e \<Longrightarrow> err_ok e" and "GetReply S reply q = Inr v \<Longrightarrow> gval_ok v"
  using store_error(6) [OF assms] store_value(1) [OF assms]
  by (auto simp: GetReply_def unknown_redis_type_def split: if_splits)

lemma run_redis_query_ok:
  assumes "render_typed S" and "stores_typed S"
  shows "response_ok (fst (run_redis_query S c data conn q w))"
  by (auto simp: run_redis_query_def response_ok_iff Let_def
      dest!: args_ok [OF assms(1)] store_error(5) [OF assms(2)] GetReply_ok [OF assms(2)]
      split: sum.splits prod.splits)

lemma run_cassandra_query_ok:
  assumes "render_typed S" and "stores_typed S"
  shows "response_ok (fst (run_cassandra_query S c data q w))"
  by (auto simp: run_cassandra_query_def response_ok_iff Let_def
      dest!: Interpolate_ok [OF assms(1)] args_ok [OF assms(1)] store_error(7,8) [OF assms(2)]
        store_value(2) [OF assms(2)]
      split: sum.splits prod.splits)

end
