(* ===== verification/Task_Types.thy ===== *)
theory Task_Types
  imports Task_Items
begin

text \<open>
  The typing of whole tasks: which keys a task's response has, that its status data agree with
  the status it carries, and that its values are typed.
\<close>

section \<open>The envelope of a reply\<close>

definition reply_keys :: "string list" where
  "reply_keys = [''error'', ''filename'', ''message'', ''params'', ''result'', ''status'']"

text \<open>
  A typed top-level response: its keys are distinct and among the known ones, its status data
  agree with the status it carries, and its values are printable.
\<close>

definition envelope :: "response \<Rightarrow> bool" where
  "envelope r \<longleftrightarrow> wf_response r \<and> dom (value_of r) \<subseteq> set reply_keys \<and>
     value_of r ''status'' = Some (VInt (rs_status r)) \<and>
     value_of r ''message'' = Some (VStr (StatusText (rs_status r))) \<and> data_ok r"

lemma envelope_AddValue:
  "envelope r \<Longrightarrow> gval_ok v \<Longrightarrow> k \<in> set reply_keys - {''status'', ''message''} \<Longrightarrow> envelope (AddValue k v r)"
  by (auto simp: envelope_def intro: rv.inv_put)

lemma wf_response_Status: "wf_response r \<Longrightarrow> wf_response (Status n r)"
  unfolding Status_def Let_def
  by (intro rv.inv_put) (simp add: wf_response_def)

lemma envelope_Status [simp]: "envelope r \<Longrightarrow> envelope (Status n r)"
  by (auto simp: envelope_def reply_keys_def wf_response_Status split: if_splits)

lemma envelope_New [simp]: "envelope (NewResponse n)"
proof -
  have "wf_response (NewResponse n)"
    unfolding NewResponse_def by (rule wf_response_Status) (simp add: wf_response_def)
  then show ?thesis by (auto simp: envelope_def reply_keys_def split: if_splits)
qed

lemma envelope_more [simp]:
  "envelope r \<Longrightarrow> gval_ok v \<Longrightarrow> envelope (Result v r)"
  "envelope r \<Longrightarrow> gval_ok v \<Longrightarrow> envelope (Error v r)"
  "envelope r \<Longrightarrow> gval_ok v \<Longrightarrow> envelope (AddValue ''filename'' v r)"
  "envelope r \<Longrightarrow> gval_ok v \<Longrightarrow> envelope (AddValue ''params'' v r)"
  unfolding Result_def Error_def by (rule envelope_AddValue, assumption+, simp add: reply_keys_def)+

lemma envelope_Pretty [simp]: "envelope (Pretty p r) = envelope r"
  by (simp add: envelope_def Pretty_def wf_response_def value_of_def [abs_def])

lemma envelope_raw [simp]: "envelope (r\<lparr>rs_raw := b\<rparr>) = envelope r"
  by (simp add: envelope_def wf_response_def value_of_def [abs_def])

lemma select_result_ok:
  assumes "select_result i results r = Returns r'" and "list_all response_ok results" and "envelope r"
  shows "envelope r' \<and> rs_raw r' = rs_raw r"
proof (cases "i = -1")
  case True
  with assms show ?thesis using gval_ok_embeds [OF assms(2)] by (auto simp: select_result_def)
next
  case False
  with assms(1) obtain x where x: "go_index results i = Returns x" "r' = Result (embed x) r"
    by (auto simp: select_result_def bind_outcome_Returns_iff)
  then have "x \<in> set results" by (auto simp: go_index_def split: if_splits)
  with assms(2) have "response_ok x" by (simp add: list_all_iff)
  with x(2) assms(3) show ?thesis by (simp add: gval_ok_embed)
qed

section \<open>Every task is typed\<close>

definition is_files :: "task \<Rightarrow> bool" where
  "is_files t = (case t of FilesystemTask c \<Rightarrow> True | _ \<Rightarrow> False)"

text \<open>No filesystem task, whose response may be raw, inside a multi task.\<close>

fun no_files_inside :: "task \<Rightarrow> bool" where
  "no_files_inside (MultiTask c ts) = list_all (\<lambda>t. \<not> is_files t \<and> no_files_inside t) ts"
| "no_files_inside t = True"

lemma is_files_simps [simp]:
  "is_files (FilesystemTask c1)" "\<not> is_files (ShellTask c2)" "\<not> is_files (HttpTask c3)"
  "\<not> is_files (PostgresTask c4)" "\<not> is_files (MySQLTask c4)" "\<not> is_files (RedisTask c5)"
  "\<not> is_files (CassandraTask c6)" "\<not> is_files (InfoTask v rts)" "\<not> is_files (MultiTask c7 ts)"
  by (simp_all add: is_files_def)

lemma items_then_select_ok:
  assumes "\<And>i s. response_ok (fst (f i s))"
    and "bind_outcome (select_result k (fst (run_each f xs s)) (NewResponse n)) (\<lambda>x. Returns (x, s1)) = Returns (r, s2)"
  shows "envelope r \<and> rs_raw r = None"
proof -
  from assms(2) have "select_result k (fst (run_each f xs s)) (NewResponse n) = Returns r"
    by (auto simp: bind_outcome_Returns_iff)
  moreover have "list_all response_ok (fst (run_each f xs s))" by (rule run_each_all) (rule assms(1))
  ultimately show ?thesis using select_result_ok [of k _ "NewResponse n" r] by simp
qed

lemma ptrs_then_select_ok:
  assumes "\<And>i s. response_ok (fst (f i s))"
    and "bind_outcome (run_ptrs f ps s) (\<lambda>(results, s1).
           bind_outcome (select_result k results (NewResponse n)) (\<lambda>x. Returns (x, s1))) = Returns (r, s2)"
  shows "envelope r \<and> rs_raw r = None"
proof -
  from assms(2) obtain xs where xs: "ps = map Some xs"
    by (auto simp: bind_outcome_Returns_iff run_ptrs_Returns)
  from assms(2) have "bind_outcome (select_result k (fst (run_each f xs s)) (NewResponse n))
           (\<lambda>x. Returns (x, snd (run_each f xs s))) = Returns (r, s2)"
    by (simp add: xs case_prod_unfold)
  from items_then_select_ok [where f = f, OF assms(1) this] show ?thesis .
qed

lemma info_endpoint_ok: "response_ok (info_endpoint rt)"
  by (simp add: info_endpoint_def Let_def response_ok_iff)

lemma run_info_ok: "envelope (run_info v rts) \<and> rs_raw (run_info v rts) = None"
  by (simp add: run_info_def list_all_iff gval_ok_embed info_endpoint_ok)

lemma run_filesystem_ok:
  assumes "render_typed S" and "files_typed S"
  shows "envelope (run_filesystem S c data w)"
proof -
  have fail: "envelope (failed_500 e r)" if "err_ok e" "envelope r" for e r
    using that by (simp add: failed_500_def)
  have dir: "envelope (list_directory S c full w (NewResponse n))" for full n
  proof -
    have "response_ok (dir_item full item)" for item by (simp add: dir_item_def response_ok_iff)
    then show ?thesis
      by (auto simp: list_directory_def fail gval_ok_embed list_all_iff
          dest!: file_error(1) [OF assms(2)] split: sum.splits)
  qed
  have "envelope (serve_file S c data full w (NewResponse n))" for full n
    by (auto simp: serve_file_def fail dest!: file_error(2) [OF assms(2)] Interpolate_ok [OF assms(1)]
        split: sum.splits)
  with dir show ?thesis
    by (auto simp: run_filesystem_def Let_def fail dest!: Interpolate_ok [OF assms(1)] split: sum.splits)
qed

lemma run_redis_ok:
  assumes "render_typed S" and "stores_typed S" and "run_redis S c data w = Returns (r, w')"
  shows "envelope r \<and> rs_raw r = None"
proof (cases "\<exists>conn w1 address. Interpolate S (rc_address c) data = Inr address \<and>
    redis_dial S (rc_network c) address w = (Inr conn, w1)")
  case True
  then obtain conn w1 address where "Interpolate S (rc_address c) data = Inr address"
    "redis_dial S (rc_network c) address w = (Inr conn, w1)" by blast
  with assms(3) show ?thesis
    by (intro items_then_select_ok [where f = "run_redis_query S c data conn" and xs = "rc_queries c"
          and s = w1, OF run_redis_query_ok [OF assms(1,2)]])
      (auto simp: run_redis_def Let_def case_prod_unfold)
next
  case False
  with assms(3) show ?thesis
    by (auto simp: run_redis_def Let_def dest!: Interpolate_ok [OF assms(1)] store_error(4) [OF assms(2)]
        split: sum.splits prod.splits)
qed

lemma envelope_response_ok: "envelope r \<Longrightarrow> rs_raw r = None \<Longrightarrow> response_ok r"
  by (simp add: envelope_def response_ok_iff)

lemma run_task_typed:
  assumes "sys_typed S"
  shows "run_task S t r data st = Returns (resp, st') \<Longrightarrow> no_files_inside t \<Longrightarrow>
           envelope resp \<and> (rs_raw resp = None \<or> is_files t)"
    and "run_tasks S ts r data st = Returns (rs, st') \<Longrightarrow>
           list_all (\<lambda>t. \<not> is_files t \<and> no_files_inside t) ts \<Longrightarrow> list_all response_ok rs"
  using assms
proof (induction S t r data st and S ts r data st arbitrary: resp st' and rs st'
    rule: run_task_run_tasks.induct)
  case (1 S c r data st)
  from 1(1) show ?case
    by (auto simp: on_world_Returns run_shell_def
        dest!: ptrs_then_select_ok [where f = "run_command S c data", OF run_command_ok [OF sys_typedD(1,2) [OF 1(3)]]])
next
  case (2 S c r data st)
  from 2(1) show ?case
    by (auto simp: run_http_def
        dest!: ptrs_then_select_ok [where f = "run_url S r data", OF run_url_ok [OF sys_typedD(1,2) [OF 2(3)]]])
next
  case (3 S c r data st)
  from 3(1) show ?case
    by (auto simp: on_world_Returns run_postgres_def
        dest!: ptrs_then_select_ok [where f = "run_pg_query S c data", OF run_pg_query_ok [OF sys_typedD(1,3) [OF 3(3)]]])
next
  case (4 S c r data st)
  from 4(1) show ?case
    by (auto simp: on_world_Returns run_mysql_def
        dest!: ptrs_then_select_ok [where f = "run_mysql_query S c data", OF run_mysql_query_ok [OF sys_typedD(1,3) [OF 4(3)]]])
next
  case (5 S c r data st)
  from 5(1) show ?case
    by (auto simp: on_world_Returns dest!: run_redis_ok [OF sys_typedD(1,3) [OF 5(3)]])
next
  case (6 S c r data st)
  from 6(1) show ?case
    by (auto simp: on_world_Returns run_cassandra_def case_prod_unfold
        dest!: items_then_select_ok [where f = "run_cassandra_query S c data", OF run_cassandra_query_ok [OF sys_typedD(1,3) [OF 6(3)]]])
next
  case (7 S c r data st)
  then show ?case using run_filesystem_ok [OF sys_typedD(1,4) [OF 7(3)]] by auto
next
  case (8 S v rts r data st)
  then show ?case using run_info_ok by auto
next
  case (9 S c ts r data st)
  from 9(2) obtain results st1 where t: "run_tasks S ts r data st = Returns (results, st1)"
    and s: "select_result (mc_index c) results (NewResponse 200) = Returns resp"
    by (auto simp: bind_outcome_Returns_iff)
  from 9(1) [OF t] 9(3,4) have "list_all response_ok results" by simp
  from select_result_ok [OF s this] show ?case by simp
next
  case (10 S r data st)
  then show ?case by simp
next
  case (11 S t ts r data st)
  from 11(3) obtain tr st1 results where t: "run_task S t r data st = Returns (tr, st1)"
    and ts: "run_tasks S ts r data st1 = Returns (results, st')" and rs: "rs = tr # results"
    by (auto simp: bind_outcome_Returns_iff)
  from 11(1) [OF t] 11(4,5) have "response_ok tr" by (auto intro: envelope_response_ok)
  moreover from 11(2) [OF ts] 11(4,5) have "list_all response_ok results" by simp
  ultimately show ?case by (simp add: rs)
qed

section \<open>What a typed task answers\<close>


text \<open>The sample environment, with number literals as the texts of numbers.\<close>

definition typed_sys :: "(string, nat) sys" where
  "typed_sys = sample_sys\<lparr>float_text := (\<lambda>l. if number l then Some l else None)\<rparr>"

lemma typed_sys_typed: "sys_typed typed_sys"
proof -
  have e: "err_ok sample_error" by (simp add: err_ok_def sample_error_def doc_ok_def)
  show ?thesis
    by (auto simp: sys_typed_def render_typed_def calls_typed_def stores_typed_def files_typed_def float_ok_def
        typed_sys_def sample_sys_def e split: redis_reply.splits)
qed


end
