(* ===== verification/Reply.thy ===== *)
theory Reply
  imports Server Task_Types
begin

text \<open>
  What a client receives: the reply of a route, from the request to the bytes of the body, over
  the typing of the tasks and the JSON facts of \<open>Response_Json\<close>.
\<close>

section \<open>The members of the document\<close>

lemma to_json_members_map:
  "to_json_members ms = Some js \<Longrightarrow>
     map fst js = map fst ms \<and> map_of js k = (case map_of ms k of None \<Rightarrow> None | Some v \<Rightarrow> to_json v)"
proof (induction ms arbitrary: js)
  case Nil
  then show ?case by simp
next
  case (Cons m ms)
  obtain k' v where m: "m = (k', v)" by (cases m)
  with Cons.prems obtain j js' where js: "to_json v = Some j" "to_json_members ms = Some js'" "js = (k', j) # js'"
    by (auto split: option.splits)
  from Cons.IH [OF js(2)] js m show ?case by simp
qed

lemma map_of_map_snd: "map_of (map (\<lambda>m. (fst m, f (snd m))) xs) k = map_option f (map_of xs k)"
  by (induction xs) auto

lemma map_of_sort_key:
  assumes "distinct (map fst xs)"
  shows "map_of (sort_key fst xs) = map_of xs"
proof -
  have "distinct (map fst (sort_key fst xs))" using assms by (simp add: distinct_map)
  with assms show ?thesis by (simp add: map_of_inject_set)
qed

lemma sanitize_keys: "k \<in> set reply_keys \<Longrightarrow> sanitize k = k"
proof -
  have "list_all valid_utf8 reply_keys" by code_simp
  then show "k \<in> set reply_keys \<Longrightarrow> sanitize k = k" by (auto simp: list_all_iff intro: sanitize_valid)
qed

lemma sanitize_StatusText: "sanitize (StatusText n) = StatusText n"
proof -
  have texts: "list_all (\<lambda>(n, t). valid_utf8 t) status_texts" by code_simp
  show ?thesis
  proof (cases "map_of status_texts n")
    case None
    then show ?thesis by (simp add: StatusText_def sanitize_valid)
  next
    case (Some t)
    with texts have "valid_utf8 t" by (auto simp: list_all_iff dest: map_of_SomeD)
    with Some show ?thesis by (simp add: StatusText_def sanitize_valid)
  qed
qed

section \<open>A typed response on the wire\<close>

text \<open>
  The body is one JSON object with distinct names in order, whose "status" and "message" are
  the ones of the status line.
\<close>

definition status_document :: "int \<Rightarrow> string \<Rightarrow> bool" where
  "status_document st body \<longleftrightarrow>
     (case parse_json body of
        Some (JObj ms) \<Rightarrow>
          sorted (map fst ms) \<and> distinct (map fst ms) \<and> list_all (\<lambda>m. fst m \<in> set reply_keys) ms \<and>
          map_of ms ''status'' = Some (JNum (int_dec st)) \<and>
          map_of ms ''message'' = Some (JStr (StatusText st))
      | _ \<Rightarrow> False)"

lemma typed_response_body:
  assumes "envelope r" and "rs_raw r = None"
  shows "(case response_json r of
            None \<Rightarrow> wr_body (snd (Write r fresh_writer)) = []
          | Some j \<Rightarrow> status_document (rs_status r) (wr_body (snd (Write r fresh_writer))))"
proof (cases "response_json r")
  case None
  then show ?thesis
    using assms marshal_response_prints(1) [OF envelope_response_ok [OF assms]] by (simp add: Write_body)
next
  case (Some j)
  have ok: "response_ok r" using assms by (rule envelope_response_ok)
  from Some obtain js where js: "to_json_members (rs_data r) = Some js" "j = JObj (sort_key fst js)"
    by (auto simp: response_json_def)
  have keys: "map fst js = map fst (rs_data r)" and val: "\<And>k. map_of js k =
      (case value_of r k of None \<Rightarrow> None | Some v \<Rightarrow> to_json v)"
    using to_json_members_map [OF js(1)] by (simp_all add: value_of_def)
  have wf: "distinct (map fst js)"
    using assms(1) keys by (simp add: envelope_def wf_response_def)
  have known: "fst m \<in> set reply_keys" if "m \<in> set js" for m
  proof -
    from that have "fst m \<in> fst ` set (rs_data r)" using keys by (metis image_eqI set_map)
    also have "\<dots> = dom (value_of r)" by (simp add: value_of_def [abs_def] dom_map_of_conv_image_fst)
    finally show ?thesis using assms(1) by (auto simp: envelope_def)
  qed
  let ?ms = "map (\<lambda>m. (fst m, sane (snd m))) (sort_key fst js)"
  have "sane j = JObj ?ms" using known by (simp add: js(2) sanitize_keys)
  with ok assms(2) Some have parse: "parse_json (wr_body (snd (Write r fresh_writer))) = Some (JObj ?ms)"
    by (simp add: Write_body marshal_response_prints(1) parse_print [OF marshal_response_prints(2) [OF ok Some]])
  have names: "map fst ?ms = map fst (sort_key fst js)" by simp
  have "map_of ?ms k = map_option sane (map_of js k)" for k
    by (simp add: map_of_map_snd map_of_sort_key [OF wf])
  then have "map_of ?ms ''status'' = Some (JNum (int_dec (rs_status r)))"
    and "map_of ?ms ''message'' = Some (JStr (StatusText (rs_status r)))"
    using assms(1) by (simp_all add: val envelope_def sanitize_StatusText)
  moreover have "distinct (map fst (sort_key fst js))" using wf by (simp add: distinct_map)
  ultimately show ?thesis using known
    by (simp add: Some status_document_def parse o_def list_all_iff)
qed

section \<open>The reply of a route\<close>

lemma request_params_ok: "request_params S env r ec body = Returns params \<Longrightarrow> gval_ok params"
  by (auto simp: request_params_def bind_outcome_Returns_iff)

lemma envelope_add_params: "envelope resp \<Longrightarrow> envelope (add_params r ec params resp)" if "gval_ok params"
  using that by (auto simp: add_params_def Let_def split: option.splits)

lemma respond_typed:
  assumes "sys_typed S" and "no_files_inside t" and "respond S config a ec env t r w = Returns (resp, w1)"
  shows "envelope resp \<and> (rs_raw resp = None \<or> is_files t)"
proof -
  from assms(3) obtain refused w2 where au: "Authorize S a r ec w = Returns (refused, w2)"
    by (auto simp: respond_def bind_outcome_Returns_iff)
  show ?thesis
  proof (cases refused)
    case (Some e)
    with assms(3) au show ?thesis by (auto simp: respond_def)
  next
    case None
    from assms(3) au None obtain params tr st
      where p: "handler_params S config ec env r w2 = Returns params"
        and t: "run_task S t r params (snd (read_body r), w2) = Returns (tr, st)"
        and resp: "resp = add_params r ec params tr"
      by (auto simp: respond_def bind_outcome_Returns_iff handler_params_def split: prod.splits)
    from p have "gval_ok params" unfolding handler_params_def by (rule request_params_ok)
    with run_task_typed(1) [OF assms(1) t assms(2)] resp show ?thesis
      by (simp add: envelope_add_params)
  qed
qed

lemma Pretty_simps [simp]:
  "rs_raw (Pretty p r) = rs_raw r" "rs_status (Pretty p r) = rs_status r" "value_of (Pretty p r) = value_of r"
  by (simp_all add: Pretty_def value_of_def [abs_def])

text \<open>The response a handler writes.\<close>

definition reply ::
  "('t, 'w) sys \<Rightarrow> config \<Rightarrow> authorizers \<Rightarrow> endpoint_config \<Rightarrow> (string \<times> string) list \<Rightarrow> task
     \<Rightarrow> request \<Rightarrow> 'w \<Rightarrow> response" where
  "reply S config a ec env t r w =
     (case respond S config a ec env t r w of
        Returns (response, w1) \<Rightarrow> response
      | Panics e \<Rightarrow>
          Error (panic_value e) (Pretty (cf_pretty_json config) (NewResponse StatusInternalServerError)))"

lemma Handle_reply: "fst (Handle S config a ec env t r w) = snd (Write (reply S config a ec env t r w) fresh_writer)"
  by (simp add: Handle_def reply_def split: outcome.splits prod.splits)

lemma reply_typed:
  assumes "sys_typed S" and "no_files_inside t"
  shows "envelope (reply S config a ec env t r w) \<and> (rs_raw (reply S config a ec env t r w) = None \<or> is_files t)"
proof (cases "respond S config a ec env t r w")
  case (Panics e)
  moreover have "gval_ok (panic_value e)" by (cases e) simp_all
  ultimately show ?thesis by (simp add: reply_def)
next
  case (Returns x)
  with respond_typed [OF assms] show ?thesis by (cases x) (auto simp: reply_def)
qed

text \<open>
  What a writer holds after a response was sent: the JSON content type, the status of the
  response, and the document of it.  The body is empty if a value in the response cannot be
  encoded, and only then.
\<close>

definition answered :: "response \<Rightarrow> writer \<Rightarrow> bool" where
  "answered x wr \<longleftrightarrow>
     wr_header wr = [(''Content-Type'', ''application/json'')] \<and> wr_status wr = Some (rs_status x) \<and>
     (if list_ex (\<lambda>m. unencodable (snd m)) (rs_data x) then wr_body wr = []
      else status_document (rs_status x) (wr_body wr))"

lemma Write_answered: "envelope x \<Longrightarrow> rs_raw x = None \<Longrightarrow> answered x (snd (Write x fresh_writer))"
  using typed_response_body [of x] response_json_None [of x]
  by (auto simp: answered_def Write_fresh split: option.splits)

lemma Handle_answered:
  assumes "sys_typed S" and "no_files_inside t" and "\<not> is_files t"
  shows "answered (reply S config a ec env t r w) (fst (Handle S config a ec env t r w))"
  using reply_typed [OF assms(1,2)] assms(3) by (simp add: Handle_reply Write_answered)

text \<open>
  C2: Whatever a request is and whatever happens while it is handled (a refusal, a failed task,
  a panic), the reply of a route whose task is not a filesystem task, and has none inside a
  multi task, is one JSON object with distinct member names, whose "status" and "message" are
  those of the status line.  The only exception is a response that holds a value from outside
  that \<open>encoding/json\<close> refuses: then, and only then, the body is empty.
\<close>

theorem reply_is_json:
  assumes "sys_typed S" and "no_files_inside t" and "\<not> is_files t"
  shows "wr_status (fst (Handle S config a ec env t r w)) = Some (rs_status (reply S config a ec env t r w)) \<and>
         (if list_ex (\<lambda>m. unencodable (snd m)) (rs_data (reply S config a ec env t r w))
          then wr_body (fst (Handle S config a ec env t r w)) = []
          else status_document (rs_status (reply S config a ec env t r w))
                 (wr_body (fst (Handle S config a ec env t r w))))"
  using Handle_answered [OF assms] unfolding answered_def by simp

theorem reply_is_json_witness:
  "status_document 500 (wr_body (fst (Handle typed_sys shell_site [] zero_endpoint []
     (MySQLTask zero_sql_config) sample_request 0)))"
proof -
  let ?r = "reply typed_sys shell_site [] zero_endpoint [] (MySQLTask zero_sql_config) sample_request 0"
  have r: "?r = Error (VErr (ErrRuntime ''index out of range''))
      (Pretty (cf_pretty_json shell_site) (NewResponse 500))"
    by (simp add: reply_def respond_def Authorize_def zero_endpoint_def method_config_def zero_task_config_def
        read_body_def sample_request_def request_params_def GetQueryParams_def GetParams_def on_world_def run_mysql_def zero_sql_config_def go_simps)
  have "\<not> list_ex (\<lambda>m. unencodable (snd m)) (rs_data ?r)"
    by (simp add: r Error_def Pretty_def NewResponse_def Status_def AddValue_def Let_def)
  moreover have "rs_status ?r = 500" unfolding r by simp
  ultimately show ?thesis
    using reply_is_json [OF typed_sys_typed, of "MySQLTask zero_sql_config" shell_site "[]" zero_endpoint "[]"
      sample_request 0] by (simp only: is_files_simps no_files_inside.simps if_False simp_thms)
qed

end
