(* ===== verification/Config_Bounds.thy ===== *)
theory Config_Bounds
  imports Tasks
begin

text \<open>
  The ranges of what the configuration holds: an \<open>int\<close> read from a document is a 64-bit number,
  and the index a task stores stays below the number of its items.
\<close>

definition int64 :: "int \<Rightarrow> bool" where
  "int64 n \<longleftrightarrow> - (2 ^ 63) \<le> n \<and> n < 2 ^ 63"

section \<open>Decoders keep the ranges\<close>

lemma parse_int64_range: "parse_int64 s = Some n \<Longrightarrow> int64 n"
  by (auto simp: parse_int64_def int64_def Let_def split: prod.splits if_splits)

lemma dec_int_range: "dec_int j old = Inr n \<Longrightarrow> int64 old \<Longrightarrow> int64 n"
  by (auto simp: dec_int_def parse_int64_range split: json.splits option.splits)

lemma dec_int_ptr_range: "dec_int_ptr j old = Inr (Some n) \<Longrightarrow> int64 n"
  using dec_int_range [of j 0] by (cases j) (auto simp: dec_int_ptr_def int64_def split: sum.splits)

lemma empty_configuration:
  "NewConfigFromFilename sample_sys ''{}'' ''json'' w = Inr (NewConfig\<lparr>cf_directory := ''.''\<rparr>)"
proof -
  have "parse_json ''{}'' = Some (JObj [])" "Dir ''{}'' = ''.''" by code_simp+
  then show ?thesis
    by (simp add: NewConfigFromFilename_def configFormats_def sample_sys_def unmarshal_def decode_value_def)
qed

section \<open>The index of a single result\<close>

definition single_ok :: "int option \<Rightarrow> bool" where
  "single_ok s = (case s of None \<Rightarrow> True | Some i \<Rightarrow> int64 i)"

lemma single_ok_decoded: "dec_int_ptr j old = Inr s \<Longrightarrow> single_ok s"
  by (cases s) (auto simp: single_ok_def dest: dec_int_ptr_range)

text \<open>The index of a validated configuration: within 64 bits and below the number of items.\<close>

definition index_ok :: "int \<Rightarrow> 'i list \<Rightarrow> bool" where
  "index_ok i xs \<longleftrightarrow> int64 i \<and> i < int (length xs)"

lemma index_ok_of_single:
  "single_ok s \<Longrightarrow> i = (case s of None \<Rightarrow> -1 | Some i \<Rightarrow> i) \<and> i < int (length xs) \<Longrightarrow> index_ok i xs"
  by (auto simp: index_ok_def single_ok_def int64_def split: option.splits)

lemma unmarshal_single:
  assumes "\<And>f j c c'. f \<in> snd ` set fs \<Longrightarrow> single_ok (single c) \<Longrightarrow> f j c = Inr c' \<Longrightarrow> single_ok (single c')"
    and "unmarshal_raw fs raw c = Inr c'" and "single c = None"
  shows "single_ok (single c')"
  by (rule unmarshal_raw_inv [where P = "\<lambda>c. single_ok (single c)" and fs = fs and raw = raw and c = c])
    (use assms in \<open>auto simp: single_ok_def\<close>)

text \<open>
  C21: The index a factory stores is a 64-bit number below the number of items of the task, for
  every kind of task that validates its configuration.  There is no lower bound.
\<close>

theorem index_bounds:
  assumes "ShellFactory formats raw1 = Inr c1" and "HttpFactory formats raw2 = Inr c2"
    and "PostgresFactory raw3 = Inr c3" and "RedisFactory raw4 = Inr c4"
    and "CassandraFactory raw5 = Inr c5" and "multi_config_of raw6 = Inr c6"
  shows "index_ok (sh_index c1) (sh_commands c1) \<and> index_ok (ht_index c2) (ht_urls c2) \<and>
         index_ok (sl_index c3) (sl_queries c3) \<and> index_ok (rc_index c4) (rc_queries c4) \<and>
         index_ok (cc_index c5) (cc_queries c5) \<and> index_ok (mc_index c6) (mc_tasks c6)"
proof (intro conjI)
  from assms(1) obtain d1 where d: "unmarshal_raw shell_fields raw1 NewShellTaskConfig = Inr d1"
    "ValidateShell formats d1 = Inr c1" by (auto simp: ShellFactory_def split: sum.splits)
  have "single_ok (sh_single d1)"
    by (rule unmarshal_single [OF _ d(1)])
      (auto simp: shell_fields_def field_Inr NewShellTaskConfig_def dest!: single_ok_decoded)
  then show "index_ok (sh_index c1) (sh_commands c1)"
    using shell.index_of_single [OF d(2)] by (rule index_ok_of_single)
next
  from assms(2) obtain d2 c where d: "unmarshal_raw http_fields raw2 c = Inr d2" "ht_single c = None"
    "ValidateHttp formats d2 = Inr c2" by (auto simp: HttpFactory_def split: sum.splits)
  have "single_ok (ht_single d2)"
    by (rule unmarshal_single [OF _ d(1)]) (auto simp: http_fields_def field_Inr d(2) dest!: single_ok_decoded)
  then show "index_ok (ht_index c2) (ht_urls c2)"
    using http.index_of_single [OF d(3)] by (rule index_ok_of_single)
next
  from assms(3) obtain d3 where d: "unmarshal_raw sql_fields raw3 zero_sql_config = Inr d3"
    "ValidatePostgres d3 = Inr c3" by (auto simp: PostgresFactory_def split: sum.splits)
  have "single_ok (sl_single d3)"
    by (rule unmarshal_single [OF _ d(1)])
      (auto simp: sql_fields_def field_Inr zero_sql_config_def dest!: single_ok_decoded)
  then show "index_ok (sl_index c3) (sl_queries c3)"
    using postgres.index_of_single [OF d(2)] by (rule index_ok_of_single)
next
  from assms(4) obtain d4 c where d: "unmarshal_raw redis_fields raw4 c = Inr d4" "rc_single c = None"
    "ValidateRedis d4 = Inr c4" by (auto simp: RedisFactory_def split: sum.splits)
  have "single_ok (rc_single d4)"
    by (rule unmarshal_single [OF _ d(1)]) (auto simp: redis_fields_def field_Inr d(2) dest!: single_ok_decoded)
  then show "index_ok (rc_index c4) (rc_queries c4)"
    using redis.index_of_single [OF d(3)] by (rule index_ok_of_single)
next
  from assms(5) obtain d5 c where d: "unmarshal_raw cassandra_fields raw5 c = Inr d5" "cc_single c = None"
    "ValidateCassandra d5 = Inr c5" by (auto simp: CassandraFactory_def split: sum.splits)
  have "single_ok (cc_single d5)"
    by (rule unmarshal_single [OF _ d(1)]) (auto simp: cassandra_fields_def field_Inr d(2) dest!: single_ok_decoded)
  then show "index_ok (cc_index c5) (cc_queries c5)"
    using cassandra.index_of_single [OF d(3)] by (intro index_ok_of_single) simp_all
next
  from assms(6) obtain d6 c where d: "unmarshal_raw multi_fields raw6 c = Inr d6" "mc_single c = None"
    "ValidateMulti d6 = Inr c6" by (auto simp: multi_config_of_def split: sum.splits)
  have "single_ok (mc_single d6)"
    by (rule unmarshal_single [OF _ d(1)]) (auto simp: multi_fields_def field_Inr d(2) dest!: single_ok_decoded)
  then show "index_ok (mc_index c6) (mc_tasks c6)"
    using multi.index_of_single [OF d(3)] by (rule index_ok_of_single)
qed

text \<open>A configuration of one item, with a \<open>single_result\<close>.\<close>

definition one_item :: "string \<Rightarrow> (string \<times> json) list \<Rightarrow> json \<Rightarrow> json option" where
  "one_item k item single = Some (JObj [(k, JArr [JObj item]), (''single_result'', single)])"

definition accepted :: "'e + 'c \<Rightarrow> ('c \<Rightarrow> int) \<Rightarrow> int \<Rightarrow> bool" where
  "accepted x f i = (case x of Inl e \<Rightarrow> False | Inr c \<Rightarrow> f c = i)"

lemma acceptedE: "accepted x f i \<Longrightarrow> (\<And>c. x = Inr c \<Longrightarrow> f c = i \<Longrightarrow> thesis) \<Longrightarrow> thesis"
  by (auto simp: accepted_def split: sum.splits)

theorem index_bounds_witness:
  "\<exists>c. PostgresFactory (one_item ''queries'' [] (JNum ''-7'')) = Inr c \<and> sl_index c = -7 \<and>
     index_ok (sl_index c) (sl_queries c)"
proof -
  let ?f = "format_table Some"
  have "accepted (ShellFactory ?f (one_item ''commands'' [(''command'', JStr ''id'')] JNull)) sh_index (-1)"
    by code_simp
  then obtain c1 where c1: "ShellFactory ?f (one_item ''commands'' [(''command'', JStr ''id'')] JNull) = Inr c1"
    by (rule acceptedE)
  have "accepted (HttpFactory ?f (one_item ''urls'' [(''url'', JStr ''/x'')] (JNum ''0''))) ht_index 0"
    by code_simp
  then obtain c2 where c2: "HttpFactory ?f (one_item ''urls'' [(''url'', JStr ''/x'')] (JNum ''0'')) = Inr c2"
    by (rule acceptedE)
  have "accepted (PostgresFactory (one_item ''queries'' [] (JNum ''-7''))) sl_index (-7)" by code_simp
  then obtain c3 where c3: "PostgresFactory (one_item ''queries'' [] (JNum ''-7'')) = Inr c3" "sl_index c3 = -7"
    by (rule acceptedE)
  have "accepted (RedisFactory (one_item ''queries'' [(''type'', JStr ''int'')] JNull)) rc_index (-1)"
    by code_simp
  then obtain c4 where c4: "RedisFactory (one_item ''queries'' [(''type'', JStr ''int'')] JNull) = Inr c4"
    by (rule acceptedE)
  let ?c5 = "one_item ''queries'' [(''cluster'', JArr [JStr ''h'']), (''keyspace'', JStr ''k'')] JNull"
  have "accepted (CassandraFactory ?c5) cc_index (-1)" by code_simp
  then obtain c5 where c5: "CassandraFactory ?c5 = Inr c5" by (rule acceptedE)
  have "accepted (multi_config_of (one_item ''tasks'' [] JNull)) mc_index (-1)" by code_simp
  then obtain c6 where c6: "multi_config_of (one_item ''tasks'' [] JNull) = Inr c6" by (rule acceptedE)
  from index_bounds [OF c1 c2 c3(1) c4 c5 c6] c3 show ?thesis by blast
qed

end
