(* ===== verification/Startup.thy ===== *)
theory Startup
  imports Reply Config_Bounds
begin

text \<open>
  The server around its handlers: the environment handed to templates, the dispatch of requests
  to routes, and the start of the program, from the command line to the listening socket.
\<close>

section \<open>The environment\<close>

text \<open>
  The name and the value of an entry of the process environment: around its first equals sign,
  trimmed.
\<close>

definition env_entry :: "string \<Rightarrow> (string \<times> string) option" where
  "env_entry v =
     (if equals_sign \<in> set v
      then Some (TrimSpace (takeWhile (\<lambda>c. c \<noteq> equals_sign) v),
                 TrimSpace (tl (dropWhile (\<lambda>c. c \<noteq> equals_sign) v)))
      else None)"

fun last_entry :: "string list \<Rightarrow> string \<Rightarrow> string option" where
  "last_entry [] k = None"
| "last_entry (v # vs) k =
     (case last_entry vs k of
        Some x \<Rightarrow> Some x
      | None \<Rightarrow> (case env_entry v of None \<Rightarrow> None | Some (k', x) \<Rightarrow> (if k' = k then Some x else None)))"

lemma env_fold:
  "map_of (fold (\<lambda>v result.
        (case split_n2 equals_sign v of
           [key, val] \<Rightarrow> AList.update (TrimSpace key) (TrimSpace val) result
         | _ \<Rightarrow> result)) vs m) k =
     (case last_entry vs k of Some x \<Rightarrow> Some x | None \<Rightarrow> map_of m k)"
  by (induction vs arbitrary: m) (auto simp: env_entry_def split_n2_def split: option.splits)

lemma env_wf: "wf_map m \<Longrightarrow>
     wf_map (fold (\<lambda>v result.
        (case split_n2 equals_sign v of
           [key, val] \<Rightarrow> AList.update (TrimSpace key) (TrimSpace val) result
         | _ \<Rightarrow> result)) vs m)"
  by (induction vs arbitrary: m) (simp_all add: split_n2_def go_inv)

text \<open>
  C40: The environment the templates see maps a name to the value of its last entry in the
  environment of the process: entries are cut at their first equals sign, both sides are
  trimmed, entries without an equals sign are left out, and no name occurs twice.
\<close>

theorem get_env_last:
  "map_of (GetEnv S w) = last_entry (os_environ S w) \<and> wf_map (GetEnv S w)"
proof
  show "map_of (GetEnv S w) = last_entry (os_environ S w)"
    unfolding GetEnv_def by (rule ext, subst env_fold) (simp split: option.splits)
  show "wf_map (GetEnv S w)" unfolding GetEnv_def by (rule env_wf) simp
qed

section \<open>Dispatch\<close>

definition not_found_body :: string where
  "not_found_body =
     ''{'' @ [DQ] @ ''message'' @ [DQ] @ '':'' @ [DQ] @ ''Not Found'' @ [DQ] @ '','' @
     [DQ] @ ''status'' @ [DQ] @ '':404}''"

lemma NotFoundHandler_body: "wr_body NotFoundHandler = not_found_body"
proof -
  have ok: "response_ok (NewResponse 404)" by (intro envelope_response_ok) simp_all
  note not_found_json
  moreover have "print_json (JObj [(''message'', JStr ''Not Found''), (''status'', JNum ''404'')]) = not_found_body"
    by code_simp
  ultimately show ?thesis
    by (simp add: NotFoundHandler_def Write_body marshal_response_prints(1) [OF ok])
qed

text \<open>
  C13: A request whose path is not canonical is redirected, and only once: the canonical path
  stays as it is, and has no element "." or "..".  Any other request is handled by the first
  route whose path template matches and whose method, in upper case, is the request's, with the
  variables of the path; if there is none it is answered 404 with a fixed document, and nothing
  outside the server is touched.
\<close>

theorem dispatch:
  "serve S config env rts r w =
     (if cleanPath (rq_path r) \<noteq> rq_path r then (Redirect S r, Some w)
      else
        (case filter (\<lambda>rt. rq_method r = ToUpper (uni_upper S) (rt_method rt) \<and>
                          mux_path S (rt_path rt) (rq_path r) \<noteq> None) rts of
           [] \<Rightarrow> (NotFoundHandler, Some w)
         | rt # _ \<Rightarrow> Handle S config (rt_authorizers rt) (rt_endpoint rt) env (rt_task rt)
                       (r\<lparr>rq_vars := the (mux_path S (rt_path rt) (rq_path r))\<rparr>) w)) \<and>
   cleanPath (cleanPath (rq_path r)) = cleanPath (rq_path r) \<and>
   ''.'' \<notin> set (split_on slash (cleanPath (rq_path r))) \<and>
   ''..'' \<notin> set (split_on slash (cleanPath (rq_path r))) \<and>
   wr_status (Redirect S r) = Some 301 \<and>
   wr_status NotFoundHandler = Some 404 \<and>
   wr_body NotFoundHandler = not_found_body"
proof -
  have "find_route S r rts =
      (case filter (\<lambda>rt. rq_method r = ToUpper (uni_upper S) (rt_method rt) \<and>
                        mux_path S (rt_path rt) (rq_path r) \<noteq> None) rts of
         [] \<Rightarrow> None | rt # _ \<Rightarrow> Some (rt, the (mux_path S (rt_path rt) (rq_path r))))"
    by (induction rts) (auto simp: route_match_def split: option.splits)
  moreover have "wr_status NotFoundHandler = Some 404" by (simp add: NotFoundHandler_def Write_fresh)
  moreover have "wr_status (Redirect S r) = Some 301" by (simp add: Redirect_eq)
  moreover obtain es where "canonical_path es (cleanPath (rq_path r))" using cleanPath_canonical by blast
  then have "''.'' \<notin> set (split_on slash (cleanPath (rq_path r)))"
    "''..'' \<notin> set (split_on slash (cleanPath (rq_path r)))"
    using canonical_path_parts(1) [of es] by (auto simp: canonical_path_def list_all_iff plain_elem_def)
  ultimately show ?thesis
    unfolding serve_def by (simp add: NotFoundHandler_body cleanPath_again split: list.splits)
qed

section \<open>The start of the program\<close>



section \<open>A null among the endpoints\<close>

lemma check_endpoints_null:
  "check_endpoints i a es = Inr () \<Longrightarrow> check_endpoints i a (es @ None # rest) = Inl (Crashes nil_panic)"
  by (induction i a es rule: check_endpoints.induct) (auto split: sum.splits)


definition null_file :: string where
  "null_file = ''{'' @ [DQ] @ ''endpoints'' @ [DQ] @ '':[null]}''"


end
