(* ===== verification/Built_Routes.thy ===== *)
theory Built_Routes
  imports Startup
begin

text \<open>
  What every route of a server that started holds: the authorizers of the server, and the
  endpoint it was configured from with its query parameters validated, those of the endpoint
  and those of every method.  So nothing can panic before the task of a route runs, if the
  authorizers of its endpoint are defined.
\<close>

section \<open>Validated query parameters\<close>

definition checked_opt :: "('t, 'w) sys \<Rightarrow> query_params option \<Rightarrow> bool" where
  "checked_opt S qo \<longleftrightarrow> (\<exists>q. validate_opt_params S q = Inr qo)"

lemma checked_opt_None [simp]: "checked_opt S None"
  by (auto simp: checked_opt_def validate_opt_params_def intro!: exI [of _ None])

lemma checked_GetParams:
  assumes "checked_opt S qo"
  shows "\<exists>m. GetParams S qo r = Returns m"
proof (cases qo)
  case None
  then show ?thesis by (simp add: GetParams_def)
next
  case (Some q)
  with assms obtain qo0 where "validate_opt_params S qo0 = Inr (Some q)" by (auto simp: checked_opt_def)
  then obtain q0 where "ValidateQueryParams S q0 = Inr q"
    by (cases qo0) (auto simp: validate_opt_params_def split: sum.splits)
  from ValidateQueryParams_Inr(1) [OF this] show ?thesis
    by (auto simp: Some GetParams_def get_params_loop_map)
qed

text \<open>The method \<open>k\<close> of an endpoint, if there is one, has validated query parameters.\<close>

definition checked_at :: "('t, 'w) sys \<Rightarrow> endpoint_config \<Rightarrow> string \<Rightarrow> bool" where
  "checked_at S e k \<longleftrightarrow> (\<forall>t. map_of (ec_methods e) k = Some t \<longrightarrow> checked_opt S (tc_query_params t))"

section \<open>The endpoint of a route\<close>

text \<open>What building the routes keeps of an endpoint.\<close>

definition same_endpoint :: "endpoint_config \<Rightarrow> endpoint_config \<Rightarrow> bool" where
  "same_endpoint e e' \<longleftrightarrow>
     ec_path e' = ec_path e \<and> ec_authorizers e' = ec_authorizers e \<and>
     (\<forall>k. map_option tc_authorizers (map_of (ec_methods e') k) =
          map_option tc_authorizers (map_of (ec_methods e) k))"

lemma same_endpoint_refl [simp]: "same_endpoint e e"
  by (simp add: same_endpoint_def)

lemma same_endpoint_trans: "same_endpoint a b \<Longrightarrow> same_endpoint b c \<Longrightarrow> same_endpoint a c"
  by (simp add: same_endpoint_def)

lemma lookup_map_entry:
  "map_of (AList.map_entry k f m) k' = (if k' = k then map_option f (map_of m k) else map_of m k')"
  by (induction m) auto

text \<open>Storing the validated parameters of a method.\<close>

lemma store_params:
  assumes "e1 = e\<lparr>ec_methods := AList.map_entry m (tc_query_params_update (\<lambda>_. qo)) (ec_methods e)\<rparr>"
    and "checked_opt S qo"
  shows "same_endpoint e e1" and "ec_query_params e1 = ec_query_params e" and "checked_at S e1 m"
    and "checked_at S e k \<Longrightarrow> checked_at S e1 k"
  using assms
  by (auto simp: same_endpoint_def checked_at_def lookup_map_entry option.map_comp o_def)

lemma method_loop_checks:
  assumes "method_loop F S [] ms e tc0 acc = Some (Inr (e', tc', acc'))" and "\<forall>k \<in> K. checked_at S e k"
  shows "same_endpoint e e' \<and> ec_query_params e' = ec_query_params e \<and>
         (\<forall>k \<in> K \<union> fst ` set ms. checked_at S e' k)"
  using assms
proof (induction ms arbitrary: e tc0 acc K)
  case Nil
  then show ?case by simp
next
  case (Cons x ms)
  obtain m t where x: "x = (m, t)" by (cases x)
  with Cons.prems(1) obtain tc e1 acc1 where v: "ValidateTask S t = Inr tc"
    and e1: "e1 = e\<lparr>ec_methods :=
        AList.map_entry m (tc_query_params_update (\<lambda>_. tc_query_params tc)) (ec_methods e)\<rparr>"
    and rest: "method_loop F S [] ms e1 tc acc1 = Some (Inr (e', tc', acc'))"
    by (auto simp: Let_def split: sum.splits option.splits)
  from ValidateTask_Inr(6) [OF v] have "checked_opt S (tc_query_params tc)" by (auto simp: checked_opt_def)
  note s = store_params [OF e1 this]
  from s(3,4) Cons.prems(2) have "\<forall>k \<in> insert m K. checked_at S e1 k" by blast
  from Cons.IH [OF rest this] s(1,2) show ?case by (auto simp: x intro: same_endpoint_trans)
qed

text \<open>What a route holds of the configuration it was built from.\<close>

definition route_ok :: "('t, 'w) sys \<Rightarrow> config \<Rightarrow> authorizers \<Rightarrow> route \<Rightarrow> bool" where
  "route_ok S config a rt \<longleftrightarrow>
     rt_authorizers rt = a \<and>
     rt_path rt = ec_path (rt_endpoint rt) \<and>
     checked_opt S (ec_query_params (rt_endpoint rt)) \<and>
     (\<forall>k. checked_at S (rt_endpoint rt) k) \<and>
     (\<exists>e. Some e \<in> set (cf_endpoints config) \<and> same_endpoint e (rt_endpoint rt))"

lemma endpoint_loop_ok:
  assumes "endpoint_loop F S a [] es = Some (Inr rs)" and "set es \<subseteq> set (cf_endpoints config)"
  shows "list_all (route_ok S config a) rs"
  using assms
proof (induction es arbitrary: rs rule: ptrs_induct)
  case (ptr econfig es)
  from ptr.prems(1) obtain e e' tc' acc' rs1 where v: "ValidateEndpoint S econfig = Inr e"
    and m: "method_loop F S [] (ec_methods e) e zero_task_config [] = Some (Inr (e', tc', acc'))"
    and rest: "endpoint_loop F S a [] es = Some (Inr rs1)"
    and rs: "rs = endpoint_routes a (e', tc', acc') @ rs1"
    by (auto split: sum.splits option.splits)
  note ve = ValidateEndpoint_Inr [OF v]
  from method_loop_checks [OF m, of "{}"] have l: "same_endpoint e e'" "ec_query_params e' = ec_query_params e"
    and k: "\<forall>k \<in> fst ` set (ec_methods e). checked_at S e' k" by simp_all
  have "same_endpoint econfig e" using ve(1-3) by (simp add: same_endpoint_def)
  with l(1) have same: "same_endpoint econfig e'" by (rule same_endpoint_trans [rotated])
  have "checked_at S e' k" for k
  proof (cases "k \<in> fst ` set (ec_methods e)")
    case False
    then have "map_of (ec_methods e) k = None" by (simp add: map_of_eq_None_iff)
    with l(1) have "map_option tc_authorizers (map_of (ec_methods e') k) = None"
      by (simp add: same_endpoint_def)
    then have "map_of (ec_methods e') k = None" by simp
    then show ?thesis by (simp add: checked_at_def)
  qed (use k in blast)
  moreover have "checked_opt S (ec_query_params e')" using l(2) ve(5) by (auto simp: checked_opt_def)
  ultimately have "list_all (route_ok S config a) (endpoint_routes a (e', tc', acc'))"
    using same ptr.prems(2) by (auto simp: endpoint_routes_def list_all_iff route_ok_def Path_def)
  with ptr.IH [OF rest] ptr.prems(2) show ?case by (simp add: rs)
qed simp_all

lemma routes_ok:
  assumes "routes n S config [] = Some (Inr rs)"
  obtains a where "GetAuthorizers S authorizer_table config = Inr a" and "list_all (route_ok S config a) rs"
proof -
  from assms obtain k a where a: "GetAuthorizers S authorizer_table config = Inr a"
    and l: "endpoint_loop (call_factory k S config) S a [] (cf_endpoints config) = Some (Inr rs)"
    by (cases n) (auto simp: routes_with_def split: sum.splits)
  from that [OF a] endpoint_loop_ok [OF l] show thesis by blast
qed

lemma find_route_mem: "find_route S r rs = Some (rt, vars) \<Longrightarrow> rt \<in> set rs \<and> route_match S r rt = Some vars"
  by (induction rs) (auto split: option.splits)

section \<open>Before the task\<close>

lemma same_endpoint_names:
  assumes "same_endpoint e e'"
  shows "ec_authorizers e' @ tc_authorizers (method_config e' k) = ec_authorizers e @ tc_authorizers (method_config e k)"
proof -
  have "map_option tc_authorizers (map_of (ec_methods e') k) = map_option tc_authorizers (map_of (ec_methods e) k)"
    and "ec_authorizers e' = ec_authorizers e" using assms by (simp_all add: same_endpoint_def)
  then show ?thesis by (auto simp: method_config_def split: option.splits)
qed

lemma checked_request_params:
  assumes "checked_opt S (ec_query_params e)" and "\<And>k. checked_at S e k"
  shows "\<exists>params. request_params S env r e body = Returns params"
proof -
  have "checked_opt S (tc_query_params (method_config e (rq_method r)))"
    using assms(2) [of "rq_method r"]
    by (auto simp: method_config_def checked_at_def zero_task_config_def split: option.splits)
  from checked_GetParams [OF this, of r] checked_GetParams [OF assms(1), of r] show ?thesis
    by (auto simp: request_params_def GetQueryParams_def)
qed

lemma prepared:
  assumes "routes n S config [] = Some (Inr rs)" and "rt \<in> set rs"
    and "set (ec_authorizers (rt_endpoint rt)) \<subseteq> fst ` set (cf_authorizers config)"
  obtains refused w1 params
    where "Authorize S (rt_authorizers rt) r (rt_endpoint rt) w = Returns (refused, w1)"
      and "handler_params S config (rt_endpoint rt) env r w1 = Returns params"
      and "respond S config (rt_authorizers rt) (rt_endpoint rt) env (rt_task rt) r w =
        (if refused = None
         then bind_outcome (run_task S (rt_task rt) r params (snd (read_body r), w1))
                (\<lambda>(response, st). Returns (add_params r (rt_endpoint rt) params response, snd st))
         else Returns (NewResponse 401, w1))"
proof -
  from routes_ok [OF assms(1)] obtain a where a: "GetAuthorizers S authorizer_table config = Inr a"
    and "list_all (route_ok S config a) rs" .
  with assms(2) obtain e where rt: "rt_authorizers rt = a" "checked_opt S (ec_query_params (rt_endpoint rt))"
    "\<And>k. checked_at S (rt_endpoint rt) k" and e: "Some e \<in> set (cf_endpoints config)" "same_endpoint e (rt_endpoint rt)"
    by (auto simp: list_all_iff route_ok_def)
  have "set (ec_authorizers e) \<subseteq> fst ` set (cf_authorizers config)"
    using assms(3) e(2) by (simp add: same_endpoint_def)
  from authorize_returns [OF a e(1) this, of r w]
  obtain refused w1 where au: "Authorize S a r (rt_endpoint rt) w = Returns (refused, w1)"
    unfolding Authorize_def same_endpoint_names [OF e(2)] by blast
  from checked_request_params [OF rt(2,3)] obtain params
    where p: "handler_params S config (rt_endpoint rt) env r w1 = Returns params"
    unfolding handler_params_def by blast
  with au have "respond S config a (rt_endpoint rt) env (rt_task rt) r w =
      (if refused = None
       then bind_outcome (run_task S (rt_task rt) r params (snd (read_body r), w1))
              (\<lambda>(response, st). Returns (add_params r (rt_endpoint rt) params response, snd st))
       else Returns (NewResponse 401, w1))"
    by (auto simp: respond_def handler_params_def split: option.splits prod.splits)
  from that au p this show thesis by (simp add: rt(1))
qed

text \<open>
  C12: On a server that built its routes, a request to an endpoint whose own authorizers are
  defined gets past the handler's preparations without a panic, whatever it holds: the
  authorizers answer, and if they accept, its parameters are collected and the task is run
  with them.  So only the task itself can make the handler answer 500.
\<close>

theorem prepared_request:
  assumes "routes n S config [] = Some (Inr rs)" and "rt \<in> set rs"
    and "set (ec_authorizers (rt_endpoint rt)) \<subseteq> fst ` set (cf_authorizers config)"
  shows "\<exists>refused w1 params.
           Authorize S (rt_authorizers rt) r (rt_endpoint rt) w = Returns (refused, w1) \<and>
           handler_params S config (rt_endpoint rt) env r w1 = Returns params \<and>
           respond S config (rt_authorizers rt) (rt_endpoint rt) env (rt_task rt) r w =
             (if refused = None
              then bind_outcome (run_task S (rt_task rt) r params (snd (read_body r), w1))
                     (\<lambda>(response, st). Returns (add_params r (rt_endpoint rt) params response, snd st))
              else Returns (NewResponse 401, w1))"
  by (rule prepared [OF assms, of r w env]) blast

theorem prepared_request_witness:
  "\<exists>refused w1 params.
     Authorize sample_sys [] sample_request (rt_endpoint (shell_route
         [(''GET'', shell_method), (''PUT'', shell_method)] shell_method ''GET'')) (0::nat) = Returns (refused, w1) \<and>
     handler_params sample_sys (site [(''GET'', shell_method), (''PUT'', shell_method)])
       (rt_endpoint (shell_route [(''GET'', shell_method), (''PUT'', shell_method)] shell_method ''GET''))
       [] sample_request w1 = Returns params"
  using prepared_request [OF site_routes,
      of "shell_route [(''GET'', shell_method), (''PUT'', shell_method)] shell_method ''GET''" sample_request 0 "[]"]
  by (simp add: shell_route_def zero_endpoint_def) blast

section \<open>Methods that are not written in upper case\<close>

text \<open>
  C35: The method of a route is compared in upper case, but the endpoint's own map is looked up
  with the method of the request.  When no key of an endpoint is written in upper case (and the
  one of the route is ASCII), its route is served all the same, but the key is not found: only
  the authorizers of the endpoint are asked, and only its query parameters collected, whatever
  the method configures.
\<close>

theorem lower_case_method:
  assumes "cleanPath (rq_path r) = rq_path r" and "find_route S r rs = Some (rt, vars)"
    and "ascii (rt_method rt)" and "\<forall>(m, t) \<in> set (ec_methods (rt_endpoint rt)). map upper_char m \<noteq> m"
  shows "serve S config env rs r w =
           Handle S config (rt_authorizers rt) (rt_endpoint rt) env (rt_task rt) (r\<lparr>rq_vars := vars\<rparr>) w \<and>
         Authorize S (rt_authorizers rt) (r\<lparr>rq_vars := vars\<rparr>) (rt_endpoint rt) w =
           authorize_names S (rt_authorizers rt) (r\<lparr>rq_vars := vars\<rparr>) (ec_authorizers (rt_endpoint rt)) w \<and>
         GetQueryParams S (r\<lparr>rq_vars := vars\<rparr>) (rt_endpoint rt) =
           GetParams S (ec_query_params (rt_endpoint rt)) (r\<lparr>rq_vars := vars\<rparr>)"
proof -
  from find_route_mem [OF assms(2)] have "rq_method r = map upper_char (rt_method rt)"
    using assms(3) by (auto simp: route_match_def ToUpper_def split: if_splits)
  then have "map upper_char (rq_method r) = rq_method r" by (simp add: o_def)
  with assms(4) have "map_of (ec_methods (rt_endpoint rt)) (rq_method r) = None"
    by (auto simp: map_of_eq_None_iff)
  then show ?thesis
    by (simp add: serve_def assms(1,2) Authorize_def method_config_def zero_task_config_def
        GetQueryParams_def GetParams_def)
qed

text \<open>A method that names an authorizer, under a key in lower case.\<close>

definition lower_methods :: "(string \<times> task_config) list" where
  "lower_methods = [(''get'', shell_method\<lparr>tc_authorizers := [''b'']\<rparr>)]"

definition lower_route :: route where
  "lower_route = shell_route lower_methods (shell_method\<lparr>tc_authorizers := [''b'']\<rparr>) ''get''"

theorem lower_case_method_witness:
  "serve sample_sys (site lower_methods) [] [lower_route] sample_request 0 =
     Handle sample_sys (site lower_methods) [] (rt_endpoint lower_route) [] (rt_task lower_route)
       (sample_request\<lparr>rq_vars := []\<rparr>) 0 \<and>
   Authorize sample_sys [] (sample_request\<lparr>rq_vars := []\<rparr>) (rt_endpoint lower_route) 0 = Returns (None, 0)"
proof -
  have up: "map upper_char ''get'' = ''GET''" by code_simp
  have "find_route sample_sys sample_request [lower_route] = Some (lower_route, [])"
    using up by (simp add: route_match_def lower_route_def shell_route_def sample_request_def sample_sys_def
        ToUpper_def ascii_def)
  moreover have "\<forall>(m, t) \<in> set (ec_methods (rt_endpoint lower_route)). map upper_char m \<noteq> m"
    using up by (simp add: lower_route_def shell_route_def lower_methods_def)
  moreover have "ascii (rt_method lower_route)" by (simp add: lower_route_def shell_route_def ascii_def)
  ultimately show ?thesis
    using lower_case_method [OF sample_path_clean, of sample_sys "[lower_route]" lower_route "[]" "site lower_methods" "[]" 0]
    by (simp add: lower_route_def shell_route_def zero_endpoint_def)
qed

end
