(* ===== verification/Built_Tasks.thy ===== *)
theory Built_Tasks
  imports Routes
begin

text \<open>
  Properties of tasks that hold for all tasks of a server because its factories make them: the
  loops that build the routes carry any such property from the factories to the routes.
\<close>

section \<open>What the factories make\<close>

text \<open>What a factory is known to make of a task configuration, once it is validated.\<close>

definition makes :: "(task \<Rightarrow> bool) \<Rightarrow> factory_call \<Rightarrow> task_config \<Rightarrow> bool" where
  "makes P F t \<longleftrightarrow>
     (\<forall>f ts. getTaskFactory taskregistry (TrimSpace (tc_type t)) = Some f \<longrightarrow>
        F f (tc_config t) = Some (Inr ts) \<longrightarrow> list_all P ts)"

lemma makesD:
  assumes "makes P F t" and "ValidateTask S t = Inr tc"
    and "getTaskFactory taskregistry (tc_type tc) = Some f" and "F f (tc_config tc) = Some (Inr ts)"
  shows "list_all P ts"
  using assms ValidateTask_Inr(1,4) [OF assms(2)] by (auto simp: makes_def)

lemma build_multi_makes:
  assumes "build_multi S F mtcs acc = Some (Inr ts)" and "list_all (pred_option (makes P F)) mtcs"
    and "list_all P acc"
  shows "list_all P ts"
  using assms
proof (induction mtcs arbitrary: acc rule: ptrs_induct)
  case (ptr m mtcs)
  from ptr.prems(1) obtain tc f us where v: "ValidateTask S m = Inr tc"
    "getTaskFactory taskregistry (tc_type tc) = Some f" "F f (tc_config tc) = Some (Inr us)"
    and rest: "build_multi S F mtcs (acc @ us) = Some (Inr ts)"
    by (auto split: if_splits sum.splits option.splits)
  from makesD [where F = F and P = P, OF _ v(1,2,3)] ptr.prems(2) have "list_all P us" by simp
  with ptr.IH [OF rest] ptr.prems(2,3) show ?case by simp
qed simp_all

lemma method_loop_makes:
  assumes "method_loop F S ign ms e tc0 acc = Some (Inr (e', tc', acc'))"
    and "list_all (\<lambda>m. makes P F (snd m)) ms" and "list_all (\<lambda>m. P (snd m)) acc"
  shows "list_all (\<lambda>m. P (snd m)) acc'"
  using assms
proof (induction ms arbitrary: e tc0 acc)
  case Nil
  then show ?case by simp
next
  case (Cons m ms)
  obtain k t where m: "m = (k, t)" by (cases m)
  show ?case
  proof (cases "list_ex (\<lambda>it. tc_type t = it) ign")
    case True
    with Cons.prems m show ?thesis by simp
  next
    case False
    with Cons.prems(1) m obtain tc f us e1 where v: "ValidateTask S t = Inr tc"
      "getTaskFactory taskregistry (tc_type tc) = Some f" "F f (tc_config tc) = Some (Inr us)"
      and rest: "method_loop F S ign ms e1 tc (acc @ map (\<lambda>t. (k, t)) us) = Some (Inr (e', tc', acc'))"
      by (auto simp: Let_def split: if_splits sum.splits option.splits)
    from makesD [where F = F and P = P, OF _ v(1,2,3)] Cons.prems(2) m have "list_all P us" by simp
    with Cons.prems(3) have "list_all (\<lambda>m. P (snd m)) (acc @ map (\<lambda>t. (k, t)) us)"
      by (auto simp: list_all_iff)
    from Cons.IH [OF rest _ this] Cons.prems(2) show ?thesis by simp
  qed
qed

lemma endpoint_loop_makes:
  assumes "endpoint_loop F S a ign es = Some (Inr rs)"
    and "list_all (pred_option (\<lambda>e. list_all (\<lambda>m. makes P F (snd m)) (ec_methods e))) es"
  shows "list_all (\<lambda>rt. P (rt_task rt)) rs"
  using assms
proof (induction es arbitrary: rs rule: ptrs_induct)
  case (ptr e es)
  from ptr.prems(1) obtain e1 res rs1 where v: "ValidateEndpoint S e = Inr e1"
    and m: "method_loop F S ign (ec_methods e1) e1 zero_task_config [] = Some (Inr res)"
    and rest: "endpoint_loop F S a ign es = Some (Inr rs1)" and rs: "rs = endpoint_routes a res @ rs1"
    by (auto split: sum.splits option.splits)
  obtain e' tc' acc' where res: "res = (e', tc', acc')" by (cases res)
  from method_loop_makes [OF m [unfolded res]] ptr.prems(2) ValidateEndpoint_Inr(1) [OF v]
  have "list_all (\<lambda>m. P (snd m)) acc'" by simp
  with ptr.IH [OF rest] ptr.prems(2) show ?case
    by (auto simp: rs res endpoint_routes_def list_all_iff)
qed simp_all

text \<open>The task of a factory other than info and multi.\<close>

lemma one_task_makes: "one_task con res = Some (Inr ts) \<Longrightarrow> (\<And>c. res = Inr c \<Longrightarrow> P (con c)) \<Longrightarrow> list_all P ts"
  by (auto simp: one_task_def split: sum.splits)

text \<open>A multi task gets one task for each of its configurations.\<close>

lemma build_multi_length:
  assumes "one_each F"
  shows "build_multi S F mtcs acc = Some (Inr ts) \<Longrightarrow> length ts = length acc + length mtcs"
proof (induction mtcs arbitrary: acc rule: ptrs_induct)
  case (ptr m mtcs)
  from ptr.prems obtain f raw us where us: "F f raw = Some (Inr us)"
    and rest: "build_multi S F mtcs (acc @ us) = Some (Inr ts)"
    by (auto split: if_splits sum.splits option.splits)
  from one_eachE [OF assms us] obtain u where "us = [u]" .
  with ptr.IH [OF rest] show ?case by simp
qed simp_all

section \<open>The contract of a property of tasks\<close>

text \<open>
  \<open>ok d t\<close> says of a task configuration, in which multi tasks are nested less than \<open>d\<close> deep, what
  makes \<open>P\<close> hold of the tasks its factory makes: directly, or through the tasks of a multi task.
\<close>

locale task_invariant =
  fixes ok :: "nat \<Rightarrow> task_config \<Rightarrow> bool"
    and P :: "task \<Rightarrow> bool"
    and S :: "('t, 'w) sys"
    and config :: config
  assumes ok_zero: "\<not> ok 0 t"
    and info: "P (InfoTask version rs)"
    and leaf: "ok (Suc d) t \<Longrightarrow> getTaskFactory taskregistry (TrimSpace (tc_type t)) = Some f \<Longrightarrow>
          f \<noteq> MultiTaskFactory \<Longrightarrow> f \<noteq> InfoTaskFactory \<Longrightarrow>
          call_factory (Suc n) S config f (tc_config t) = Some (Inr ts) \<Longrightarrow> list_all P ts"
    and inner: "ok (Suc d) t \<Longrightarrow> TrimSpace (tc_type t) = ''multi'' \<Longrightarrow>
          multi_config_of (tc_config t) = Inr c \<Longrightarrow> Some m \<in> set (mc_tasks c) \<Longrightarrow> ok d m"
    and multi: "ok (Suc d) t \<Longrightarrow> TrimSpace (tc_type t) = ''multi'' \<Longrightarrow>
          multi_config_of (tc_config t) = Inr c \<Longrightarrow> list_all P us \<Longrightarrow>
          length us = length (mc_tasks c) \<Longrightarrow> P (MultiTask c us)"
begin

lemma made: "ok d t \<Longrightarrow> makes P (call_factory n S config) t"
proof (induction d arbitrary: n t)
  case 0
  with ok_zero show ?case by simp
next
  case (Suc d)
  show ?case unfolding makes_def
  proof (intro allI impI)
    fix f ts
    assume f: "getTaskFactory taskregistry (TrimSpace (tc_type t)) = Some f"
      and ts: "call_factory n S config f (tc_config t) = Some (Inr ts)"
    from ts obtain n' where n: "n = Suc n'" by (cases n) auto
    show "list_all P ts"
    proof (cases "f = MultiTaskFactory")
      case True
      with ts n obtain c us where c: "multi_config_of (tc_config t) = Inr c"
        and us: "build_multi S (call_factory n' S config) (mc_tasks c) [] = Some (Inr us)"
        and "ts = [MultiTask c us]"
        by (auto simp: Let_def MultiFactory_def split: option.splits sum.splits)
      moreover from True f have m: "TrimSpace (tc_type t) = ''multi''" by (simp add: taskregistry_special)
      have "list_all (pred_option (makes P (call_factory n' S config))) (mc_tasks c)"
        unfolding list_all_iff option.pred_set
        by (intro ballI) (auto elim!: option.set_cases intro!: Suc.IH inner [OF Suc.prems m c])
      then have "list_all P us" by (rule build_multi_makes [OF us]) simp
      moreover have "length us = length (mc_tasks c)"
        using build_multi_length [OF one_each_call_factory us] by simp
      ultimately show ?thesis using multi [OF Suc.prems m c] by simp
    next
      case False
      show ?thesis
      proof (cases "f = InfoTaskFactory")
        case True
        with ts n info show ?thesis by (auto simp: Let_def split: option.splits sum.splits)
      next
        case other: False
        from leaf [OF Suc.prems f False other] ts n show ?thesis by simp
      qed
    qed
  qed
qed

lemma routes_made:
  assumes "list_all (pred_option (\<lambda>e. list_all (\<lambda>m. ok d (snd m)) (ec_methods e))) (cf_endpoints config)"
    and "routes n S config ign = Some (Inr rs)"
  shows "list_all (\<lambda>rt. P (rt_task rt)) rs"
proof -
  from assms(2) obtain k a where l: "endpoint_loop (call_factory k S config) S a ign (cf_endpoints config) = Some (Inr rs)"
    by (cases n) (auto simp: routes_with_def split: sum.splits)
  have "list_all (pred_option (\<lambda>e. list_all (\<lambda>m. makes P (call_factory k S config) (snd m)) (ec_methods e)))
      (cf_endpoints config)"
    using assms(1) by (auto elim!: list.pred_mono_strong option.pred_mono_strong intro: made)
  from endpoint_loop_makes [OF l this] show ?thesis .
qed

end

end
