(* ===== verification/Whole_Server.thy ===== *)
theory Whole_Server
  imports Built_Routes Built_Tasks
begin

text \<open>
  From a configuration to the bytes a client gets: which tasks the factories make of a
  configuration without filesystem tasks, and what the server with its routes answers.
\<close>

section \<open>Configurations without filesystem tasks\<close>

text \<open>
  A task configuration that is not a filesystem task and has none among its tasks, at any depth;
  \<open>d\<close> bounds how deep multi tasks are nested.
\<close>

fun file_free :: "nat \<Rightarrow> task_config \<Rightarrow> bool" where
  "file_free 0 t = False"
| "file_free (Suc d) t =
     (TrimSpace (tc_type t) \<noteq> ''filesystem'' \<and>
      (if TrimSpace (tc_type t) = ''multi''
       then (case multi_config_of (tc_config t) of
               Inl e \<Rightarrow> True
             | Inr c \<Rightarrow> list_all (pred_option (file_free d)) (mc_tasks c))
       else True))"

definition no_files :: "nat \<Rightarrow> config \<Rightarrow> bool" where
  "no_files d config =
     list_all (pred_option (\<lambda>e. list_all (\<lambda>m. file_free d (snd m)) (ec_methods e))) (cf_endpoints config)"

section \<open>What the factories make\<close>

definition plain_task :: "task \<Rightarrow> bool" where
  "plain_task t \<longleftrightarrow> \<not> is_files t \<and> no_files_inside t"

lemma plain_task_simps [simp]:
  "plain_task (ShellTask c2)" "plain_task (HttpTask c3)" "plain_task (PostgresTask c4)" "plain_task (MySQLTask c4)"
  "plain_task (RedisTask c5)" "plain_task (CassandraTask c6)" "plain_task (InfoTask v rts)"
  "plain_task (MultiTask c7 ts) = list_all plain_task ts"
  by (simp_all add: plain_task_def [abs_def])

lemma taskregistry_files: "getTaskFactory taskregistry t = Some FilesystemFactory \<longleftrightarrow> t = ''filesystem''"
  by (auto simp: taskregistry_lookup task_registrations_def split: if_splits)

interpretation plain: task_invariant file_free plain_task S config
proof
  fix d n and t :: task_config and f ts
  assume "file_free (Suc d) t" and f: "getTaskFactory taskregistry (TrimSpace (tc_type t)) = Some f"
    "f \<noteq> MultiTaskFactory" "f \<noteq> InfoTaskFactory"
    and ts: "call_factory (Suc n) S config f (tc_config t) = Some (Inr ts)"
  then have "f \<noteq> FilesystemFactory" by (auto simp: taskregistry_files)
  with f(2,3) ts show "list_all plain_task ts"
    by (cases f) (auto simp: Let_def dest: one_task_makes [where P = plain_task])
next
  fix d c m and t :: task_config
  assume "file_free (Suc d) t" "TrimSpace (tc_type t) = ''multi''" "multi_config_of (tc_config t) = Inr c"
    "Some m \<in> set (mc_tasks c)"
  then show "file_free d m" by (auto simp: list_all_iff)
qed simp_all

section \<open>What the server answers\<close>

text \<open>
  C1: A server whose configuration has no filesystem task sends a request whose path is not in
  canonical form to the canonical path.  A canonical one without a route is answered 404 with
  the document of that status, and nothing outside is touched.  Every other one, refused,
  failed or panicked, is answered with the JSON content type, the status of its reply, and as
  its body one JSON object that repeats the status and its text; the body is empty if the reply
  holds a value from outside that \<open>encoding/json\<close> refuses, and only then.
\<close>

theorem server_replies:
  assumes "sys_typed S" and "no_files d config" and "routes n S config [] = Some (Inr rs)"
  shows "if cleanPath (rq_path r) \<noteq> rq_path r
         then serve S config env rs r w =
           (\<lparr>wr_header = [(''Location'', redirect_url S r (cleanPath (rq_path r)))], wr_status = Some 301,
             wr_body = []\<rparr>, Some w)
         else
           (case find_route S r rs of
              None \<Rightarrow>
                wr_header (fst (serve S config env rs r w)) = [(''Content-Type'', ''application/json'')] \<and>
                wr_status (fst (serve S config env rs r w)) = Some 404 \<and>
                status_document 404 (wr_body (fst (serve S config env rs r w))) \<and>
                snd (serve S config env rs r w) = Some w
            | Some (rt, vars) \<Rightarrow>
                answered
                  (reply S config (rt_authorizers rt) (rt_endpoint rt) env (rt_task rt) (r\<lparr>rq_vars := vars\<rparr>) w)
                  (fst (serve S config env rs r w)))"
proof (cases "find_route S r rs")
  case None
  have "answered (NewResponse 404) (snd (Write (NewResponse 404) fresh_writer))"
    by (intro Write_answered) simp_all
  moreover have "\<not> list_ex (\<lambda>m. unencodable (snd m)) (rs_data (NewResponse 404))"
    by (simp add: response_json_None [symmetric] not_found_json)
  ultimately show ?thesis
    by (simp add: None serve_def Redirect_eq NotFoundHandler_def answered_def)
next
  case (Some p)
  obtain rt vars where p: "p = (rt, vars)" by (cases p)
  with Some have "rt \<in> set rs" by (simp add: find_route_mem)
  with plain.routes_made [OF assms(2) [unfolded no_files_def] assms(3)] have "plain_task (rt_task rt)"
    by (simp add: list_all_iff)
  then show ?thesis
    by (simp add: plain_task_def serve_def Redirect_eq Some p Handle_answered [OF assms(1)])
qed

lemma typed_site_routes:
  "routes 2 typed_sys (site [(''GET'', shell_method)]) [] =
     Some (Inr [shell_route [(''GET'', shell_method)] shell_method ''GET''])"
  by (simp add: site_defs) (simp add: typed_sys_def sample_sys_def shell_doc_factory site_defs)

lemma site_no_files: "no_files 1 (site [(''GET'', shell_method)])"
  by (simp add: no_files_def site_defs)

theorem server_replies_witness:
  "answered
     (reply typed_sys (site [(''GET'', shell_method)]) [] (rt_endpoint (shell_route [(''GET'', shell_method)] shell_method ''GET''))
        [] (rt_task (shell_route [(''GET'', shell_method)] shell_method ''GET'')) (sample_request\<lparr>rq_vars := []\<rparr>) 0)
     (fst (serve typed_sys (site [(''GET'', shell_method)]) []
        [shell_route [(''GET'', shell_method)] shell_method ''GET''] sample_request 0)) \<and>
   status_document 404
     (wr_body (fst (serve typed_sys (site [(''GET'', shell_method)]) []
        [shell_route [(''GET'', shell_method)] shell_method ''GET''] (sample_request\<lparr>rq_method := ''PUT''\<rparr>) 0)))"
proof -
  let ?rt = "shell_route [(''GET'', shell_method)] shell_method ''GET''"
  have "map upper_char ''GET'' = ''GET''" by code_simp
  then have "find_route typed_sys sample_request [?rt] = Some (?rt, [])"
    and "find_route typed_sys (sample_request\<lparr>rq_method := ''PUT''\<rparr>) [?rt] = None"
    by (simp_all add: route_match_def shell_route_def sample_request_def typed_sys_def sample_sys_def ToUpper_def ascii_def)
  moreover note sample_path_clean
  moreover from this have "cleanPath (rq_path (sample_request\<lparr>rq_method := ''PUT''\<rparr>)) =
      rq_path (sample_request\<lparr>rq_method := ''PUT''\<rparr>)" by simp
  moreover have "rt_authorizers ?rt = []" by (simp add: shell_route_def)
  ultimately show ?thesis
    using server_replies [OF typed_sys_typed site_no_files typed_site_routes, of sample_request "[]" 0]
      server_replies [OF typed_sys_typed site_no_files typed_site_routes, of "sample_request\<lparr>rq_method := ''PUT''\<rparr>" "[]" 0]
    by simp
qed

end
