(* ===== verification/Access.thy ===== *)
theory Access
  imports Built_Routes
begin

text \<open>
  Access control from the configuration to the reply: who gets past the authorizers a
  configuration names for an endpoint and its methods.
\<close>

section \<open>Configured names\<close>

text \<open>
  Every name an endpoint itself lists is configured; for the names of its methods the server
  checks it when it starts.
\<close>

definition names_configured :: "config \<Rightarrow> bool" where
  "names_configured config \<longleftrightarrow>
     list_all (pred_option (\<lambda>e. set (ec_authorizers e) \<subseteq> fst ` set (cf_authorizers config)))
       (cf_endpoints config)"

text \<open>The endpoint a route was built from.\<close>

lemma route_endpoint:
  assumes "routes n S config [] = Some (Inr rs)" and "rt \<in> set rs"
  obtains a e where "GetAuthorizers S authorizer_table config = Inr a" and "rt_authorizers rt = a"
    and "Some e \<in> set (cf_endpoints config)" and "same_endpoint e (rt_endpoint rt)" and "rt_path rt = ec_path e"
proof -
  from routes_ok [OF assms(1)] obtain a
    where a: "GetAuthorizers S authorizer_table config = Inr a" and "list_all (route_ok S config a) rs" .
  with assms(2) obtain e where "rt_authorizers rt = a" "Some e \<in> set (cf_endpoints config)"
    "same_endpoint e (rt_endpoint rt)" "rt_path rt = ec_path (rt_endpoint rt)"
    by (auto simp: list_all_iff route_ok_def)
  with that [OF a] show thesis by (simp add: same_endpoint_def)
qed

lemma route_names:
  assumes "routes n S config [] = Some (Inr rs)" and "rt \<in> set rs" and "names_configured config"
  shows "set (ec_authorizers (rt_endpoint rt)) \<subseteq> fst ` set (cf_authorizers config)"
proof -
  from route_endpoint [OF assms(1,2)] obtain e
    where "Some e \<in> set (cf_endpoints config)" and "same_endpoint e (rt_endpoint rt)" by metis
  with assms(3) show ?thesis by (fastforce simp: names_configured_def list_all_iff same_endpoint_def)
qed

section \<open>The status of a task\<close>

lemma filesystem_status: "rs_status (run_filesystem S c data w) \<in> {200, 404, 500}"
  by (simp add: run_filesystem_def list_directory_def serve_file_def failed_500_def Let_def
      split: sum.split)

lemma task_status:
  assumes "run_task S t r data st = Returns (resp, st')"
  shows "rs_status resp \<noteq> 401"
proof (cases "\<exists>c. t = FilesystemTask c")
  case True
  then obtain c where "t = FilesystemTask c" ..
  with assms filesystem_status [of S c data "snd st"] show ?thesis by auto
next
  case False
  with tasks_report_200 [OF assms] show ?thesis by auto
qed

section \<open>Who gets in\<close>

lemma Authorize_vars: "Authorize S a (r\<lparr>rq_vars := vars\<rparr>) ec w = Authorize S a r ec w"
  by (rule Authorize_cong) simp_all

text \<open>
  C5: On a server whose endpoints list configured authorizers only, whether a request that
  matches a route by its canonical path gets in is decided by the authorizers the configuration names for the endpoint
  and for the method of the request, and by nothing else.  Either all of them accept it in
  order, and then the status is not 401; or one refuses it, and then the answer is 401 and
  nothing was run but the authorizers: the world is as they left it.
\<close>

theorem access_controlled:
  assumes "routes n S config [] = Some (Inr rs)" and "names_configured config"
    and "cleanPath (rq_path r) = rq_path r" and "find_route S r rs = Some (rt, vars)"
  shows "\<exists>a e. GetAuthorizers S authorizer_table config = Inr a \<and>
           Some e \<in> set (cf_endpoints config) \<and> mux_path S (ec_path e) (rq_path r) = Some vars \<and>
           ((\<exists>w1. accepted_by S a r (ec_authorizers e @ tc_authorizers (method_config e (rq_method r))) w w1 \<and>
                  wr_status (fst (serve S config env rs r w)) \<noteq> Some 401) \<or>
            (\<exists>err w1. authorize_names S a r (ec_authorizers e @ tc_authorizers (method_config e (rq_method r))) w =
                        Returns (Some err, w1) \<and>
                      serve S config env rs r w = (snd (Write (NewResponse 401) fresh_writer), Some w1)))"
proof -
  from assms(4) have rt: "rt \<in> set rs" and m: "route_match S r rt = Some vars"
    by (simp_all add: find_route_mem)
  from route_endpoint [OF assms(1) rt] obtain a e where a: "GetAuthorizers S authorizer_table config = Inr a"
    "rt_authorizers rt = a" and e: "Some e \<in> set (cf_endpoints config)" "same_endpoint e (rt_endpoint rt)"
    "rt_path rt = ec_path e" .
  let ?r = "r\<lparr>rq_vars := vars\<rparr>"
  obtain refused w1 params
    where au: "Authorize S (rt_authorizers rt) ?r (rt_endpoint rt) w = Returns (refused, w1)"
      and res: "respond S config (rt_authorizers rt) (rt_endpoint rt) env (rt_task rt) ?r w =
        (if refused = None
         then bind_outcome (run_task S (rt_task rt) ?r params (snd (read_body ?r), w1))
                (\<lambda>(response, st). Returns (add_params ?r (rt_endpoint rt) params response, snd st))
         else Returns (NewResponse 401, w1))"
    by (rule prepared [OF assms(1) rt route_names [OF assms(1) rt assms(2)], of ?r w env]) (rule that)
  have names: "authorize_names S a r (ec_authorizers e @ tc_authorizers (method_config e (rq_method r))) w =
      Returns (refused, w1)"
    using au a(2) by (simp add: Authorize_vars) (simp add: Authorize_def same_endpoint_names [OF e(2)])
  have serve: "serve S config env rs r w =
      Handle S config (rt_authorizers rt) (rt_endpoint rt) env (rt_task rt) ?r w"
    by (simp add: serve_def assms(3,4))
  show ?thesis
  proof (cases refused)
    case None
    have "wr_status (fst (serve S config env rs r w)) \<noteq> Some 401"
      using res None
      by (cases "run_task S (rt_task rt) ?r params (snd (read_body ?r), w1)")
        (auto simp: serve Handle_def Write_fresh Pretty_def dest: task_status)
    moreover from names None have
      "accepted_by S a r (ec_authorizers e @ tc_authorizers (method_config e (rq_method r))) w w1"
      by (simp add: authorize_names_accepts)
    ultimately show ?thesis using a(1) e m by (auto simp: route_match_def split: if_splits)
  next
    case (Some err)
    then have "serve S config env rs r w = (snd (Write (NewResponse 401) fresh_writer), Some w1)"
      using res by (simp add: serve Handle_def)
    with names Some show ?thesis using a(1) e m by (auto simp: route_match_def split: if_splits)
  qed
qed

section \<open>A guarded site\<close>

definition guarded_method :: task_config where
  "guarded_method = shell_method\<lparr>tc_authorizers := [''b'']\<rparr>"

definition guarded_site :: config where
  "guarded_site = (site [(''GET'', guarded_method)])\<lparr>cf_authorizers := cf_authorizers sample_config\<rparr>"

definition guarded_route :: route where
  "guarded_route =
     Route sample_authorizers ''GET'' ''/x'' guarded_method
       (zero_endpoint\<lparr>ec_path := ''/x'', ec_methods := [(''GET'', guarded_method)]\<rparr>)
       (rt_task (shell_route [(''GET'', guarded_method)] guarded_method ''GET''))"

lemma guarded_authorizers: "GetAuthorizers sample_sys authorizer_table guarded_site = Inr sample_authorizers"
proof -
  from sample_config_authorizers
  have "build_authorizers sample_sys authorizer_table (cf_authorizers sample_config) [] = Inr sample_authorizers"
    by (auto simp: GetAuthorizers_def split: sum.splits)
  then show ?thesis
    by (simp add: GetAuthorizers_def guarded_site_def site_def zero_endpoint_def guarded_method_def shell_method_def
      zero_task_config_def) (simp add: sample_authorizers_def)
qed

lemma guarded_routes: "routes 2 sample_sys guarded_site [] = Some (Inr [guarded_route])"
proof -
  have "cf_endpoints guarded_site = cf_endpoints (site [(''GET'', guarded_method)])" by (simp add: guarded_site_def)
  then show ?thesis
    by (simp add: routes_with_def guarded_authorizers numeral_2_eq_2)
      (simp add: site_defs sample_sys_def shell_doc_factory guarded_route_def guarded_method_def)
qed

theorem access_controlled_witness:
  "serve sample_sys guarded_site [] [guarded_route] sample_request 0 =
     (snd (Write (NewResponse 401) fresh_writer), Some 0)"
proof -
  have n: "names_configured guarded_site" by (simp add: names_configured_def guarded_site_def site_defs)
  have "map upper_char ''GET'' = ''GET''" by code_simp
  then have f: "find_route sample_sys sample_request [guarded_route] = Some (guarded_route, [])"
    by (simp add: route_match_def guarded_route_def sample_request_def sample_sys_def ToUpper_def ascii_def)
  have "\<not> accepted_by sample_sys sample_authorizers sample_request [''b''] 0 w" for w
    by (simp add: sample_authorizers_def authorize_basic_def GetBasicAuth_def sample_request_def
        first_value_def split_n2_def)
  moreover have "authorize_names sample_sys sample_authorizers sample_request [''b''] 0 =
      Returns (Some ErrInvalidAuthorizationHeader, 0)"
    by (simp add: sample_authorizers_def authorize_basic_def GetBasicAuth_def sample_request_def
        first_value_def split_n2_def)
  moreover have "ec_authorizers e @ tc_authorizers (method_config e (rq_method sample_request)) = [''b'']"
    if "Some e \<in> set (cf_endpoints guarded_site)" for e
    using that by (auto simp: guarded_site_def site_defs guarded_method_def method_config_def sample_request_def)
  ultimately show ?thesis
    using access_controlled [OF guarded_routes n sample_path_clean f, of 0 "[]"] by (auto simp: guarded_authorizers)
qed

end
