(* ===== verification/Sound_Server.thy ===== *)
theory Sound_Server
  imports Whole_Server Access
begin

text \<open>
  Which configurations make a server that never panics: what the tasks the factories make must
  hold to answer every request, what their configurations must hold for that, and the answers
  of the server with its routes.
\<close>

section \<open>Tasks that answer every request\<close>

fun sound_task :: "task \<Rightarrow> bool" where
  "sound_task (ShellTask c) = (None \<notin> set (sh_commands c) \<and> selects (sh_index c) (sh_commands c))"
| "sound_task (HttpTask c) = (None \<notin> set (ht_urls c) \<and> selects (ht_index c) (ht_urls c))"
| "sound_task (PostgresTask c) = (None \<notin> set (sl_queries c) \<and> selects (sl_index c) (sl_queries c))"
| "sound_task (MySQLTask c) = (None \<notin> set (sl_queries c) \<and> selects (sl_index c) (sl_queries c))"
| "sound_task (RedisTask c) = selects (rc_index c) (rc_queries c)"
| "sound_task (CassandraTask c) = selects (cc_index c) (cc_queries c)"
| "sound_task (FilesystemTask c) = True"
| "sound_task (InfoTask version rts) = True"
| "sound_task (MultiTask c ts) = (selects (mc_index c) ts \<and> list_all sound_task ts)"

lemma on_world_returns: "\<exists>r w'. f (snd st) = Returns (r, w') \<Longrightarrow> \<exists>r st'. on_world f st = Returns (r, st')"
  by (auto simp: on_world_def)

lemma run_redis_returns:
  assumes "selects (rc_index c) (rc_queries c)"
  shows "\<exists>r w'. run_redis S c data w = Returns (r, w')"
proof (cases "Interpolate S (rc_address c) data")
  case Inl
  then show ?thesis by (simp add: run_redis_def)
next
  case (Inr address)
  note address = this
  obtain x w1 where dial: "redis_dial S (rc_network c) address w = (x, w1)" by fastforce
  show ?thesis
  proof (cases x)
    case Inl
    with address dial show ?thesis by (simp add: run_redis_def)
  next
    case (Inr conn)
    from assms have "selects (rc_index c) (fst (run_each (run_redis_query S c data conn) (rc_queries c) w1))"
      by (simp add: selects_def)
    from select_result_selects [OF this, of "NewResponse StatusOK"] show ?thesis
      using address dial Inr by (auto simp: run_redis_def case_prod_unfold)
  qed
qed

lemma sound_returns:
  "sound_task t \<Longrightarrow> \<exists>resp st'. run_task S t r data st = Returns (resp, st')"
  "list_all sound_task ts \<Longrightarrow> \<exists>resps st'. run_tasks S ts r data st = Returns (resps, st')"
proof (induction S t r data st and S ts r data st rule: run_task_run_tasks.induct)
  case (1 S c r data st)
  then show ?case
    using shell.run_returns [of c S data "snd st"] on_world_returns [of "run_shell S c data" st] by simp
next
  case (2 S c r data st)
  then show ?case using http.run_returns [of c S r data st] by simp
next
  case (3 S c r data st)
  then show ?case
    using postgres.run_returns [of c S data "snd st"] on_world_returns [of "run_postgres S c data" st] by simp
next
  case (4 S c r data st)
  then show ?case
    using mysql.run_returns [of c S data "snd st"] on_world_returns [of "run_mysql S c data" st] by simp
next
  case (5 S c r data st)
  then show ?case
    using run_redis_returns [of c S data "snd st"] on_world_returns [of "run_redis S c data" st]
    by simp
next
  case (6 S c r data st)
  then show ?case
    using cassandra.run_returns [of c S data "snd st"] on_world_returns [of "run_cassandra S c data" st]
    by (simp add: selects_def)
next
  case (9 S c ts r data st)
  from 9 obtain results st1 where run: "run_tasks S ts r data st = Returns (results, st1)" by auto
  from select_result_selects [of "mc_index c" results "NewResponse StatusOK"] 9(2)
  obtain response where "select_result (mc_index c) results (NewResponse StatusOK) = Returns response"
    using selects_length [OF run_tasks_length [OF run]] by auto
  with run show ?case by simp
next
  case (11 S t ts r data st)
  then obtain resp st1 where run: "run_task S t r data st = Returns (resp, st1)" by auto
  have "\<exists>resps st2. run_tasks S ts r data st1 = Returns (resps, st2)"
    by (rule 11(2)) (use 11(3) in simp)
  with run show ?case by auto
qed simp_all

section \<open>Configurations of such tasks\<close>

text \<open>What a task's configuration holds when it can be decoded; if it cannot, no task is made.\<close>

definition decoded :: "'c fields \<Rightarrow> json option \<Rightarrow> 'c \<Rightarrow> ('c \<Rightarrow> bool) \<Rightarrow> bool" where
  "decoded fs raw zero P =
     (case unmarshal_raw fs raw zero of Inl e \<Rightarrow> True | Inr c \<Rightarrow> P c)"

text \<open>
  No \<open>single_result\<close> below -1, no null among the queries of a database task, and for MySQL,
  which is not validated, at least one query; the same for the tasks of a multi task.
\<close>

definition sound_leaf :: "string \<Rightarrow> json option \<Rightarrow> bool" where
  "sound_leaf ty raw \<longleftrightarrow>
     (ty = ''shell'' \<longrightarrow> decoded shell_fields raw NewShellTaskConfig (\<lambda>c. single_answers (sh_single c))) \<and>
     (ty = ''http'' \<longrightarrow> decoded http_fields raw zero_http_config (\<lambda>c. single_answers (ht_single c))) \<and>
     (ty = ''postgres'' \<longrightarrow>
        decoded sql_fields raw zero_sql_config (\<lambda>c. single_answers (sl_single c) \<and> None \<notin> set (sl_queries c))) \<and>
     (ty = ''mysql'' \<longrightarrow>
        decoded sql_fields raw zero_sql_config (\<lambda>c. sl_queries c \<noteq> [] \<and> None \<notin> set (sl_queries c))) \<and>
     (ty = ''redis'' \<longrightarrow> decoded redis_fields raw new_redis_config (\<lambda>c. single_answers (rc_single c))) \<and>
     (ty = ''cassandra'' \<longrightarrow> decoded cassandra_fields raw zero_cassandra_config (\<lambda>c. single_answers (cc_single c)))"

fun sound_config :: "nat \<Rightarrow> task_config \<Rightarrow> bool" where
  "sound_config 0 t = False"
| "sound_config (Suc d) t =
     (sound_leaf (TrimSpace (tc_type t)) (tc_config t) \<and>
      (if TrimSpace (tc_type t) = ''multi''
       then (case multi_config_of (tc_config t) of
               Inl e \<Rightarrow> True
             | Inr c \<Rightarrow> single_answers (mc_single c) \<and> list_all (pred_option (sound_config d)) (mc_tasks c))
       else True))"

section \<open>What the factories make of them\<close>

lemma taskregistry_name:
  "getTaskFactory taskregistry t = Some f \<Longrightarrow>
     t = (case f of CassandraTaskFactory \<Rightarrow> ''cassandra'' | HttpTaskFactory \<Rightarrow> ''http'' | InfoTaskFactory \<Rightarrow> ''info''
            | MySQLTaskFactory \<Rightarrow> ''mysql'' | PostgresTaskFactory \<Rightarrow> ''postgres'' | RedisTaskFactory \<Rightarrow> ''redis''
            | ShellTaskFactory \<Rightarrow> ''shell'' | MultiTaskFactory \<Rightarrow> ''multi'' | FilesystemFactory \<Rightarrow> ''filesystem'')"
  by (auto simp: taskregistry_lookup task_registrations_def split: if_splits)

lemma sound_shell: "sound_leaf ''shell'' raw \<Longrightarrow> ShellFactory formats raw = Inr c \<Longrightarrow> sound_task (ShellTask c)"
  by (auto simp: sound_leaf_def decoded_def ShellFactory_def shell_no_nil shell.single_selects split: sum.splits)

lemma sound_http: "sound_leaf ''http'' raw \<Longrightarrow> HttpFactory formats raw = Inr c \<Longrightarrow> sound_task (HttpTask c)"
  by (auto simp: sound_leaf_def decoded_def HttpFactory_def http_no_nil http.single_selects split: sum.splits)

lemma sound_postgres:
  assumes "sound_leaf ''postgres'' raw" and "PostgresFactory raw = Inr c"
  shows "sound_task (PostgresTask c)"
proof -
  from assms obtain c0 where v: "ValidatePostgres c0 = Inr c"
    and "single_answers (sl_single c0)" "None \<notin> set (sl_queries c0)"
    by (auto simp: sound_leaf_def decoded_def PostgresFactory_def split: sum.splits)
  with postgres.single_selects [OF v] ValidatePostgres_Inr(1) [OF v] show ?thesis by simp
qed

lemma sound_mysql: "sound_leaf ''mysql'' raw \<Longrightarrow> MySQLFactory raw = Inr c \<Longrightarrow> sound_task (MySQLTask c)"
  using MySQLFactory_index [of raw c] by (auto simp: sound_leaf_def decoded_def MySQLFactory_def selects_def)

lemma sound_redis: "sound_leaf ''redis'' raw \<Longrightarrow> RedisFactory raw = Inr c \<Longrightarrow> sound_task (RedisTask c)"
  by (auto simp: sound_leaf_def decoded_def RedisFactory_def split: sum.splits dest: redis.single_selects)

lemma sound_cassandra:
  assumes "sound_leaf ''cassandra'' raw" and "CassandraFactory raw = Inr c"
  shows "sound_task (CassandraTask c)"
proof -
  from assms obtain c0 where "ValidateCassandra c0 = Inr c" "single_answers (cc_single c0)"
    by (auto simp: sound_leaf_def decoded_def CassandraFactory_def split: sum.splits)
  from cassandra.single_selects [OF this] show ?thesis by (simp add: selects_def)
qed

lemma multi_config_sound:
  assumes "multi_config_of raw = Inr c" and "single_answers (mc_single c)" and "length us = length (mc_tasks c)"
  shows "selects (mc_index c) us"
proof -
  from assms(1) obtain c0 where v: "ValidateMulti c0 = Inr c"
    by (auto simp: multi_config_of_def split: sum.splits)
  then have "mc_single c = mc_single c0" by (auto simp: ValidateMulti_def split: if_splits sum.splits)
  with multi.single_selects [OF v] assms(2,3) show ?thesis by (simp add: selects_def)
qed

lemma sound_leaf_made:
  assumes "sound_leaf t raw" and "getTaskFactory taskregistry t = Some f"
    and "f \<noteq> MultiTaskFactory" and "f \<noteq> InfoTaskFactory"
    and "call_factory (Suc n) S config f raw = Some (Inr ts)"
  shows "list_all sound_task ts"
  using assms taskregistry_name [OF assms(2)]
  by (cases f)
    (auto simp: Let_def simp del: sound_task.simps(1-6)
      dest!: one_task_makes [where P = sound_task]
      intro: sound_shell sound_http sound_postgres sound_mysql sound_redis sound_cassandra)

interpretation sound: task_invariant sound_config sound_task S config
proof
  fix d n and t :: task_config and f ts
  assume "sound_config (Suc d) t" and "getTaskFactory taskregistry (TrimSpace (tc_type t)) = Some f"
    "f \<noteq> MultiTaskFactory" "f \<noteq> InfoTaskFactory"
    and "call_factory (Suc n) S config f (tc_config t) = Some (Inr ts)"
  then show "list_all sound_task ts" by (intro sound_leaf_made) auto
next
  fix d c m and t :: task_config
  assume "sound_config (Suc d) t" "TrimSpace (tc_type t) = ''multi''" "multi_config_of (tc_config t) = Inr c"
    "Some m \<in> set (mc_tasks c)"
  then show "sound_config d m" by (auto simp: list_all_iff)
next
  fix d c us and t :: task_config
  assume "sound_config (Suc d) t" "TrimSpace (tc_type t) = ''multi''" and c: "multi_config_of (tc_config t) = Inr c"
    and "list_all sound_task us" and l: "length us = length (mc_tasks c)"
  then show "sound_task (MultiTask c us)" using multi_config_sound [OF c _ l] by simp
qed simp_all

section \<open>What the server answers\<close>

text \<open>Every task of the configuration is sound, and every name an endpoint lists is configured.\<close>

definition sound_server :: "nat \<Rightarrow> config \<Rightarrow> bool" where
  "sound_server d config \<longleftrightarrow>
     list_all (pred_option (\<lambda>e. list_all (\<lambda>m. sound_config d (snd m)) (ec_methods e))) (cf_endpoints config) \<and>
     names_configured config"

lemma sound_respond:
  assumes "routes n S config [] = Some (Inr rs)" and "rt \<in> set rs" and "sound_server d config"
  obtains response w1
    where "respond S config (rt_authorizers rt) (rt_endpoint rt) env (rt_task rt) r w = Returns (response, w1)"
      and "is_files (rt_task rt) \<or> rs_status response \<in> {200, 401}"
proof -
  from assms(3) have c: "names_configured config" by (simp add: sound_server_def)
  have "list_all (\<lambda>rt. sound_task (rt_task rt)) rs"
    by (rule sound.routes_made [where d = d, OF _ assms(1)]) (use assms(3) in \<open>simp add: sound_server_def\<close>)
  with assms(2) have t: "sound_task (rt_task rt)" by (simp add: list_all_iff)
  obtain refused :: "go_error option" and w1 params where res:
    "respond S config (rt_authorizers rt) (rt_endpoint rt) env (rt_task rt) r w =
      (if refused = None
       then bind_outcome (run_task S (rt_task rt) r params (snd (read_body r), w1))
              (\<lambda>(response, st). Returns (add_params r (rt_endpoint rt) params response, snd st))
       else Returns (NewResponse 401, w1))"
    by (rule prepared [OF assms(1,2) route_names [OF assms(1,2) c], of r w env]) (rule that)
  show thesis
  proof (cases refused)
    case None
    from sound_returns(1) [OF t, of S r params "(snd (read_body r), w1)"] obtain resp st
      where run: "run_task S (rt_task rt) r params (snd (read_body r), w1) = Returns (resp, st)" by blast
    have "is_files (rt_task rt) \<or> rs_status resp = 200"
      using tasks_report_200 [OF run] by (cases "rt_task rt") simp_all
    with run res None show thesis by (intro that) auto
  next
    case Some
    with res show thesis by (intro that) auto
  qed
qed

text \<open>
  C4: A server never panics if its configuration asks for no \<open>single_result\<close> below -1, has no null
  among the queries of a database task, gives every MySQL task a query, and configures every
  authorizer an endpoint lists: once its routes are built, every request, whatever it holds and
  whatever the outside world does, is handled to its end.  Without filesystem tasks the status
  is then 200, 401 or 404, or 301 for a path that is not canonical.
\<close>

theorem sound_server_never_panics:
  assumes "sound_server d config" and "routes n S config [] = Some (Inr rs)"
  shows "(\<exists>w1. snd (serve S config env rs r w) = Some w1) \<and>
         (no_files k config \<longrightarrow> wr_status (fst (serve S config env rs r w)) \<in> {Some 200, Some 301, Some 401, Some 404})"
proof (cases "find_route S r rs")
  case None
  then show ?thesis by (simp add: serve_def Redirect_eq NotFoundHandler_def Write_fresh)
next
  case (Some p)
  obtain rt vars where p: "p = (rt, vars)" by (cases p)
  with Some have rt: "rt \<in> set rs" by (simp add: find_route_mem)
  from sound_respond [OF assms(2) rt assms(1), of env "r\<lparr>rq_vars := vars\<rparr>" w] obtain response w1
    where res: "respond S config (rt_authorizers rt) (rt_endpoint rt) env (rt_task rt) (r\<lparr>rq_vars := vars\<rparr>) w =
        Returns (response, w1)" and st: "is_files (rt_task rt) \<or> rs_status response \<in> {200, 401}" .
  have "\<not> is_files (rt_task rt)" if "no_files k config"
    using plain.routes_made [OF that [unfolded no_files_def] assms(2)] rt
    by (simp add: list_all_iff plain_task_def)
  with st show ?thesis by (auto simp: serve_def Redirect_eq Some p Handle_def res Write_fresh)
qed

lemma site_sound: "sound_server 1 (site [(''GET'', shell_method)])"
  by (simp add: sound_server_def names_configured_def site_defs sound_leaf_def decoded_def unmarshal_raw_def decode_value_def
    shell_doc_def find_field_def shell_fields_def shell_command_fields_def field_def dec_string_def dec_slice_def
    dec_ptr_def NewShellTaskConfig_def single_answers_def)

theorem sound_server_never_panics_witness:
  "\<exists>w1. snd (serve typed_sys (site [(''GET'', shell_method)]) []
          [shell_route [(''GET'', shell_method)] shell_method ''GET''] sample_request 0) = Some w1"
  using sound_server_never_panics [OF site_sound typed_site_routes, of "[]" sample_request 0 1] by blast

end
