(* ===== verification/Secrets.thy ===== *)
theory Secrets
  imports Access
begin

text \<open>
  The configuration of the authorizers (passwords, hosts, lists of users) reaches a client only
  through their decisions: two servers that differ in nothing else answer every request alike
  that their authorizers decide alike, the info task included.
\<close>

section \<open>Exchanging the authorizers\<close>

text \<open>The tasks and routes a server would have with other authorizers, at any depth.\<close>

primrec reauth :: "authorizers \<Rightarrow> task \<Rightarrow> task"
  and reauth_route :: "authorizers \<Rightarrow> route \<Rightarrow> route"
where
  "reauth a (ShellTask c1) = ShellTask c1"
| "reauth a (HttpTask c2) = HttpTask c2"
| "reauth a (PostgresTask c3) = PostgresTask c3"
| "reauth a (MySQLTask c4) = MySQLTask c4"
| "reauth a (RedisTask c5) = RedisTask c5"
| "reauth a (CassandraTask c6) = CassandraTask c6"
| "reauth a (FilesystemTask c7) = FilesystemTask c7"
| "reauth a (InfoTask version rts) = InfoTask version (map (reauth_route a) rts)"
| "reauth a (MultiTask c8 ts) = MultiTask c8 (map (reauth a) ts)"
| "reauth_route a (Route old m p tc e t) = Route a m p tc e (reauth a t)"

text \<open>Running a task looks into no authorizer.\<close>

lemma info_endpoint_reauth: "info_endpoint (reauth_route a rt) = info_endpoint rt"
  by (cases rt) (simp add: info_endpoint_def)

lemma run_task_reauth:
  "run_task S (reauth a t) r data st = run_task S t r data st"
  "run_tasks S (map (reauth a) ts) r data st = run_tasks S ts r data st"
proof (induction S t r data st and S ts r data st rule: run_task_run_tasks.induct)
  case (8 S version rts r data st)
  then show ?case by (simp add: run_info_def info_endpoint_reauth o_def)
qed simp_all

section \<open>Building the routes with other authorizers\<close>

abbreviation on_made :: "('a \<Rightarrow> 'b) \<Rightarrow> 'a attempt option \<Rightarrow> 'b attempt option" where
  "on_made f \<equiv> map_option (map_sum id f)"

definition remade :: "authorizers \<Rightarrow> factory_call \<Rightarrow> factory_call \<Rightarrow> bool" where
  "remade a G F \<longleftrightarrow> (\<forall>f raw. G f raw = on_made (map (reauth a)) (F f raw))"

lemma remadeD: "remade a G F \<Longrightarrow> G f raw = on_made (map (reauth a)) (F f raw)"
  by (simp add: remade_def)

lemma build_multi_remade:
  assumes "remade a G F"
  shows "build_multi S G ts (map (reauth a) acc) = on_made (map (reauth a)) (build_multi S F ts acc)"
proof (induction ts arbitrary: acc rule: ptrs_induct)
  case (ptr t ts)
  from ptr.IH [of "acc @ us" for us] show ?case
    by (simp add: remadeD [OF assms] split: sum.split option.split)
qed simp_all

lemma method_loop_remade:
  assumes "remade a G F"
  shows "method_loop G S ign ms e tc0 (map (map_prod id (reauth a)) acc) =
           on_made (map_prod id (map_prod id (map (map_prod id (reauth a))))) (method_loop F S ign ms e tc0 acc)"
proof (induction ms arbitrary: e tc0 acc)
  case Nil
  then show ?case by simp
next
  case (Cons m ms)
  obtain k t where m: "m = (k, t)" by (cases m)
  from Cons.IH [of _ _ "acc @ map (\<lambda>t. (k, t)) us" for us] show ?case
    by (simp add: m remadeD [OF assms] Let_def o_def split: sum.split option.split)
qed

lemma endpoint_routes_remade:
  "endpoint_routes a2 (e, tc, map (map_prod id (reauth a2)) acc) =
     map (reauth_route a2) (endpoint_routes a1 (e, tc, acc))"
  by (auto simp: endpoint_routes_def Path_def)

lemma endpoint_loop_remade:
  assumes "remade a2 G F"
  shows "endpoint_loop G S a2 ign es = on_made (map (reauth_route a2)) (endpoint_loop F S a1 ign es)"
proof (induction es rule: ptrs_induct)
  case (ptr e es)
  have m: "method_loop G S ign ms e' tc0 [] =
      on_made (map_prod id (map_prod id (map (map_prod id (reauth a2))))) (method_loop F S ign ms e' tc0 [])"
    for ms e' tc0 using method_loop_remade [OF assms, of S ign ms e' tc0 "[]"] by simp
  show ?case
    by (auto simp: m ptr.IH endpoint_routes_remade [of a2 _ _ _ a1] split: sum.split option.split)
qed simp_all

lemma routes_remade:
  assumes "GetAuthorizers S authorizer_table config = Inr a1"
    and "GetAuthorizers S authorizer_table (config\<lparr>cf_authorizers := x\<rparr>) = Inr a2"
  shows "remade a2 (call_factory n S (config\<lparr>cf_authorizers := x\<rparr>)) (call_factory n S config) \<and>
         (\<forall>ign. routes n S (config\<lparr>cf_authorizers := x\<rparr>) ign =
            on_made (map (reauth_route a2)) (routes n S config ign))"
proof (induction n)
  case 0
  then show ?case by (simp add: remade_def)
next
  case (Suc n)
  have c: "call_factory (Suc n) S (config\<lparr>cf_authorizers := x\<rparr>) f raw =
      on_made (map (reauth a2)) (call_factory (Suc n) S config f raw)" for f raw
  proof (cases f)
    case MultiTaskFactory
    from Suc build_multi_remade [of a2 "call_factory n S (config\<lparr>cf_authorizers := x\<rparr>)" "call_factory n S config" S _ "[]"]
    show ?thesis by (auto simp: MultiTaskFactory Let_def MultiFactory_def split: sum.split option.split)
  next
    case InfoTaskFactory
    from Suc show ?thesis by (auto simp: InfoTaskFactory Let_def split: sum.split option.split)
  qed (auto simp: Let_def one_task_def split: sum.split)
  moreover from Suc have "routes (Suc n) S (config\<lparr>cf_authorizers := x\<rparr>) ign =
      on_made (map (reauth_route a2)) (routes (Suc n) S config ign)" for ign
    by (simp add: routes_with_def assms endpoint_loop_remade [where ?a1.0 = a1])
  ultimately show ?case unfolding remade_def by blast
qed

section \<open>The answers of the two servers\<close>

lemma route_match_reauth: "route_match S r (reauth_route a rt) = route_match S r rt"
  by (cases rt) (simp add: route_match_def)

lemma find_route_reauth:
  "find_route S r (map (reauth_route a) rs) = map_option (map_prod (reauth_route a) id) (find_route S r rs)"
  by (induction rs) (auto simp: route_match_reauth split: option.split)

text \<open>
  C6: What the authorizers of a server are configured with is not visible in any reply, beyond
  their decision on the request: with other authorizers that decide on it alike, a server with
  otherwise the same configuration builds its routes as well, and answers the request with the
  same status, headers and body and leaves the world the same.
\<close>

theorem credentials_not_shown:
  assumes "routes n S config [] = Some (Inr rs)"
    and "GetAuthorizers S authorizer_table config = Inr a1"
    and "GetAuthorizers S authorizer_table (config\<lparr>cf_authorizers := x\<rparr>) = Inr a2"
    and "\<And>e names. Some e \<in> set (cf_endpoints config) \<Longrightarrow>
           names = ec_authorizers e @ tc_authorizers (method_config e (rq_method r)) \<Longrightarrow>
           authorize_names S a1 r names w = authorize_names S a2 r names w"
  shows "\<exists>rs2. routes n S (config\<lparr>cf_authorizers := x\<rparr>) [] = Some (Inr rs2) \<and>
               serve S (config\<lparr>cf_authorizers := x\<rparr>) env rs2 r w = serve S config env rs r w"
proof (intro exI conjI)
  let ?c2 = "config\<lparr>cf_authorizers := x\<rparr>" and ?rs2 = "map (reauth_route a2) rs"
  show "routes n S ?c2 [] = Some (Inr ?rs2)"
    using routes_remade [OF assms(2,3), of n] assms(1) by simp
  show "serve S ?c2 env ?rs2 r w = serve S config env rs r w"
  proof (cases "find_route S r rs")
    case None
    then show ?thesis by (simp add: serve_def find_route_reauth)
  next
    case (Some p)
    obtain rt vars where p: "p = (rt, vars)" by (cases p)
    with Some have "rt \<in> set rs" by (simp add: find_route_mem)
    from route_endpoint [OF assms(1) this] assms(2) obtain e where e: "Some e \<in> set (cf_endpoints config)"
      "same_endpoint e (rt_endpoint rt)" and a: "rt_authorizers rt = a1" by (metis sum.inject(2))
    let ?r = "r\<lparr>rq_vars := vars\<rparr>"
    have "Authorize S a1 ?r (rt_endpoint rt) w = Authorize S a2 ?r (rt_endpoint rt) w"
      unfolding Authorize_vars using assms(4) [OF e(1) refl]
      by (simp add: Authorize_def same_endpoint_names [OF e(2)])
    moreover have "run_task S (reauth a2 t) = run_task S t" for t by (intro ext) (rule run_task_reauth)
    moreover have "cf_reload_env ?c2 = cf_reload_env config" "cf_pretty_json ?c2 = cf_pretty_json config" by simp_all
    ultimately have h: "Handle S ?c2 a2 (rt_endpoint rt) env (reauth a2 (rt_task rt)) ?r w =
        Handle S config a1 (rt_endpoint rt) env (rt_task rt) ?r w"
      unfolding Handle_def respond_def by (simp only:)
    from a h show ?thesis by (cases rt) (simp add: serve_def find_route_reauth Some p)
  qed
qed

section \<open>A site with another password\<close>

definition other_password :: "(string \<times> authorizer_config option) list" where
  "other_password =
     [(''b'', Some \<lparr>ac_type = ''basic'',
               ac_config = Some (JObj [(''username'', JStr ''u''), (''password'', JStr ''q'')])\<rparr>)]"

definition other_authorizers :: authorizers where
  "other_authorizers = [(''b'', BasicAuthorizer \<lparr>bc_username = ''u'', bc_password = ''q''\<rparr>)]"

lemma other_password_authorizers:
  "GetAuthorizers sample_sys authorizer_table (guarded_site\<lparr>cf_authorizers := other_password\<rparr>) = Inr other_authorizers"
proof -
  have l: "lookup_authorizer authorizer_table ''basic'' = Some BasicAuthorizerFactory"
    by (simp add: authorizer_table_lookup authorizer_registrations_def)
  show ?thesis
    by (simp add: GetAuthorizers_def other_password_def ValidateAuthorizer_def AuthorizerExists_lookup l
      new_basic_def unmarshal_raw_def decode_value_def find_field_def basic_fields_def field_def dec_string_def
      other_authorizers_def guarded_site_def site_def zero_endpoint_def guarded_method_def shell_method_def
      zero_task_config_def)
qed

theorem credentials_not_shown_witness:
  "\<exists>rs2. routes 2 sample_sys (guarded_site\<lparr>cf_authorizers := other_password\<rparr>) [] = Some (Inr rs2) \<and>
         serve sample_sys (guarded_site\<lparr>cf_authorizers := other_password\<rparr>) [] rs2 sample_request 0 =
           serve sample_sys guarded_site [] [guarded_route] sample_request 0"
proof (rule credentials_not_shown [OF guarded_routes guarded_authorizers other_password_authorizers])
  fix e names
  assume "Some e \<in> set (cf_endpoints guarded_site)"
    and "names = ec_authorizers e @ tc_authorizers (method_config e (rq_method sample_request))"
  then have "names = [''b'']"
    by (auto simp: guarded_site_def site_defs guarded_method_def method_config_def sample_request_def)
  then show "authorize_names sample_sys sample_authorizers sample_request names 0 =
      authorize_names sample_sys other_authorizers sample_request names 0"
    by (simp add: sample_authorizers_def other_authorizers_def authorize_basic_def GetBasicAuth_def
        sample_request_def first_value_def split_n2_def)
qed

end
