(* ===== verification/Registry_Lock.thy ===== *)
theory Registry_Lock
  imports Auth
begin

text \<open>
  The locks around the three registries (\<open>taskregistrylock\<close>, \<open>authorizerslock\<close>,
  \<open>formatslock\<close>, each a \<open>sync.RWMutex\<close>), and the goroutines that take them.  A call of a
  registry function is a program of lock operations and accesses to the map; the mutex is a
  step relation with the documented behaviour of \<open>sync.RWMutex\<close>: a writer first announces
  itself, which keeps new readers out, and then waits until the readers have left.
\<close>

section \<open>Programs and states\<close>

text \<open>
  What is left of a call.  \<open>Find\<close> reads the map under the lock and goes on with whether the id
  is there; \<open>Insert\<close> is the guarded assignment of a registration and goes on with whether it
  was new (otherwise the call panics).  \<open>Done\<close> says whether the call succeeded.
\<close>

datatype 'f prog =
    Done bool
  | Lock "'f prog"
  | Unlock "'f prog"
  | RLock "'f prog"
  | RUnlock "'f prog"
  | Find string "bool \<Rightarrow> 'f prog"
  | Insert string 'f "bool \<Rightarrow> 'f prog"

text \<open>The functions of the registries, with their deferred unlocks at every exit.\<close>

definition register_call :: "string \<Rightarrow> 'f \<Rightarrow> 'f prog" where
  "register_call k f = Lock (Insert k f (\<lambda>ok. Unlock (Done ok)))"

definition exists_call :: "string \<Rightarrow> 'f prog" where
  "exists_call k = RLock (Find k (\<lambda>ok. RUnlock (Done ok)))"

text \<open>
  \<open>GetAuthorizers\<close>: for every authorizer, \<open>Validate\<close> calls \<open>AuthorizerExists\<close>, which takes the
  read lock the caller already holds; then the factory is read and run.  The list gives the
  type of each configured authorizer and whether its factory succeeds; a nil configuration
  panics in \<open>Validate\<close>, and the deferred unlock still runs.
\<close>

primrec get_loop :: "(string \<times> bool) option list \<Rightarrow> 'f prog" where
  "get_loop [] = RUnlock (Done True)"
| "get_loop (ac # acs) =
     (case ac of
        None \<Rightarrow> RUnlock (Done False)
      | Some a \<Rightarrow>
          RLock (Find (fst a) (\<lambda>valid. RUnlock
            (if valid
             then Find (fst a) (\<lambda>found. if found \<and> snd a then get_loop acs else RUnlock (Done False))
             else RUnlock (Done False)))))"

definition get_call :: "(string \<times> bool) option list \<Rightarrow> 'f prog" where
  "get_call acs = RLock (get_loop acs)"

record 'f locked =
  readers :: "nat \<Rightarrow> nat"
  pending :: "nat option"
  holder :: "nat option"
  table :: "(string \<times> 'f) list"
  progs :: "nat \<Rightarrow> 'f prog"

definition start :: "(string \<times> 'f) list \<Rightarrow> (nat \<Rightarrow> 'f prog) \<Rightarrow> 'f locked" where
  "start t ps = \<lparr>readers = (\<lambda>_. 0), pending = None, holder = None, table = t, progs = ps\<rparr>"

abbreviation goes_on :: "nat \<Rightarrow> 'f prog \<Rightarrow> 'f locked \<Rightarrow> 'f locked" where
  "goes_on i p s \<equiv> s\<lparr>progs := (progs s)(i := p)\<rparr>"

text \<open>The step of goroutine \<open>i\<close>.\<close>

inductive lock_step :: "nat \<Rightarrow> 'f locked \<Rightarrow> 'f locked \<Rightarrow> bool" for i where
  announce: "progs s i = Lock p \<Longrightarrow> pending s = None \<Longrightarrow> holder s = None \<Longrightarrow>
     lock_step i s (s\<lparr>pending := Some i\<rparr>)"
| acquire: "progs s i = Lock p \<Longrightarrow> pending s = Some i \<Longrightarrow> \<forall>j. readers s j = 0 \<Longrightarrow>
     lock_step i s (goes_on i p s\<lparr>pending := None, holder := Some i\<rparr>)"
| unlock: "progs s i = Unlock p \<Longrightarrow> holder s = Some i \<Longrightarrow>
     lock_step i s (goes_on i p s\<lparr>holder := None\<rparr>)"
| rlock: "progs s i = RLock p \<Longrightarrow> pending s = None \<Longrightarrow> holder s = None \<Longrightarrow>
     lock_step i s (goes_on i p s\<lparr>readers := (readers s)(i := Suc (readers s i))\<rparr>)"
| runlock: "progs s i = RUnlock p \<Longrightarrow> readers s i = Suc n \<Longrightarrow>
     lock_step i s (goes_on i p s\<lparr>readers := (readers s)(i := n)\<rparr>)"
| found: "progs s i = Find k q \<Longrightarrow>
     lock_step i s (goes_on i (q (map_of (table s) k \<noteq> None)) s)"
| inserted: "progs s i = Insert k f q \<Longrightarrow> map_of (table s) k = None \<Longrightarrow>
     lock_step i s (goes_on i (q True) s\<lparr>table := AList.update k f (table s)\<rparr>)"
| refused: "progs s i = Insert k f q \<Longrightarrow> map_of (table s) k \<noteq> None \<Longrightarrow>
     lock_step i s (goes_on i (q False) s)"

inductive steps :: "nat \<Rightarrow> 'f locked \<Rightarrow> 'f locked \<Rightarrow> bool" where
  none: "steps 0 s s"
| more: "steps n s t \<Longrightarrow> lock_step i t u \<Longrightarrow> steps (Suc n) s u"

inductive_cases lock_stepE: "lock_step i s t"

text \<open>An insertion does what the registration functions of the three registries do.\<close>

lemma inserted_registers:
  "(\<exists>t'. RegisterAuthorizer k f t = Returns t') \<longleftrightarrow> map_of t k = None"
  "map_of t k = None \<Longrightarrow> RegisterAuthorizer k f t = Returns (AList.update k f t)"
  by (simp_all add: RegisterAuthorizer_def)

lemma inserted_task:
  "map_of t k = None \<Longrightarrow> RegisterTaskFactory k g t = Returns (AList.update k g t)"
  by (simp add: RegisterTaskFactory_def)

lemma inserted_format:
  "map_of t k = None \<Longrightarrow> RegisterFormat k h t = Returns (AList.update k h t)"
  by (simp add: RegisterFormat_def)

section \<open>Mutual exclusion\<close>

text \<open>
  A program that accesses the map only under the lock and gives back every lock it takes, when
  it holds \<open>r\<close> read locks and, if \<open>w\<close>, the write lock.
\<close>

primrec bracketed :: "'f prog \<Rightarrow> nat \<Rightarrow> bool \<Rightarrow> bool" where
  "bracketed (Done ok) r w = (r = 0 \<and> \<not> w)"
| "bracketed (Lock p) r w = (r = 0 \<and> \<not> w \<and> bracketed p 0 True)"
| "bracketed (Unlock p) r w = (w \<and> bracketed p r False)"
| "bracketed (RLock p) r w = (\<not> w \<and> bracketed p (Suc r) False)"
| "bracketed (RUnlock p) r w = (0 < r \<and> bracketed p (r - 1) w)"
| "bracketed (Find k q) r w = ((0 < r \<or> w) \<and> (bracketed \<circ> q) True r w \<and> (bracketed \<circ> q) False r w)"
| "bracketed (Insert k f q) r w = (w \<and> (bracketed \<circ> q) True r w \<and> (bracketed \<circ> q) False r w)"

declare bracketed.simps(6,7) [simp del]

lemma bracketed_access [simp]:
  "bracketed (Find k q) r w = ((0 < r \<or> w) \<and> (\<forall>b. bracketed (q b) r w))"
  "bracketed (Insert k f q) r w = (w \<and> (\<forall>b. bracketed (q b) r w))"
  by (auto simp: bracketed.simps(6,7) all_bool_eq)

lemma register_call_bracketed: "bracketed (register_call k f) 0 False"
  by (simp add: register_call_def)

lemma exists_call_bracketed: "bracketed (exists_call k) 0 False"
  by (simp add: exists_call_def)

lemma get_loop_bracketed: "bracketed (get_loop acs) (Suc 0) False"
  by (induction acs rule: ptrs_induct) simp_all

lemma get_call_bracketed: "bracketed (get_call acs) 0 False"
  by (simp add: get_call_def get_loop_bracketed)

text \<open>The calls the registries offer, and calls that have returned.\<close>

definition registry_call :: "'f prog \<Rightarrow> bool" where
  "registry_call p \<longleftrightarrow>
     (\<exists>k f. p = register_call k f) \<or> (\<exists>k. p = exists_call k) \<or> (\<exists>acs. p = get_call acs) \<or>
     (\<exists>ok. p = Done ok)"

lemma registry_call_bracketed: "registry_call p \<Longrightarrow> bracketed p 0 False"
  by (auto simp: registry_call_def register_call_bracketed exists_call_bracketed get_call_bracketed)

definition lock_inv :: "'f locked \<Rightarrow> bool" where
  "lock_inv s \<longleftrightarrow>
     (\<forall>i. bracketed (progs s i) (readers s i) (holder s = Some i)) \<and>
     (holder s \<noteq> None \<longrightarrow> (\<forall>j. readers s j = 0) \<and> pending s = None) \<and>
     (\<forall>i. pending s = Some i \<longrightarrow> (\<exists>p. progs s i = Lock p))"

lemma lock_inv_start: "\<forall>i. bracketed (ps i) 0 False \<Longrightarrow> lock_inv (start t ps)"
  by (simp add: lock_inv_def start_def)

lemma lock_invD:
  assumes "lock_inv s"
  shows "bracketed (progs s i) (readers s i) (holder s = Some i)"
    and "holder s = Some h \<Longrightarrow> readers s j = 0" and "holder s = Some h \<Longrightarrow> pending s = None"
    and "pending s = Some i \<Longrightarrow> \<exists>p. progs s i = Lock p"
  using assms by (auto simp: lock_inv_def)

text \<open>A step of goroutine \<open>i\<close> keeps the invariant if its own part still holds.\<close>

lemma lock_inv_move:
  assumes s: "lock_inv s" and t: "progs t = (progs s)(i := p)" "readers t = (readers s)(i := r)"
    and own: "bracketed p r (holder t = Some i)"
    and others: "\<And>j. j \<noteq> i \<Longrightarrow> holder t = Some j \<longleftrightarrow> holder s = Some j"
    and held: "\<And>h. holder t = Some h \<Longrightarrow> (\<forall>j. readers t j = 0) \<and> pending t = None"
    and waits: "\<And>j. pending t = Some j \<Longrightarrow> j \<noteq> i \<and> pending s = Some j"
  shows "lock_inv t"
  unfolding lock_inv_def
proof (intro conjI allI impI)
  fix j
  show "bracketed (progs t j) (readers t j) (holder t = Some j)"
  proof (cases "j = i")
    case True
    with own show ?thesis by (simp add: t)
  next
    case False
    with lock_invD(1) [OF s, of j] others show ?thesis by (simp add: t)
  qed
  assume "pending t = Some j"
  with waits lock_invD(4) [OF s, of j] show "\<exists>p. progs t j = Lock p" by (simp add: t)
qed (use held in auto)

lemma lock_inv_step: "lock_step i s t \<Longrightarrow> lock_inv s \<Longrightarrow> lock_inv t"
proof (induction rule: lock_step.induct)
  case (announce s p)
  then show ?case by (auto simp: lock_inv_def)
next
  case (acquire s p)
  note inv = lock_invD [OF acquire(4)]
  have "holder s = None" using inv(3) acquire(2) by (cases "holder s") auto
  then show ?case using acquire inv(1) [of i]
    by (intro lock_inv_move [OF acquire(4), of _ i p 0]) (auto simp: fun_eq_iff)
next
  case (unlock s p)
  note inv = lock_invD [OF unlock(3)]
  show ?case using unlock inv(1) [of i] inv(2,3) [OF unlock(2)]
    by (intro lock_inv_move [OF unlock(3), of _ i p 0]) (auto simp: fun_eq_iff)
next
  case (rlock s p)
  show ?case using rlock lock_invD(1) [OF rlock(4), of i]
    by (intro lock_inv_move [OF rlock(4), of _ i p "Suc (readers s i)"]) auto
next
  case (runlock s p n)
  note inv = lock_invD [OF runlock(3)]
  have "holder s = None" using inv(2) runlock(2) by (cases "holder s") fastforce+
  then show ?case using runlock inv(1) [of i] inv(4) [of i]
    by (intro lock_inv_move [OF runlock(3), of _ i p n]) auto
next
  case (found s k q)
  note inv = lock_invD [OF found(2)]
  have "bracketed (q b) (readers s i) (holder s = Some i)" for b
    using inv(1) [of i] found(1) by simp
  then show ?case using found inv(2,3) inv(4) [of i]
    by (intro lock_inv_move [OF found(2), of _ i _ "readers s i"]) auto
next
  case (inserted s k f q)
  note inv = lock_invD [OF inserted(3)]
  have "bracketed (q b) (readers s i) (holder s = Some i)" for b
    using inv(1) [of i] inserted(1) by auto
  then show ?case using inserted inv(2,3) inv(4) [of i]
    by (intro lock_inv_move [OF inserted(3), of _ i _ "readers s i"]) auto
next
  case (refused s k f q)
  note inv = lock_invD [OF refused(3)]
  have "bracketed (q b) (readers s i) (holder s = Some i)" for b
    using inv(1) [of i] refused(1) by auto
  then show ?case using refused inv(2,3) inv(4) [of i]
    by (intro lock_inv_move [OF refused(3), of _ i _ "readers s i"]) auto
qed

lemma reachable_inv:
  "steps n s t \<Longrightarrow> lock_inv s \<Longrightarrow> lock_inv t"
  by (induction rule: steps.induct) (auto intro: lock_inv_step)

text \<open>
  C16: Calls of the registry functions never race on the map, in any interleaving: while one
  goroutine is about to change it, no other goroutine is about to read or change it.
\<close>

theorem race_free:
  assumes "\<forall>i. registry_call (ps i)" and "steps n (start t ps) s"
    and "progs s i = Insert k f q" and "i \<noteq> j"
  shows "(\<forall>k' q'. progs s j \<noteq> Find k' q') \<and> (\<forall>k' f' q'. progs s j \<noteq> Insert k' f' q')"
proof -
  have inv: "lock_inv s"
    using reachable_inv [OF assms(2)] lock_inv_start [of ps t] assms(1) registry_call_bracketed by blast
  have h: "holder s = Some i" using lock_invD(1) [OF inv, of i] assms(3) by auto
  have "bracketed (progs s j) 0 False"
    using lock_invD(1) [OF inv, of j] lock_invD(2) [OF inv h] h assms(4) by auto
  then show ?thesis by auto
qed

section \<open>Nested read locks\<close>

text \<open>A server that starts while another goroutine registers an authorizer.\<close>

definition server_and_registration :: "(string \<times> bool) option list \<Rightarrow> string \<Rightarrow> 'f \<Rightarrow> nat \<Rightarrow> 'f prog" where
  "server_and_registration acs k f i =
     (if i = 0 then get_call acs else if i = 1 then register_call k f else Done True)"

text \<open>
  C18: \<open>GetAuthorizers\<close> takes the read lock a second time, through \<open>Validate\<close> and
  \<open>AuthorizerExists\<close>.  If a registration announces itself in between, the two calls wait for
  each other for ever.  (The package registers in \<open>init\<close> only, but \<open>RegisterAuthorizer\<close> is
  exported.)
\<close>

theorem nested_rlock_deadlock:
  "\<exists>s. steps 2 (start t (server_and_registration (Some a # acs) k f)) s \<and>
       (\<forall>i u. \<not> lock_step i s u) \<and>
       progs s 0 = get_loop (Some a # acs) \<and> readers s 0 = 1 \<and>
       progs s 1 = register_call k f \<and> pending s = Some 1"
proof -
  let ?ps = "server_and_registration (Some a # acs) k f"
  let ?s0 = "start t ?ps"
  let ?s1 = "goes_on 0 (get_loop (Some a # acs)) ?s0\<lparr>readers := (readers ?s0)(0 := Suc (readers ?s0 0))\<rparr>"
  let ?s2 = "?s1\<lparr>pending := Some 1\<rparr>"
  have "lock_step 0 ?s0 ?s1"
    by (rule lock_step.rlock) (simp_all add: start_def server_and_registration_def get_call_def)
  moreover have "lock_step 1 ?s1 ?s2"
    by (rule lock_step.announce [where p = "Insert k f (\<lambda>ok. Unlock (Done ok))"])
      (simp_all add: start_def server_and_registration_def register_call_def)
  ultimately have "steps 2 ?s0 ?s2"
    unfolding numeral_2_eq_2 by (intro steps.more [OF steps.more [OF steps.none]])
  moreover have "\<not> lock_step i ?s2 u" for i u
    by (auto elim!: lock_stepE
        simp: start_def server_and_registration_def register_call_def split: if_splits)
  ultimately show ?thesis
    by (intro exI [of _ ?s2]) (simp add: start_def server_and_registration_def)
qed

section \<open>When every call finishes\<close>

text \<open>Programs that never take a read lock while they hold one, and programs without writers.\<close>

primrec flat :: "'f prog \<Rightarrow> nat \<Rightarrow> bool" where
  "flat (Done ok) r = True"
| "flat (Lock p) r = flat p r"
| "flat (Unlock p) r = flat p r"
| "flat (RLock p) r = (r = 0 \<and> flat p 1)"
| "flat (RUnlock p) r = flat p (r - 1)"
| "flat (Find k q) r = ((flat \<circ> q) True r \<and> (flat \<circ> q) False r)"
| "flat (Insert k f q) r = ((flat \<circ> q) True r \<and> (flat \<circ> q) False r)"

primrec writer_free :: "'f prog \<Rightarrow> bool" where
  "writer_free (Done ok) = True"
| "writer_free (Lock p) = False"
| "writer_free (Unlock p) = writer_free p"
| "writer_free (RLock p) = writer_free p"
| "writer_free (RUnlock p) = writer_free p"
| "writer_free (Find k q) = ((writer_free \<circ> q) True \<and> (writer_free \<circ> q) False)"
| "writer_free (Insert k f q) = ((writer_free \<circ> q) True \<and> (writer_free \<circ> q) False)"

declare flat.simps(6,7) [simp del] writer_free.simps(6,7) [simp del]

lemma flat_access [simp]:
  "flat (Find k q) r = (\<forall>b. flat (q b) r)" "flat (Insert k f q) r = (\<forall>b. flat (q b) r)"
  "writer_free (Find k q) = (\<forall>b. writer_free (q b))" "writer_free (Insert k f q) = (\<forall>b. writer_free (q b))"
  by (auto simp: flat.simps(6,7) writer_free.simps(6,7) all_bool_eq)

lemma flat_step:
  "lock_step i s t \<Longrightarrow> \<forall>j. flat (progs s j) (readers s j) \<Longrightarrow> \<forall>j. flat (progs t j) (readers t j)"
  by (erule lock_step.cases; simp) (metis diff_Suc_1 One_nat_def flat.simps flat_access)+

lemma writer_free_step:
  "lock_step i s t \<Longrightarrow> pending s = None \<and> (\<forall>j. writer_free (progs s j)) \<Longrightarrow>
     pending t = None \<and> (\<forall>j. writer_free (progs t j))"
  by (erule lock_step.cases; simp) (metis writer_free.simps flat_access)+

definition finished :: "'f locked \<Rightarrow> bool" where
  "finished s \<longleftrightarrow> (\<forall>i. \<exists>ok. progs s i = Done ok)"

lemma progress:
  assumes inv: "lock_inv s"
    and ok: "(\<forall>j. flat (progs s j) (readers s j)) \<or> (pending s = None \<and> (\<forall>j. writer_free (progs s j)))"
    and "\<not> finished s"
  shows "\<exists>i t. lock_step i s t"
proof (rule ccontr)
  assume "\<nexists>i t. lock_step i s t"
  then have stuck: "\<not> lock_step i s t" for i t by blast
  note inv' = lock_invD [OF inv]
  have find: "progs s i \<noteq> Find k q" for i k q using stuck lock_step.found by blast
  have insert: "progs s i \<noteq> Insert k f q" for i k f q
  proof
    assume i: "progs s i = Insert k f q"
    show False
    proof (cases "map_of (table s) k = None")
      case True
      from lock_step.inserted [OF i True] stuck show ?thesis by blast
    next
      case False
      from lock_step.refused [OF i False] stuck show ?thesis by blast
    qed
  qed
  have runlock: "progs s i \<noteq> RUnlock p" for i p
    using stuck [of i] inv'(1) [of i] lock_step.runlock [of s i p] by (cases "readers s i") auto
  have free: "holder s = None"
  proof (cases "holder s")
    case (Some h)
    with inv'(1) [of h] inv'(2) [OF Some, of h] find insert runlock obtain p where "progs s h = Unlock p"
      by (cases "progs s h") auto
    with stuck Some lock_step.unlock show ?thesis by blast
  qed
  then have unlock: "progs s i \<noteq> Unlock p" for i p using inv'(1) [of i] by auto
  show False
  proof (cases "pending s")
    case None
    with stuck free lock_step.announce lock_step.rlock
    have "progs s i \<noteq> Lock p" "progs s i \<noteq> RLock p" for i p by blast+
    with find insert runlock unlock have "\<exists>ok. progs s i = Done ok" for i
      by (cases "progs s i") auto
    with \<open>\<not> finished s\<close> show False by (simp add: finished_def)
  next
    case (Some h)
    then obtain p where p: "progs s h = Lock p" using inv'(4) by blast
    with Some stuck lock_step.acquire obtain j where j: "readers s j \<noteq> 0" by blast
    from Some ok have "flat (progs s j) (readers s j)" by auto
    with j inv'(1) [of j] find insert runlock unlock show False
      by (cases "progs s j") auto
  qed
qed

text \<open>How many steps are left at most, when the goroutines are below \<open>n\<close>.\<close>

primrec depth :: "'f prog \<Rightarrow> nat" where
  "depth (Done ok) = 0"
| "depth (Lock p) = Suc (depth p)"
| "depth (Unlock p) = Suc (depth p)"
| "depth (RLock p) = Suc (depth p)"
| "depth (RUnlock p) = Suc (depth p)"
| "depth (Find k q) = Suc (max ((depth \<circ> q) True) ((depth \<circ> q) False))"
| "depth (Insert k f q) = Suc (max ((depth \<circ> q) True) ((depth \<circ> q) False))"

definition load :: "nat \<Rightarrow> (nat \<Rightarrow> 'f prog) \<Rightarrow> nat" where
  "load n ps = (\<Sum>i<n. depth (ps i))"

definition work :: "nat \<Rightarrow> 'f locked \<Rightarrow> nat" where
  "work n s = 2 * load n (progs s) + (if pending s = None then 1 else 0)"

lemma depth_branch: "depth (q b) < Suc (max ((depth \<circ> q) True) ((depth \<circ> q) False))"
  by (cases b) simp_all

lemma load_less:
  assumes "i < n" and "depth p < depth (ps i)"
  shows "load n (ps(i := p)) < load n ps"
  unfolding load_def by (rule sum_strict_mono_ex1) (use assms in auto)

lemma step_work:
  assumes "lock_step i s t" and "i < n"
  shows "Suc (work n t) \<le> work n s"
proof -
  note less = load_less [OF assms(2), where ps = "progs s"]
  from assms(1) show ?thesis
  proof (cases rule: lock_step.cases)
    case (acquire p)
    with less [of p] show ?thesis by (simp add: work_def)
  next
    case (found k q)
    with less [of "q (map_of (table s) k \<noteq> None)"] depth_branch [of q] show ?thesis by (simp add: work_def)
  next
    case (inserted k f q)
    with less [of "q True"] depth_branch [of q True] show ?thesis by (simp add: work_def)
  next
    case (refused k f q)
    with less [of "q False"] depth_branch [of q False] show ?thesis by (simp add: work_def)
  next
    case (unlock p)
    with less [of p] show ?thesis by (simp add: work_def)
  next
    case (rlock p)
    with less [of p] show ?thesis by (simp add: work_def)
  next
    case (runlock p m)
    with less [of p] show ?thesis by (simp add: work_def)
  qed (simp add: work_def)
qed

text \<open>A finished goroutine stays as it is.\<close>

lemma done_stays: "lock_step i s t \<Longrightarrow> progs s j = Done ok \<Longrightarrow> progs t j = Done ok \<and> i \<noteq> j"
  by (erule lock_step.cases) auto

lemma run_work:
  assumes "steps m s t" and "\<forall>i \<ge> n. \<exists>ok. progs s i = Done ok"
  shows "m + work n t \<le> work n s \<and> (\<forall>i \<ge> n. \<exists>ok. progs t i = Done ok)"
  using assms
proof (induction rule: steps.induct)
  case (none s)
  then show ?case by simp
next
  case (more m s t i u)
  then have ih: "m + work n t \<le> work n s" "\<forall>i \<ge> n. \<exists>ok. progs t i = Done ok" by blast+
  have "i < n"
  proof (rule ccontr)
    assume "\<not> i < n"
    with ih(2) obtain ok where "progs t i = Done ok" by (meson not_less)
    with done_stays [OF more.hyps(2)] show False by blast
  qed
  from step_work [OF more.hyps(2) this] ih(1) have "Suc m + work n u \<le> work n s" by simp
  moreover have "\<forall>i \<ge> n. \<exists>ok. progs u i = Done ok" using ih(2) done_stays [OF more.hyps(2)] by metis
  ultimately show ?case by blast
qed

lemma run_flat:
  "steps m s t \<Longrightarrow> \<forall>j. flat (progs s j) (readers s j) \<Longrightarrow> \<forall>j. flat (progs t j) (readers t j)"
  by (induction rule: steps.induct) (simp, metis flat_step)

lemma run_writer_free:
  "steps m s t \<Longrightarrow> pending s = None \<and> (\<forall>j. writer_free (progs s j)) \<Longrightarrow>
     pending t = None \<and> (\<forall>j. writer_free (progs t j))"
  by (induction rule: steps.induct) (simp, metis writer_free_step)

lemma get_call_writer_free: "writer_free (get_call acs)"
proof -
  have "writer_free (get_loop acs)" by (induction acs rule: ptrs_induct) simp_all
  then show ?thesis by (simp add: get_call_def)
qed

lemma registry_call_flat: "registry_call p \<Longrightarrow> \<forall>acs. p \<noteq> get_call acs \<Longrightarrow> flat p 0"
  by (auto simp: registry_call_def register_call_def exists_call_def)

lemma registry_call_writer_free:
  "registry_call p \<Longrightarrow> \<forall>k f. p \<noteq> register_call k f \<Longrightarrow> writer_free p"
  by (auto simp: registry_call_def exists_call_def get_call_writer_free)

text \<open>
  C17: Without \<open>GetAuthorizers\<close>, or without registrations, all calls finish, however the goroutines
  are scheduled: a run is never longer than a fixed bound, and as long as a call has not
  finished some goroutine can go on.
\<close>

theorem calls_finish:
  assumes "\<forall>i. registry_call (ps i)" and "\<forall>i \<ge> n. \<exists>ok. ps i = Done ok"
    and "(\<forall>i acs. ps i \<noteq> get_call acs) \<or> (\<forall>i k f. ps i \<noteq> register_call k f)"
    and "steps m (start t ps) s"
  shows "m \<le> Suc (2 * load n ps) \<and> (finished s \<or> (\<exists>i u. lock_step i s u))"
proof -
  let ?s0 = "start t ps"
  have "lock_inv s"
    using reachable_inv [OF assms(4)] lock_inv_start [of ps t] assms(1) registry_call_bracketed by blast
  moreover have "(\<forall>i. flat (ps i) 0) \<or> (\<forall>i. writer_free (ps i))"
    using assms(1,3) registry_call_flat registry_call_writer_free by metis
  moreover from this have "(\<forall>j. flat (progs s j) (readers s j)) \<or> (pending s = None \<and> (\<forall>j. writer_free (progs s j)))"
    using run_flat [OF assms(4)] run_writer_free [OF assms(4)] by (auto simp: start_def)
  ultimately have "finished s \<or> (\<exists>i u. lock_step i s u)" using progress by blast
  moreover have "m \<le> work n ?s0" using run_work [OF assms(4), of n] assms(2) by (simp add: start_def)
  ultimately show ?thesis by (simp add: work_def start_def)
qed

section \<open>One goroutine alone\<close>

text \<open>What a program answers when nothing interferes, and the map afterwards.\<close>

primrec alone :: "'f prog \<Rightarrow> (string \<times> 'f) list \<Rightarrow> bool \<times> (string \<times> 'f) list" where
  "alone (Done ok) t = (ok, t)"
| "alone (Lock p) t = alone p t"
| "alone (Unlock p) t = alone p t"
| "alone (RLock p) t = alone p t"
| "alone (RUnlock p) t = alone p t"
| "alone (Find k q) t = (alone \<circ> q) (map_of t k \<noteq> None) t"
| "alone (Insert k f q) t =
     (if map_of t k = None then (alone \<circ> q) True (AList.update k f t) else (alone \<circ> q) False t)"

text \<open>The configured authorizers as \<open>get_call\<close> takes them.\<close>

definition made :: "('t, 'w) sys \<Rightarrow> authorizer_registry \<Rightarrow> authorizer_config \<Rightarrow> bool" where
  "made S reg ac =
     (case lookup_authorizer reg (ac_type ac) of
        None \<Rightarrow> False
      | Some factory \<Rightarrow> (case run_auth_factory S factory ac of Inl e \<Rightarrow> False | Inr a \<Rightarrow> True))"

definition auth_steps ::
  "('t, 'w) sys \<Rightarrow> authorizer_registry \<Rightarrow> (string \<times> authorizer_config option) list \<Rightarrow> (string \<times> bool) option list"
where
  "auth_steps S reg acs = map (\<lambda>m. map_option (\<lambda>ac. (ac_type ac, made S reg ac)) (snd m)) acs"

lemma get_loop_alone:
  "alone (get_loop (auth_steps S reg acs)) reg =
     ((\<exists>r. build_authorizers S reg acs result = Inr r), reg)"
proof (induction acs arbitrary: result)
  case Nil
  then show ?case by (simp add: auth_steps_def)
next
  case (Cons m acs)
  obtain an aco where m: "m = (an, aco)" by (cases m)
  have rest: "alone (get_loop (map (\<lambda>m. map_option (\<lambda>ac. (ac_type ac, made S reg ac)) (snd m)) acs)) reg =
      ((\<exists>r. build_authorizers S reg acs result' = Inr r), reg)" for result'
    using Cons.IH [of result'] by (simp add: auth_steps_def)
  note defs = m auth_steps_def rest ValidateAuthorizer_def AuthorizerExists_def lookup_authorizer_def
  show ?case
  proof (cases aco)
    case None
    then show ?thesis by (simp add: m auth_steps_def)
  next
    case ac: (Some ac)
    show ?thesis
    proof (cases "map_of reg (ac_type ac)")
      case None
      then show ?thesis by (simp add: defs ac)
    next
      case (Some factory)
      then have made: "made S reg ac \<longleftrightarrow> (\<exists>a. run_auth_factory S factory ac = Inr a)"
        by (simp add: made_def lookup_authorizer_def split: sum.splits)
      from Some show ?thesis by (cases "run_auth_factory S factory ac") (simp_all add: defs ac made)
    qed
  qed
qed

text \<open>
  The locks do not change what the registry functions compute: run alone, the program of
  \<open>GetAuthorizers\<close> succeeds exactly when its first loop does, \<open>AuthorizerExists\<close> answers as
  its definition says, and a registration leaves the map the definition returns, or panics and
  leaves it as it was.
\<close>

lemma locked_calls_agree:
  "alone (get_call (auth_steps S reg (cf_authorizers config))) reg =
     ((\<exists>r. build_authorizers S reg (cf_authorizers config) [] = Inr r), reg) \<and>
   alone (exists_call k) reg = (AuthorizerExists reg k, reg) \<and>
   alone (register_call k f) reg =
     (case RegisterAuthorizer k f reg of Returns reg' \<Rightarrow> (True, reg') | Panics p \<Rightarrow> (False, reg))"
  by (simp add: get_call_def get_loop_alone [where result = "[]"] exists_call_def AuthorizerExists_def
      register_call_def RegisterAuthorizer_def)

section \<open>Concrete runs\<close>

definition two_registrations :: "nat \<Rightarrow> authorizer_factory prog" where
  "two_registrations i =
     (if i = 0 then register_call ''x'' BasicAuthorizerFactory
      else if i = 1 then register_call ''x'' LDAPAuthorizerFactory else Done True)"

lemma two_registrations_calls: "\<forall>i. registry_call (two_registrations i)"
  by (auto simp: two_registrations_def registry_call_def)

lemma two_registrations_run:
  "\<exists>s. steps 2 (start [] two_registrations) s \<and>
     progs s 0 = Insert ''x'' BasicAuthorizerFactory (\<lambda>ok. Unlock (Done ok)) \<and>
     progs s 1 = register_call ''x'' LDAPAuthorizerFactory"
proof -
  let ?p = "Insert ''x'' BasicAuthorizerFactory (\<lambda>ok. Unlock (Done ok))"
  let ?s0 = "start [] two_registrations"
  let ?s1 = "?s0\<lparr>pending := Some 0\<rparr>"
  let ?s2 = "goes_on 0 ?p ?s1\<lparr>pending := None, holder := Some 0\<rparr>"
  have "lock_step 0 ?s0 ?s1"
    by (rule lock_step.announce) (simp_all add: start_def two_registrations_def register_call_def)
  moreover have "lock_step 0 ?s1 ?s2"
    by (rule lock_step.acquire) (simp_all add: start_def two_registrations_def register_call_def)
  ultimately have "steps 2 ?s0 ?s2"
    unfolding numeral_2_eq_2 by (intro steps.more [OF steps.more [OF steps.none]])
  then show ?thesis
    by (intro exI [of _ ?s2]) (simp add: start_def two_registrations_def register_call_def)
qed

theorem race_free_witness:
  "\<exists>s. steps 2 (start [] two_registrations) s \<and>
     (\<forall>k' f' q'. progs s 1 \<noteq> Insert k' f' q')"
proof -
  from two_registrations_run obtain s where s: "steps 2 (start [] two_registrations) s"
    "progs s 0 = Insert ''x'' BasicAuthorizerFactory (\<lambda>ok. Unlock (Done ok))" by blast
  from race_free [OF two_registrations_calls s(1,2), of 1] s(1) show ?thesis by auto
qed

theorem calls_finish_witness:
  "\<exists>s. steps 2 (start [] two_registrations) s \<and> (finished s \<or> (\<exists>i u. lock_step i s u))"
proof -
  from two_registrations_run obtain s where s: "steps 2 (start [] two_registrations) s" by blast
  have "\<forall>i \<ge> 2. \<exists>ok. two_registrations i = Done ok" "\<forall>i acs. two_registrations i \<noteq> get_call acs"
    by (auto simp: two_registrations_def register_call_def get_call_def)
  with calls_finish [OF two_registrations_calls _ _ s, of 2] s show ?thesis by blast
qed

end
