(* ===== verification/Spec2Isabelle.thy ===== *)
theory Spec2Isabelle
  imports Sound_Server Secrets Registry_Lock
begin

text \<open>
  Goexpose, a server that exposes configured tasks (shell commands, HTTP calls, queries of four
  databases, files) over HTTP as JSON.  This development models the Go package \<open>goexpose\<close> and its
  main program: everything in \<open>auth.go\<close>, \<open>config.go\<close>, \<open>formats.go\<close>, \<open>http.go\<close>,
  \<open>interfaces.go\<close>, \<open>registry.go\<close>, \<open>response.go\<close>, \<open>server.go\<close>, \<open>settings.go\<close>,
  \<open>tasks.go\<close>, \<open>utils.go\<close> and \<open>cmd/goexpose/goexpose.go\<close> but logging and command line
  flags.

  How the parts work together.  The main program loads a configuration (\<open>config.go\<close>) and starts
  a server, which builds its routes: it makes the authorizers (\<open>auth.go\<close>), and for every method
  of every endpoint it looks up the factory of the task's type in a registry (\<open>registry.go\<close>)
  and lets it decode and validate its own configuration (\<open>tasks.go\<close>).  The info factory asks
  the server for its routes again, and the multi factory calls the factories of its tasks.  For
  a request the handler (\<open>server.go\<close>) asks the authorizers, collects the data the templates of
  the task may use, runs the task and writes the response (\<open>response.go\<close>); a panic on the way
  is answered with status 500.

  Theories, from the bottom.
  \<^item> \<open>Prelude\<close>: JSON documents, errors, panics, failures (an error or a panic), nil pointers,
    maps as association lists, loops that stop at the first failure.
  \<^item> \<open>Go_Strings\<close>, \<open>Go_Base64\<close>, \<open>Go_Json\<close>, \<open>Go_Decode\<close>, \<open>Go_Path\<close>: what the program uses
    of Go's standard library, written out: splitting and trimming, base64, the JSON encoder,
    decoder and decoding into structs, and paths.
  \<^item> \<open>Response\<close>: dynamic values, the response builder, its encoding and \<open>Write\<close>
    (\<open>response.go\<close>).  A response is the record \<open>response\<close>, field by field.
  \<^item> \<open>Registry\<close>: the three registries and what \<open>init\<close> puts there (\<open>registry.go\<close>, the
    registration functions of \<open>auth.go\<close> and \<open>formats.go\<close>), as implementations of one
    locale; \<open>Formats\<close>: the format functions and format expressions (\<open>formats.go\<close>).
  \<^item> \<open>World\<close>: the record \<open>sys\<close> of everything that is called outside the repository, the
    request, \<open>Interpolate\<close> and \<open>MethodAllowed\<close> (\<open>utils.go\<close>) and the HTTP client
    (\<open>http.go\<close>).
  \<^item> \<open>Config\<close>: the configuration, its decoding, validation and the query parameters of a
    request (\<open>config.go\<close>).
  \<^item> \<open>Auth\<close>: the three authorizers, \<open>GetAuthorizers\<close> and the check of a request
    (\<open>auth.go\<close>).
  \<^item> \<open>Task_Common\<close>, \<open>Task_Shell\<close>, \<open>Task_Http\<close>, \<open>Task_Sql\<close>, \<open>Task_Store\<close>,
    \<open>Task_Filesystem\<close>, \<open>Tasks\<close>: the nine tasks (\<open>tasks.go\<close>): for each its configuration
    record, \<open>Validate\<close>, factory and \<open>Run\<close>; a \<open>Run\<close> is a loop over items, each item a
    definition of its own.  The contract of the configurations with a \<open>single_result\<close> is the
    locale \<open>indexed_config\<close>, interpreted for seven of them; \<open>item_task\<close> extends it with the loop
    over the items and is interpreted for five tasks.
  \<^item> \<open>Routes\<close>: building the routes (\<open>server.go\<close>) together with the info and multi factories
    that call back into it; \<open>Server\<close>: environment, query parameters, handler, dispatch, start
    (\<open>server.go\<close>, \<open>cmd/goexpose\<close>).
  \<^item> \<open>Registry_Lock\<close>: the read-write locks of the registries and the goroutines that take
    them, as a step relation.
  \<^item> \<open>Json_Strings\<close>, \<open>Json_Facts\<close>, \<open>Response_Json\<close>: the encoder prints exactly one
    document, which the parser reads back.  \<open>Task_Items\<close>, \<open>Task_Types\<close>, \<open>Reply\<close>: the typing
    of values, responses, items, tasks and replies.  \<open>Config_Bounds\<close>: the range of the index
    a task stores.  \<open>Startup\<close>: environment, dispatch and start.  \<open>Built_Routes\<close>: the
    invariant of the routes of a server that started.  \<open>Access\<close>: access control from the
    configuration to the reply.  \<open>Secrets\<close>: what the authorizers are configured with does not
    reach a client.  \<open>Built_Tasks\<close>: the locale
    \<open>task_invariant\<close>, which carries a property of tasks from the factories through multi tasks
    to the routes.  \<open>Whole_Server\<close> and \<open>Sound_Server\<close> interpret it: from a configuration to
    the reply of the server, and the configurations whose server never panics.

  How state is modelled. Functions with an error result return a sum, functions that can panic
  an \<open>outcome\<close>, and those that can do both an \<open>attempt\<close>. A pointer in
  a slice or map is an option; a null in the configuration makes it \<open>None\<close>, and
  reading through it panics: at the start, or for the queries of two databases at every request.
  What a task does to the outside is a function on a world of any type that the model never
  looks into, threaded through in the order of the code; what is left of the request's body is
  threaded with it, since reading it twice is visible. After a panic the world is not known and
  is not returned. A Go map is an association list with distinct keys. The order in which a
  \<open>range\<close> loop visits a map is the order of that list: an arbitrary one, but the same for
  every loop over that map, where Go may choose another one each time. This matters for the
  methods of an endpoint only: the loop of \<open>routes\<close> runs once for the server, and once more
  inside it for every info task, and in Go the two may see different orders. Theorems about one
  of these runs hold for every order of its own; none relates the orders of two of them, and
  the theorem that compares two servers takes them with the same orders.

  What the lemmas show.
  \<^item> End to end: a request is answered once, with 401, 500 or the status of its task, and
    a refused one leaves the world as the authorizers left it, so no task has run; the reply of
    a server without filesystem tasks is one JSON object whose status data are those of the
    status line, and empty only when a value from outside cannot be encoded; the program listens
    on the configured address with one route per method of every endpoint, exits with status 1,
    or crashes, and does one of them when every info type is written without white space and no
    info task is inside a multi task; a request is
    redirected to its canonical path or goes to the first route that matches, and on a server
    that started nothing panics before the task runs if the authorizers of the endpoint are
    defined; a configuration that avoids the four mistakes that validation lets through (a
    \<open>single_result\<close> below -1, a null query, a MySQL task without queries, an
    authorizer that is not configured) gives a server on which no request panics.
  \<^item> Authorization: what each authorizer accepts, that a request passes exactly when all
    authorizers named for its endpoint and method accept it, and when the check cannot panic;
    from the configuration to the reply, a request that an authorizer of its endpoint or method
    refuses is answered 401 with nothing else run; and replies depend on the configuration of
    the authorizers only through their decisions (two servers, one request).
  \<^item> Tasks: every item ends in a result or an error; which item \<open>single_result\<close> selects and
    when it panics; what a filesystem task serves and from where, with and without ".." in the
    name; which query parameters reach a task; formats that always succeed.
  \<^item> Locks: no data race on a registry in any interleaving, a bound on every run without nested
    read locks, and the deadlock that the nested read lock of \<open>GetAuthorizers\<close> allows.
  \<^item> Where the code does not do what its comments, its README or the evident intent say, the
    theorem states what it does (for example that the body of a request that can be read never
    reaches a task, or that an info method hides the methods after it).

  Fuel.  \<open>routes\<close> and \<open>call_factory\<close> take fuel because the code's recursion has no bound:
  \<open>routes_return_fuel\<close> shows that four more than the nesting depth of multi tasks is enough when
  no info task is inside a multi task and every info type is written without white space, and
  \<open>routes_more_fuel\<close> that more fuel changes nothing; no fuel gives routes to a server with a
  multi task that contains an info task (unless an info method of its endpoint comes before it),
  and \<open>info_in_multi_diverges\<close> that nothing but the end of the fuel stops it when they come
  first.  The JSON parser's fuel is fixed by \<open>parse_json\<close>;
  \<open>parse_render\<close> shows it is enough for every document that is written.

  Parameters. The record \<open>sys\<close> holds what is not in the repository's own files:
  \<open>text/template\<close>, \<open>regexp\<close>, Unicode case tables, the text of floating
  point numbers, URL parsing, sending HTTP requests, LDAP, processes, the database drivers,
  files, YAML conversion, SHA-256, the path matching of gorilla/mux and the URL it redirects to.
  The order in which gorilla/mux tries routes, the match of a route by its method and the
  canonical form of a path are written out after the vendored source (\<open>find_route\<close>,
  \<open>route_match\<close>, \<open>cleanPath\<close> and \<open>serve\<close> for \<open>Match\<close> and \<open>ServeHTTP\<close>),
  for routes registered as \<open>router\<close> of \<open>server.go\<close> does.  Calls through
  the types \<open>TaskFactory\<close> and \<open>Tasker\<close> are \<open>call_factory\<close> and \<open>run_task\<close>, with
  one equation for each of the nine factories and tasks. Theorems hold for all of them; the typing theorems
  assume \<open>sys_typed\<close>, that the JSON the encoder makes of values from outside has
  number literals of the JSON grammar.

  Not modelled: logging, flags, the listening loop of \<open>net/http\<close> (the model says
  what it is asked to do), closing of connections and rows, and the vendored packages but for that routing (what is
  left of the repository's own Go code is comments, imports and struct wrappers). The position a
  JSON error reports is left out, and so is what a shortened slice keeps in its spare capacity
  while decoding (it takes three members of the same name to see it). Loop variables are those
  of the Go versions the code was written for: one per loop, shared by its turns.
\<close>

end
